(* ===== verification/Go_Prelude.thy ===== *)
theory Go_Prelude
  imports Main "HOL-Library.AList" "HOL-Library.Multiset" "HOL-Library.Char_ord"
    "HOL-Library.List_Lexorder" "HOL-Library.Product_Lexorder"
begin

text \<open>
  The prelude of the development: the pieces of Go and of its standard library that every
  component uses.  Go's \<open>int64\<close> is an \<open>int\<close> whose arithmetic is wrapped explicitly by
  \<open>wrap64\<close>; \<open>i64\<close> is the range predicate.  Go strings and byte slices are \<open>string\<close> (a list of
  8-bit characters).  A pointer that may be nil is an \<open>option\<close>.  \<open>time.Time\<close> is the number of
  nanoseconds since the Unix epoch; the zero time is the constant \<open>zeroTime\<close>.  A function that
  returns \<open>(T, error)\<close> returns \<open>T res\<close>.  SQL tables are association lists with distinct keys,
  read by \<open>map_of\<close> and written by \<open>AList.update\<close> and \<open>AList.delete\<close>.
\<close>

named_theorems go_int \<open>facts about wrapped 64-bit integers\<close>
named_theorems go_res \<open>case analysis facts for results and folds over results\<close>

section \<open>Integers\<close>

type_synonym int64 = int

definition maxInt64 :: int64 where
  "maxInt64 = 9223372036854775807"

definition i64 :: "int \<Rightarrow> bool" where
  "i64 x \<longleftrightarrow> - 9223372036854775808 \<le> x \<and> x \<le> 9223372036854775807"

definition wrap64 :: "int \<Rightarrow> int64" where
  "wrap64 x = (x + 9223372036854775808) mod 18446744073709551616 - 9223372036854775808"

definition tquo :: "int \<Rightarrow> int \<Rightarrow> int" where
  "tquo a b = sgn a * sgn b * (\<bar>a\<bar> div \<bar>b\<bar>)"

section \<open>Errors and results\<close>

text \<open>
  \<open>GoErr\<close> is an anonymous \<open>errors.New\<close> or \<open>fmt.Errorf\<close> value, \<open>Sentinel\<close> a package variable that
  callers compare with \<open>errors.Is\<close>, \<open>Problem\<close> a \<open>core.GatewayError\<close> with its code, HTTP status
  and message, and \<open>CtxErr\<close> the error of a cancelled or expired context.
\<close>

datatype go_error =
    GoErr string
  | Sentinel string
  | Problem string nat string
  | CtxErr

type_synonym 'a res = "go_error + 'a"

definition ErrNoRows :: go_error where
  "ErrNoRows = Sentinel ''sql: no rows in result set''"

definition isOk :: "'a res \<Rightarrow> bool" where
  "isOk r = (case r of Inl _ \<Rightarrow> False | Inr _ \<Rightarrow> True)"

definition bindR :: "'a res \<Rightarrow> ('a \<Rightarrow> 'b res) \<Rightarrow> 'b res" where
  "bindR r k = (case r of Inl e \<Rightarrow> Inl e | Inr a \<Rightarrow> k a)"

text \<open>A \<open>for\<close> loop whose body may return an error early.\<close>

fun foldR :: "('a \<Rightarrow> 's \<Rightarrow> 's res) \<Rightarrow> 'a list \<Rightarrow> 's \<Rightarrow> 's res" where
  "foldR f [] s = Inr s"
| "foldR f (x # xs) s = bindR (f x s) (foldR f xs)"

section \<open>Time\<close>

type_synonym time = int
type_synonym duration = int

definition second :: duration where
  "second = 1000000000"

definition zeroTime :: time where
  "zeroTime = - 62135596800 * 1000000000"

definition isZeroTime :: "time \<Rightarrow> bool" where
  "isZeroTime t = (t = zeroTime)"

definition unixTime :: "time \<Rightarrow> int64" where
  "unixTime t = t div 1000000000"

section \<open>Tables\<close>

type_synonym ('k, 'v) table = "('k \<times> 'v) list"

definition tbl_ok :: "('k, 'v) table \<Rightarrow> bool" where
  "tbl_ok t = distinct (map fst t)"

section \<open>Lemmas\<close>

lemma i64_bounds [go_int]: "i64 x \<longleftrightarrow> - maxInt64 - 1 \<le> x \<and> x \<le> maxInt64"
  by (auto simp: i64_def maxInt64_def)

lemma i64_maxInt64 [simp]: "i64 maxInt64"
  by (simp add: i64_def maxInt64_def)

lemma i64_zero_one [simp]: "i64 0" "i64 1"
  by (simp_all add: i64_def)

lemma wrap64_id: "i64 x \<Longrightarrow> wrap64 x = x"
  by (simp add: i64_def wrap64_def)

lemma i64_wrap64 [simp]: "i64 (wrap64 x)"
proof -
  have "0 \<le> (x + 9223372036854775808) mod 18446744073709551616"
    and "(x + 9223372036854775808) mod 18446744073709551616 < 18446744073709551616"
    by simp_all
  then show ?thesis unfolding i64_def wrap64_def by linarith
qed

lemma wrap64_nonneg: "0 \<le> x \<Longrightarrow> x \<le> maxInt64 \<Longrightarrow> wrap64 x = x"
  by (simp add: wrap64_id i64_def maxInt64_def)

lemma tquo_nonneg: "0 \<le> a \<Longrightarrow> 0 < b \<Longrightarrow> tquo a b = a div b"
  by (auto simp: tquo_def sgn_if)

lemma isOk_simps [simp]: "isOk (Inr a)" "\<not> isOk (Inl e)"
  by (simp_all add: isOk_def)

lemma isOk_iff: "isOk r \<longleftrightarrow> (\<exists>a. r = Inr a)"
  by (cases r) auto

lemma bindR_simps [simp]: "bindR (Inl e) k = Inl e" "bindR (Inr a) k = k a"
  by (simp_all add: bindR_def)

lemma bindR_Inr [go_res]: "bindR r k = Inr b \<longleftrightarrow> (\<exists>a. r = Inr a \<and> k a = Inr b)"
  by (cases r) auto

lemma bindR_pair_Inr [go_res]:
  "bindR r (\<lambda>(a, s). k a s) = Inr b \<longleftrightarrow> (\<exists>a s. r = Inr (a, s) \<and> k a s = Inr b)"
  by (cases r) auto

lemma if_Inl_eq_Inr [simp, go_res]: "(if c then Inl e else r) = Inr x \<longleftrightarrow> \<not> c \<and> r = Inr x"
  by simp

lemma case_sum_eq_Inr [simp, go_res]:
  "(case r of Inl e \<Rightarrow> Inl (f e) | Inr a \<Rightarrow> g a) = Inr x \<longleftrightarrow> (\<exists>a. r = Inr a \<and> g a = Inr x)"
  by (cases r) auto

lemma case_option_eq_Inr [simp, go_res]:
  "(case v of None \<Rightarrow> Inl e | Some a \<Rightarrow> g a) = Inr x \<longleftrightarrow> (\<exists>a. v = Some a \<and> g a = Inr x)"
  "(case v of None \<Rightarrow> r | Some a \<Rightarrow> Inl (h a)) = Inr x \<longleftrightarrow> v = None \<and> r = Inr x"
  by (cases v; auto)+

lemma foldR_append: "foldR f (xs @ ys) s = bindR (foldR f xs s) (foldR f ys)"
  by (induction xs arbitrary: s) (auto simp: bindR_def split: sum.splits)

text \<open>An invariant of the loop body is an invariant of the loop.\<close>

lemma foldR_invariant:
  assumes "foldR f xs s = Inr s'" and "P s"
    and "\<And>x s s'. x \<in> set xs \<Longrightarrow> P s \<Longrightarrow> f x s = Inr s' \<Longrightarrow> P s'"
  shows "P s'"
  using assms
proof (induction xs arbitrary: s)
  case Nil
  then show ?case by simp
next
  case (Cons x xs)
  from Cons.prems(1) obtain s1 where "f x s = Inr s1" and rest: "foldR f xs s1 = Inr s'"
    by (auto simp: bindR_Inr)
  with Cons.prems have "P s1" by auto
  with rest Cons.prems(3) show ?case by (intro Cons.IH) auto
qed

text \<open>A projection that the body does not change, and a check that the body makes against it.\<close>

lemma foldR_frame:
  assumes "foldR f xs s = Inr s'" and "\<And>x s s'. f x s = Inr s' \<Longrightarrow> h s' = h s"
  shows "h s' = h s"
  by (rule foldR_invariant [OF assms(1), where P = "\<lambda>t. h t = h s"]) (simp_all add: assms(2))

lemma foldR_checked:
  assumes "foldR f xs s = Inr s'" and "\<And>x s s'. f x s = Inr s' \<Longrightarrow> h s' = h s \<and> Q (h s) x"
  shows "\<forall>x\<in>set xs. Q (h s) x"
  using assms(1)
proof (induction xs arbitrary: s)
  case (Cons x xs)
  then obtain s1 where 1: "f x s = Inr s1" and "foldR f xs s1 = Inr s'"
    by (auto simp: bindR_Inr)
  with Cons.IH [of s1] assms(2) [OF 1] show ?case by simp
qed simp

lemma update_fresh: "k \<notin> fst ` set t \<Longrightarrow> AList.update k v t = t @ [(k, v)]"
  by (induction t) auto

lemma foldR_update:
  assumes "foldR f xs s = Inr s'"
    and "\<And>x s s'. f x s = Inr s' \<Longrightarrow> g s' = AList.update (kf x) (vf x) (g s)"
    and "distinct (map fst (g s) @ map kf xs)"
  shows "g s' = g s @ map (\<lambda>x. (kf x, vf x)) xs"
  using assms(1,3)
proof (induction xs arbitrary: s)
  case (Cons x xs)
  then obtain s1 where 1: "f x s = Inr s1" and rest: "foldR f xs s1 = Inr s'"
    by (auto simp: bindR_Inr)
  have "g s1 = g s @ [(kf x, vf x)]"
    using assms(2) [OF 1] Cons.prems(2) by (simp add: update_fresh)
  with Cons.IH [OF rest] Cons.prems(2) show ?case by simp
qed simp

text \<open>The same for a loop that updates one field, read by \<open>get\<close> and changed by \<open>upd\<close>.\<close>

lemma foldR_field:
  assumes "foldR f xs s = Inr s'" and "distinct (map fst (get s) @ map fst xs)"
    and "\<And>x s s'. f x s = Inr s' \<Longrightarrow> s' = upd (AList.update (fst x) (snd x)) s"
    and "\<And>h s. get (upd h s) = h (get s)" "\<And>v h s. upd (\<lambda>_. v) (upd h s) = upd (\<lambda>_. v) s"
      "\<And>s. upd (\<lambda>_. get s) s = s"
  shows "s' = upd (\<lambda>_. get s @ xs) s"
  using assms(1,2)
proof (induction xs arbitrary: s)
  case (Cons x xs)
  then obtain s1 where 1: "f x s = Inr s1" and rest: "foldR f xs s1 = Inr s'"
    by (auto simp: bindR_Inr)
  have s1: "s1 = upd (AList.update (fst x) (snd x)) s" by (rule assms(3) [OF 1])
  have "get s1 = get s @ [x]" using Cons.prems(2) by (simp add: s1 assms(4) update_fresh)
  with Cons.IH [OF rest] Cons.prems(2) show ?case by (simp add: s1 assms(5))
qed (simp add: assms(6))

lemma foldR_ok:
  assumes "P s"
    and "\<And>x s. x \<in> set xs \<Longrightarrow> P s \<Longrightarrow> \<exists>s'. f x s = Inr s' \<and> P s'"
  shows "\<exists>s'. foldR f xs s = Inr s' \<and> P s'"
  using assms
proof (induction xs arbitrary: s)
  case Nil
  then show ?case by simp
next
  case (Cons x xs)
  then obtain s1 where "f x s = Inr s1" "P s1" by (metis list.set_intros(1))
  with Cons show ?case by simp
qed

lemma distinct_map_finer:
  assumes "distinct (map h xs)"
    and "\<And>x y. x \<in> set xs \<Longrightarrow> y \<in> set xs \<Longrightarrow> g x = g y \<Longrightarrow> h x = h y"
  shows "distinct (map g xs)"
  using assms
proof (induction xs)
  case (Cons x xs)
  have "g x \<notin> g ` set xs"
  proof
    assume "g x \<in> g ` set xs"
    then obtain y where "y \<in> set xs" "g x = g y" by blast
    with Cons.prems(2) [of x y] Cons.prems(1) show False by auto
  qed
  with Cons show ?case by simp
qed simp

lemma tbl_ok_update [simp]: "tbl_ok t \<Longrightarrow> tbl_ok (AList.update k v t)"
  by (simp add: tbl_ok_def distinct_update)

lemma tbl_ok_delete [simp]: "tbl_ok t \<Longrightarrow> tbl_ok (AList.delete k t)"
  by (simp add: tbl_ok_def distinct_delete)

lemma tbl_ok_Nil [simp]: "tbl_ok []"
  by (simp add: tbl_ok_def)

lemma map_of_update [simp]: "map_of (AList.update k v t) = (map_of t)(k \<mapsto> v)"
  by (simp add: update_conv')

lemma map_of_delete [simp]: "map_of (AList.delete k t) = (map_of t)(k := None)"
  by (simp add: delete_conv')

text \<open>The keys of a table.\<close>

definition tkeys :: "('k, 'v) table \<Rightarrow> 'k set" where
  "tkeys t = fst ` set t"

lemma tkeys_update [simp]: "tkeys (AList.update k v t) = insert k (tkeys t)"
  by (simp add: tkeys_def dom_update)

lemma tkeys_delete [simp]: "tkeys (AList.delete k t) = tkeys t - {k}"
  by (auto simp: tkeys_def AList.delete_eq)

lemma tkeys_Nil [simp]: "tkeys [] = {}"
  by (simp add: tkeys_def)

lemma map_of_None_tkeys: "map_of t k = None \<longleftrightarrow> k \<notin> tkeys t"
  by (simp add: tkeys_def map_of_eq_None_iff)

end
