(* ===== verification/Go_Strings.thy ===== *)
theory Go_Strings
  imports Go_Prelude
begin

text \<open>
  The parts of Go's \<open>strings\<close>, \<open>unicode/utf8\<close>, \<open>unicode\<close> and \<open>net/textproto\<close> packages that the
  modelled code calls, on strings as lists of bytes.  \<open>runes\<close> is the decoding that \<open>for _, r :=
  range s\<close> performs: an ill-formed byte is the replacement rune of width one.  \<open>toLower\<close> and
  \<open>equalFold\<close> agree with Go whenever the other side of the comparison is an ASCII string, which
  is every use in the modelled code: only A-Z, U+0130 and U+212A are lowered to ASCII, and only
  A-Z, U+212A and U+017F fold to ASCII.
\<close>

definition byteOf :: "char \<Rightarrow> nat" where
  "byteOf c = of_char c"

definition runeError :: nat where
  "runeError = 0xFFFD"

definition inByte :: "nat \<Rightarrow> nat \<Rightarrow> char \<Rightarrow> bool" where
  "inByte lo hi c = (lo \<le> byteOf c \<and> byteOf c \<le> hi)"

definition contBits :: "char \<Rightarrow> nat" where
  "contBits c = byteOf c - 0x80"

text \<open>\<open>utf8.DecodeRuneInString\<close> on a nonempty string: the rune and its width.\<close>

fun decodeRune :: "string \<Rightarrow> nat \<times> nat" where
  "decodeRune [] = (runeError, 0)"
| "decodeRune (a # s) =
     (if byteOf a < 0x80 then (byteOf a, 1)
      else case s of
        [] \<Rightarrow> (runeError, 1)
      | b # s2 \<Rightarrow>
          if inByte 0xC2 0xDF a then
            (if inByte 0x80 0xBF b then ((byteOf a - 0xC0) * 64 + contBits b, 2) else (runeError, 1))
          else case s2 of
            [] \<Rightarrow> (runeError, 1)
          | c # s3 \<Rightarrow>
              if inByte 0xE0 0xEF a then
                (if inByte (if byteOf a = 0xE0 then 0xA0 else 0x80)
                      (if byteOf a = 0xED then 0x9F else 0xBF) b \<and> inByte 0x80 0xBF c then
                   ((byteOf a - 0xE0) * 4096 + contBits b * 64 + contBits c, 3)
                 else (runeError, 1))
              else case s3 of
                [] \<Rightarrow> (runeError, 1)
              | d # s4 \<Rightarrow>
                  if inByte 0xF0 0xF4 a
                     \<and> inByte (if byteOf a = 0xF0 then 0x90 else 0x80)
                         (if byteOf a = 0xF4 then 0x8F else 0xBF) b
                     \<and> inByte 0x80 0xBF c \<and> inByte 0x80 0xBF d then
                    ((byteOf a - 0xF0) * 262144 + contBits b * 4096 + contBits c * 64 + contBits d, 4)
                  else (runeError, 1))"

lemma decodeRune_width: "s \<noteq> [] \<Longrightarrow> 0 < snd (decodeRune s)"
  by (cases s) (auto split: list.splits)

function runes :: "string \<Rightarrow> (nat \<times> string) list" where
  "runes s =
     (if s = [] then []
      else (fst (decodeRune s), take (snd (decodeRune s)) s) # runes (drop (snd (decodeRune s)) s))"
  by pat_completeness auto
termination
  by (relation "measure length") (simp_all add: decodeRune_width)

declare runes.simps [simp del]

definition validString :: "string \<Rightarrow> bool" where
  "validString s = list_all (\<lambda>(r, bs). \<not> (r = runeError \<and> length bs = 1)) (runes s)"

definition isSpaceRune :: "nat \<Rightarrow> bool" where
  "isSpaceRune r =
     (r \<in> {0x20, 0x85, 0xA0, 0x1680, 0x2028, 0x2029, 0x202F, 0x205F, 0x3000}
      \<or> (9 \<le> r \<and> r \<le> 13) \<or> (0x2000 \<le> r \<and> r \<le> 0x200A))"

definition isControlRune :: "nat \<Rightarrow> bool" where
  "isControlRune r = (r < 0x20 \<or> (0x7F \<le> r \<and> r \<le> 0x9F))"

definition trimSpace :: "string \<Rightarrow> string" where
  "trimSpace s =
     concat (map snd (rev (dropWhile (isSpaceRune \<circ> fst)
       (rev (dropWhile (isSpaceRune \<circ> fst) (runes s))))))"

definition lowerByte :: "char \<Rightarrow> char" where
  "lowerByte c = (if inByte 65 90 c then char_of (byteOf c + 32) else c)"

definition upperByte :: "char \<Rightarrow> char" where
  "upperByte c = (if inByte 97 122 c then char_of (byteOf c - 32) else c)"

definition lowerRune :: "nat \<times> string \<Rightarrow> string" where
  "lowerRune rb =
     (if fst rb < 0x80 then map lowerByte (snd rb)
      else if fst rb = 0x130 then ''i''
      else if fst rb = 0x212A then ''k''
      else snd rb)"

definition toLower :: "string \<Rightarrow> string" where
  "toLower s = concat (map lowerRune (runes s))"

definition foldRune :: "nat \<times> string \<Rightarrow> string" where
  "foldRune rb =
     (if fst rb < 0x80 then map lowerByte (snd rb)
      else if fst rb = 0x17F then ''s''
      else if fst rb = 0x212A then ''k''
      else snd rb)"

definition equalFold :: "string \<Rightarrow> string \<Rightarrow> bool" where
  "equalFold s t = (map foldRune (runes s) = map foldRune (runes t))"

text \<open>\<open>textproto.CanonicalMIMEHeaderKey\<close>: names with a byte that is no token byte are kept.\<close>

definition tokenByte :: "char \<Rightarrow> bool" where
  "tokenByte c =
     (inByte 48 57 c \<or> inByte 65 90 c \<or> inByte 97 122 c \<or> c \<in> set ''!#$%&*+-.^_`|~'' \<or> byteOf c = 39)"

fun canonicalBytes :: "bool \<Rightarrow> string \<Rightarrow> string" where
  "canonicalBytes up [] = []"
| "canonicalBytes up (c # s) =
     (let d = (if up then upperByte c else lowerByte c) in d # canonicalBytes (d = CHR ''-'') s)"

definition canonicalMIMEHeaderKey :: "string \<Rightarrow> string" where
  "canonicalMIMEHeaderKey s = (if list_all tokenByte s then canonicalBytes True s else s)"

definition hasPrefix :: "string \<Rightarrow> string \<Rightarrow> bool" where
  "hasPrefix s p = (take (length p) s = p)"

text \<open>\<open>strings.Split\<close> with a one-byte separator.\<close>

fun splitByte :: "char \<Rightarrow> string \<Rightarrow> string list" where
  "splitByte sep [] = [[]]"
| "splitByte sep (c # s) =
     (if c = sep then [] # splitByte sep s
      else case splitByte sep s of
        [] \<Rightarrow> [[c]]
      | t # ts \<Rightarrow> (c # t) # ts)"

text \<open>
  What a string is after \<open>json.Marshal\<close> and \<open>json.Unmarshal\<close>: every ill-formed byte has become the
  three bytes of the replacement rune.
\<close>

definition jsonText :: "string \<Rightarrow> string" where
  "jsonText s =
     concat (map (\<lambda>(r, bs). if r = runeError \<and> length bs = 1
        then [char_of (0xEF::nat), char_of (0xBF::nat), char_of (0xBD::nat)] else bs) (runes s))"

section \<open>Lemmas\<close>

lemma runes_Nil [simp]: "runes [] = []"
  by (simp add: runes.simps)

lemma runes_ascii [simp]: "byteOf a < 0x80 \<Longrightarrow> runes (a # s) = (byteOf a, [a]) # runes s"
  by (subst runes.simps) simp

lemma concat_runes: "concat (map snd (runes s)) = s"
proof (induction s rule: runes.induct)
  case (1 s)
  show ?case
  proof (cases "s = []")
    case False
    then show ?thesis using 1 by (subst runes.simps) simp
  qed simp
qed

lemma jsonText_valid: "validString s \<Longrightarrow> jsonText s = s"
proof -
  assume "validString s"
  then have "jsonText s = concat (map snd (runes s))"
    unfolding jsonText_def validString_def list_all_iff
    by (intro arg_cong [where f = concat] map_cong) auto
  then show ?thesis by (simp add: concat_runes)
qed

lemma concat_splitByte: "concat (splitByte sep s) = filter (\<lambda>c. c \<noteq> sep) s"
  by (induction s) (auto split: list.splits)

subsection \<open>ASCII strings\<close>

definition ascii :: "string \<Rightarrow> bool" where
  "ascii s = list_all (\<lambda>c. byteOf c < 0x80) s"

lemma ascii_simps [simp]: "ascii []" "ascii (c # s) \<longleftrightarrow> byteOf c < 0x80 \<and> ascii s"
  by (simp_all add: ascii_def)

lemma byteOf_char_of: "n < 256 \<Longrightarrow> byteOf (char_of n) = n"
  by (simp add: byteOf_def)

lemma byteOf_lowerByte: "byteOf (lowerByte c) = (if inByte 65 90 c then byteOf c + 32 else byteOf c)"
  by (simp add: lowerByte_def inByte_def byteOf_char_of)

lemma byteOf_upperByte: "byteOf (upperByte c) = (if inByte 97 122 c then byteOf c - 32 else byteOf c)"
  by (auto simp: upperByte_def inByte_def intro!: byteOf_char_of)

lemma byteOf_inject: "byteOf c = byteOf d \<longleftrightarrow> c = d"
  by (simp add: byteOf_def)

lemma lowerByte_idem [simp]: "lowerByte (lowerByte c) = lowerByte c"
  by (simp flip: byteOf_inject add: byteOf_lowerByte inByte_def)

lemma lowerByte_upperByte [simp]: "lowerByte (upperByte c) = lowerByte c"
  by (auto simp flip: byteOf_inject simp: byteOf_lowerByte byteOf_upperByte inByte_def)

lemma ascii_case [simp]:
  "byteOf (lowerByte c) < 0x80 \<longleftrightarrow> byteOf c < 0x80"
  "byteOf (upperByte c) < 0x80 \<longleftrightarrow> byteOf c < 0x80"
  by (auto simp: byteOf_lowerByte byteOf_upperByte inByte_def)

lemma runes_ascii_map: "ascii s \<Longrightarrow> runes s = map (\<lambda>c. (byteOf c, [c])) s"
  by (induction s) simp_all

lemma toLower_ascii: "ascii s \<Longrightarrow> toLower s = map lowerByte s"
  by (induction s) (simp_all add: toLower_def lowerRune_def)

lemma foldRune_ascii: "ascii s \<Longrightarrow> map foldRune (runes s) = map (\<lambda>c. [lowerByte c]) s"
  by (induction s) (simp_all add: foldRune_def)

lemma equalFold_ascii:
  assumes "ascii s" "ascii t"
  shows "equalFold s t \<longleftrightarrow> map lowerByte s = map lowerByte t"
proof -
  have "map (\<lambda>c. [lowerByte c]) s = map (\<lambda>c. [lowerByte c]) t \<longleftrightarrow> map lowerByte s = map lowerByte t"
  proof (induction s arbitrary: t)
    case (Cons c s)
    then show ?case by (cases t) auto
  qed auto
  then show ?thesis using assms by (simp add: equalFold_def foldRune_ascii)
qed

lemma canonicalBytes_case:
  "map lowerByte (canonicalBytes up s) = map lowerByte s"
  "ascii (canonicalBytes up s) = ascii s"
  by (induction up s rule: canonicalBytes.induct) (simp_all add: Let_def)

lemma canonicalMIMEHeaderKey_case:
  "map lowerByte (canonicalMIMEHeaderKey s) = map lowerByte s"
  "ascii (canonicalMIMEHeaderKey s) = ascii s"
  by (simp_all add: canonicalMIMEHeaderKey_def canonicalBytes_case)

text \<open>Evaluation of the string functions on ASCII literals.\<close>

lemmas str_eval = byteOf_def inByte_def lowerByte_def upperByte_def char_of_def bit_0 toLower_ascii
  equalFold_ascii runes_ascii_map validString_def trimSpace_def isSpaceRune_def isControlRune_def
  runeError_def tokenByte_def canonicalMIMEHeaderKey_def hasPrefix_def

end
