(* ===== verification/Client_Profile.thy ===== *)
theory Client_Profile
  imports Go_Strings
begin

text \<open>
  \<open>internal/core/client_profile.go\<close> and the identifiers of \<open>internal/core/codex_identity.go\<close>: the
  static and pass-through header profiles of upstream clients.  Go maps that are ranged over are
  association lists with distinct keys; the order of the list is the order of one iteration and
  the theorems hold for every order.  A nil header map is \<open>None\<close>.
\<close>

section \<open>Definitions\<close>

type_synonym header = "(string \<times> string list) list"

record ClientProfile =
  cp_Preset :: string
  cp_Version :: string
  cp_InstallationID :: string
  cp_Headers :: "(string \<times> string) list"

definition CodexExecVersion :: string where
  "CodexExecVersion = ''0.153.4''"

definition codexExecUserAgent :: string where
  "codexExecUserAgent =
     ''codex_exec/'' @ CodexExecVersion @ '' (Arch Linux Unknown; x86_64) dumb (codex_exec; ''
     @ CodexExecVersion @ '')''"

definition isLowerHex :: "char \<Rightarrow> bool" where
  "isLowerHex c = (inByte 48 57 c \<or> inByte 97 102 c)"

definition IsCanonicalUUIDv4 :: "string \<Rightarrow> bool" where
  "IsCanonicalUUIDv4 value =
     (if length value \<noteq> 36 \<or> value ! 8 \<noteq> CHR ''-'' \<or> value ! 13 \<noteq> CHR ''-''
         \<or> value ! 18 \<noteq> CHR ''-'' \<or> value ! 23 \<noteq> CHR ''-'' then False
      else if \<not> list_all (\<lambda>i. i \<in> {8, 13, 18, 23} \<or> isLowerHex (value ! i)) [0..<36] then False
      else value ! 14 = CHR ''4'' \<and> value ! 19 \<in> set ''89ab'')"

definition clientProfileHeaderNames :: "(string \<times> string) list" where
  "clientProfileHeaderNames =
     [(''user-agent'', ''User-Agent''), (''originator'', ''Originator''), (''version'', ''Version''),
      (''http-referer'', ''HTTP-Referer''), (''x-title'', ''X-Title''),
      (''x-zcode-app-version'', ''X-Zcode-App-Version''), (''x-zcode-agent'', ''X-Zcode-Agent''),
      (''anthropic-beta'', ''Anthropic-Beta''), (''x-stainless-lang'', ''X-Stainless-Lang''),
      (''x-stainless-package-version'', ''X-Stainless-Package-Version''),
      (''x-stainless-os'', ''X-Stainless-OS''), (''x-stainless-arch'', ''X-Stainless-Arch''),
      (''x-stainless-runtime'', ''X-Stainless-Runtime''),
      (''x-stainless-runtime-version'', ''X-Stainless-Runtime-Version'')]"

definition clientProfilePassthroughHeaderNames :: "(string \<times> string) list" where
  "clientProfilePassthroughHeaderNames =
     [(''originator'', ''Originator''), (''user-agent'', ''User-Agent''),
      (''session-id'', ''Session-Id''), (''thread-id'', ''Thread-Id''),
      (''x-client-request-id'', ''X-Client-Request-Id''),
      (''x-codex-window-id'', ''X-Codex-Window-Id''),
      (''x-codex-turn-metadata'', ''X-Codex-Turn-Metadata''),
      (''x-codex-beta-features'', ''X-Codex-Beta-Features''), (''accept'', ''Accept''),
      (''content-type'', ''Content-Type''), (''accept-encoding'', ''Accept-Encoding'')]"

definition clientProfileConnectors :: "(string \<times> string list) list" where
  "clientProfileConnectors =
     [(''custom'', [''openai'', ''anthropic'', ''compatible'', ''codex-subscription'']),
      (''codex-cli'', [''codex-subscription'', ''openai'', ''compatible'']),
      (''codex-desktop'', [''codex-subscription'', ''openai'', ''compatible'']),
      (''zcode-desktop'', [''compatible'', ''anthropic'', ''openai'']),
      (''codex-passthrough'', [''openai'', ''compatible'', ''codex-subscription'']),
      (''codex-exec'', [''openai'', ''compatible'', ''codex-subscription''])]"

definition clientProfilePassthroughError :: "string \<Rightarrow> go_error" where
  "clientProfilePassthroughError message = Problem ''invalid_request'' 400 message"

definition validateClientProfileText :: "string \<Rightarrow> string \<Rightarrow> nat \<Rightarrow> bool \<Rightarrow> unit res" where
  "validateClientProfileText field value limit required =
     (if value = '''' then
        (if required then Inl (GoErr (field @ '' is required'')) else Inr ())
      else if length value > limit \<or> \<not> validString value \<or> trimSpace value \<noteq> value then
        Inl (GoErr (field @ '' is invalid''))
      else if list_ex (isControlRune \<circ> fst) (runes value) then
        Inl (GoErr (field @ '' contains a control character''))
      else Inr ())"

definition clientProfileHasHeader :: "(string \<times> string) list \<Rightarrow> string \<Rightarrow> bool" where
  "clientProfileHasHeader headers name = list_ex (\<lambda>(key, _). equalFold key name) headers"

text \<open>The loop of \<open>validateShape\<close> over the headers, with \<open>seen\<close> and \<open>totalBytes\<close>.\<close>

fun validateProfileHeaders :: "(string \<times> string) list \<Rightarrow> string list \<Rightarrow> nat \<Rightarrow> unit res" where
  "validateProfileHeaders [] seen totalBytes = Inr ()"
| "validateProfileHeaders ((key, val) # hs) seen totalBytes =
     (let folded = toLower key in
      if map_of clientProfileHeaderNames folded = None then
        Inl (GoErr ''client_profile.headers contains an unsupported header'')
      else if folded \<in> set seen then
        Inl (GoErr ''client_profile.headers contains duplicate header names'')
      else case validateClientProfileText ''client_profile.headers'' val 4096 True of
        Inl e \<Rightarrow> Inl e
      | Inr _ \<Rightarrow>
          (let tot = totalBytes + length key + length val in
           if tot > 16384 then Inl (GoErr ''client_profile.headers is too large'')
           else validateProfileHeaders hs (folded # seen) tot))"

definition validateShape :: "ClientProfile \<Rightarrow> unit res" where
  "validateShape p =
     (if cp_Preset p \<notin> set [''custom'', ''codex-cli'', ''codex-desktop'', ''zcode-desktop'',
           ''codex-passthrough'', ''codex-exec''] then
        (if cp_Preset p = '''' then Inl (GoErr ''client_profile.preset is required'')
         else Inl (GoErr ''client_profile.preset is unsupported''))
      else if cp_Preset p \<noteq> ''codex-exec'' \<and> cp_InstallationID p \<noteq> '''' then
        Inl (GoErr ''client_profile.installation_id is only valid for codex-exec'')
      else if cp_Preset p = ''codex-exec'' then
        (if cp_Version p \<noteq> '''' \<and> cp_Version p \<noteq> CodexExecVersion then
           Inl (GoErr ''client_profile.version must be empty or the codex-exec version'')
         else if \<not> IsCanonicalUUIDv4 (cp_InstallationID p) then
           Inl (GoErr ''client_profile.installation_id must be a canonical UUIDv4'')
         else if cp_Headers p \<noteq> [] then
           Inl (GoErr ''client_profile.headers are not supported for codex-exec'')
         else Inr ())
      else if cp_Preset p = ''codex-passthrough'' then
        (if cp_Version p \<noteq> '''' then
           Inl (clientProfilePassthroughError ''codex-passthrough requires an empty version'')
         else if cp_Headers p \<noteq> [] then
           Inl (clientProfilePassthroughError ''codex-passthrough requires empty static headers'')
         else Inr ())
      else
        bindR (if cp_Version p \<noteq> '''' then
                 validateClientProfileText ''client_profile.version'' (cp_Version p) 256 False
               else Inr ()) (\<lambda>_.
        if cp_Preset p = ''zcode-desktop'' \<and> cp_Version p = '''' then
          Inl (GoErr ''client_profile.version is required for this preset'')
        else if length (cp_Headers p) > 32 then
          Inl (GoErr ''client_profile.headers contains too many entries'')
        else bindR (validateProfileHeaders (cp_Headers p) [] 0) (\<lambda>_.
        if cp_Preset p = ''codex-cli'' \<and> cp_Version p = ''''
           \<and> \<not> clientProfileHasHeader (cp_Headers p) ''User-Agent'' then
          Inl (GoErr ''client_profile.version or client_profile.headers.user_agent is required'')
        else if cp_Preset p = ''codex-desktop'' \<and> \<not> clientProfileHasHeader (cp_Headers p) ''Originator'' then
          Inl (GoErr ''client_profile.headers.originator is required for this preset'')
        else if cp_Preset p = ''codex-desktop'' \<and> \<not> clientProfileHasHeader (cp_Headers p) ''User-Agent'' then
          Inl (GoErr ''client_profile.headers.user_agent is required for this preset'')
        else Inr ())))"

definition EmulatesCodex :: "ClientProfile option \<Rightarrow> bool" where
  "EmulatesCodex p = (case p of None \<Rightarrow> False | Some q \<Rightarrow> cp_Preset q = ''codex-exec'')"

definition PreservesClientHeaders :: "ClientProfile option \<Rightarrow> bool" where
  "PreservesClientHeaders p =
     (case p of None \<Rightarrow> False | Some q \<Rightarrow> cp_Preset q = ''codex-passthrough'')"

definition Validate :: "ClientProfile option \<Rightarrow> string \<Rightarrow> unit res" where
  "Validate profile connector =
     (case profile of
        None \<Rightarrow> Inr ()
      | Some p \<Rightarrow>
          bindR (validateShape p) (\<lambda>_.
          case map_of clientProfileConnectors (cp_Preset p) of
            None \<Rightarrow> Inl (GoErr ''client_profile.preset is unsupported'')
          | Some connectors \<Rightarrow>
              (if connector \<notin> set connectors then
                 (if PreservesClientHeaders (Some p) then
                    Inl (clientProfilePassthroughError
                      ''codex-passthrough is incompatible with this connector'')
                  else Inl (GoErr ''client_profile.preset is incompatible with connector''))
               else Inr ())))"

text \<open>The map \<open>effective\<close> of \<open>Apply\<close>: the defaults of the preset, then the explicit headers.\<close>

definition presetHeaders :: "ClientProfile \<Rightarrow> (string \<times> string) list" where
  "presetHeaders p =
     (if cp_Preset p = ''codex-exec'' then
        [(''Originator'', ''codex_exec''), (''User-Agent'', codexExecUserAgent)]
      else if cp_Preset p = ''codex-cli'' then
        (''Originator'', ''codex_cli_rs'')
        # (if cp_Version p \<noteq> '''' then [(''User-Agent'', ''codex_cli_rs/'' @ cp_Version p)] else [])
      else if cp_Preset p = ''zcode-desktop'' then
        [(''HTTP-Referer'', ''https://zcode.z.ai''), (''X-Title'', ''Z Code''),
         (''User-Agent'', ''ZCode/'' @ cp_Version p), (''X-Zcode-App-Version'', cp_Version p)]
      else [])"

definition canonicalProfileName :: "string \<Rightarrow> string" where
  "canonicalProfileName key =
     (case map_of clientProfileHeaderNames (toLower key) of None \<Rightarrow> '''' | Some c \<Rightarrow> c)"

definition effectiveHeaders :: "ClientProfile \<Rightarrow> (string \<times> string) list" where
  "effectiveHeaders p =
     fold (\<lambda>(key, val). AList.update (canonicalProfileName key) val) (cp_Headers p) (presetHeaders p)"

definition setHeader :: "string \<Rightarrow> string \<Rightarrow> header \<Rightarrow> header" where
  "setHeader key val h = AList.update (canonicalMIMEHeaderKey key) [val] h"

definition replaceHeader :: "string \<times> string \<Rightarrow> header \<Rightarrow> header" where
  "replaceHeader kv h =
     setHeader (fst kv) (snd kv) (filter (\<lambda>(existing, _). \<not> equalFold existing (fst kv)) h)"

definition Apply :: "ClientProfile option \<Rightarrow> header option \<Rightarrow> header option res" where
  "Apply profile headers =
     (case profile of
        None \<Rightarrow> Inr headers
      | Some p \<Rightarrow>
          bindR (validateShape p) (\<lambda>_.
          if effectiveHeaders p = [] then Inr headers
          else case headers of
            None \<Rightarrow> Inl (GoErr ''client_profile.headers cannot be applied to nil request headers'')
          | Some h \<Rightarrow> Inr (Some (fold replaceHeader (effectiveHeaders p) h))))"

definition validateClientProfilePassthroughValue :: "string \<Rightarrow> bool \<Rightarrow> unit res" where
  "validateClientProfilePassthroughValue value required =
     (if value = '''' then
        (if required then
           Inl (clientProfilePassthroughError ''Codex passthrough requires a nonempty header value'')
         else Inr ())
      else if length value > 16384 then
        Inl (clientProfilePassthroughError ''Codex passthrough header value is too large'')
      else if \<not> validString value then
        Inl (clientProfilePassthroughError ''Codex passthrough header value is invalid'')
      else if trimSpace value \<noteq> value then
        Inl (clientProfilePassthroughError ''Codex passthrough header value has edge whitespace'')
      else if list_ex (isControlRune \<circ> fst) (runes value) then
        Inl (clientProfilePassthroughError
          ''Codex passthrough header value contains a control character'')
      else Inr ())"

text \<open>The first loop of \<open>collectClientProfilePassthroughHeaders\<close>.\<close>

fun collectSelected ::
  "header \<Rightarrow> (string \<times> string) list \<Rightarrow> nat \<Rightarrow> (string \<times> string) list res" where
  "collectSelected [] effective totalBytes = Inr effective"
| "collectSelected ((key, vals) # src) effective totalBytes =
     (let folded = toLower key in
      if map_of clientProfilePassthroughHeaderNames folded \<noteq> None then
        (if map_of effective folded \<noteq> None then
           Inl (clientProfilePassthroughError ''Codex passthrough rejects duplicate header names'')
         else case vals of
           [val] \<Rightarrow>
             bindR (validateClientProfilePassthroughValue val
                      (folded = ''originator'' \<or> folded = ''user-agent'')) (\<lambda>_.
             if folded = ''accept-encoding'' \<and> \<not> equalFold val ''identity'' then
               Inl (clientProfilePassthroughError ''Codex passthrough accepts only identity encoding'')
             else let tot = totalBytes + length key + length val in
               if tot > 32768 then
                 Inl (clientProfilePassthroughError ''Codex passthrough headers are too large'')
               else collectSelected src (effective @ [(folded, val)]) tot)
         | _ \<Rightarrow>
             Inl (clientProfilePassthroughError ''Codex passthrough requires a single header value''))
      else if hasPrefix folded ''x-codex-'' then
        Inl (clientProfilePassthroughError ''Codex passthrough rejects unknown x-codex metadata'')
      else collectSelected src effective totalBytes)"

definition connectionTokens :: "header \<Rightarrow> string list" where
  "connectionTokens src =
     concat (map (\<lambda>(key, vals).
       if equalFold key ''Connection'' then
         concat (map (\<lambda>v. map (toLower \<circ> trimSpace) (splitByte (CHR '','') v)) vals)
       else []) src)"

definition hopByHop :: "(string \<times> string) list \<Rightarrow> string \<Rightarrow> bool" where
  "hopByHop effective folded =
     (folded \<noteq> '''' \<and> map_of clientProfilePassthroughHeaderNames folded \<noteq> None
      \<and> map_of effective folded \<noteq> None)"

definition collectClientProfilePassthroughHeaders :: "header \<Rightarrow> (string \<times> string) list res" where
  "collectClientProfilePassthroughHeaders src =
     bindR (collectSelected src [] 0) (\<lambda>effective.
     if map_of effective ''originator'' = None then
       Inl (clientProfilePassthroughError ''Codex passthrough requires Originator'')
     else if map_of effective ''user-agent'' = None then
       Inl (clientProfilePassthroughError ''Codex passthrough requires User-Agent'')
     else if list_ex (hopByHop effective) (connectionTokens src) then
       Inl (clientProfilePassthroughError ''Codex passthrough rejects hop-by-hop headers'')
     else Inr effective)"

definition passthroughName :: "string \<Rightarrow> string" where
  "passthroughName folded =
     (case map_of clientProfilePassthroughHeaderNames folded of None \<Rightarrow> '''' | Some c \<Rightarrow> c)"

definition ApplyRequestHeaders ::
  "ClientProfile option \<Rightarrow> header option \<Rightarrow> header \<Rightarrow> header option res" where
  "ApplyRequestHeaders profile dst src =
     (case profile of
        None \<Rightarrow> Apply profile dst
      | Some p \<Rightarrow>
          if \<not> PreservesClientHeaders profile then Apply profile dst
          else
            bindR (validateShape p) (\<lambda>_.
            bindR (collectClientProfilePassthroughHeaders src) (\<lambda>effective.
            case dst of
              None \<Rightarrow>
                Inl (clientProfilePassthroughError ''codex-passthrough requires destination headers'')
            | Some d \<Rightarrow>
                Inr (Some (fold (\<lambda>(folded, val). AList.update (passthroughName folded) [val]) effective
                  (filter (\<lambda>(existing, _).
                     map_of clientProfilePassthroughHeaderNames (toLower existing) = None) d))))))"

text \<open>
  \<open>newUUIDv7\<close>: \<open>random\<close> are the 16 bytes that \<open>rand.Read\<close> delivered, \<open>ms\<close> is
  \<open>time.Now().UnixMilli()\<close> converted to \<open>uint64\<close>.
\<close>

definition hexDigit :: "nat \<Rightarrow> char" where
  "hexDigit n = (''0123456789abcdef'' ! n)"

definition hexEncode :: "nat list \<Rightarrow> string" where
  "hexEncode bs = concat (map (\<lambda>b. [hexDigit (b div 16), hexDigit (b mod 16)]) bs)"

definition newUUIDv7 :: "nat list \<Rightarrow> nat \<Rightarrow> string" where
  "newUUIDv7 random ms =
     (let v = [ms div 2 ^ 40 mod 256, ms div 2 ^ 32 mod 256, ms div 2 ^ 24 mod 256,
               ms div 2 ^ 16 mod 256, ms div 2 ^ 8 mod 256, ms mod 256,
               random ! 6 mod 16 + 0x70, random ! 7,
               random ! 8 mod 64 + 0x80, random ! 9] @ drop 10 random
      in hexEncode (take 4 v) @ ''-'' @ hexEncode (take 2 (drop 4 v)) @ ''-''
         @ hexEncode (take 2 (drop 6 v)) @ ''-'' @ hexEncode (take 2 (drop 8 v)) @ ''-''
         @ hexEncode (take 6 (drop 10 v)))"

section \<open>Lemmas\<close>

subsection \<open>Static profiles\<close>

lemma map_of_filter_key:
  "map_of (filter (\<lambda>(k, _). P k) t) k = (if P k then map_of t k else None)"
  by (induction t) auto

lemma map_of_replaceHeader:
  "map_of (replaceHeader (n, v) h) k =
     (if k = canonicalMIMEHeaderKey n then Some [v]
      else if equalFold k n then None else map_of h k)"
  by (simp add: replaceHeader_def setHeader_def map_of_filter_key [of "\<lambda>k. \<not> equalFold k n"])

text \<open>Two names of which the second, applied later, leaves the header of the first alone.\<close>

definition apart :: "string \<Rightarrow> string \<Rightarrow> bool" where
  "apart a b \<longleftrightarrow>
     canonicalMIMEHeaderKey a \<noteq> canonicalMIMEHeaderKey b \<and> \<not> equalFold (canonicalMIMEHeaderKey a) b"

lemma find_apart:
  assumes "list_all (apart a) (map fst es)"
  shows "find (\<lambda>(n, _). canonicalMIMEHeaderKey n = canonicalMIMEHeaderKey a) es = None"
    and "\<not> list_ex (\<lambda>(n, _). equalFold (canonicalMIMEHeaderKey a) n) es"
  using assms by (auto simp: find_None_iff list_all_iff list_ex_iff apart_def)

lemma map_of_fold_replaceHeader:
  assumes "sorted_wrt apart (map fst es)"
  shows "map_of (fold replaceHeader es h) k =
    (case find (\<lambda>(n, _). canonicalMIMEHeaderKey n = k) es of
       Some (_, v) \<Rightarrow> Some [v]
     | None \<Rightarrow> if list_ex (\<lambda>(n, _). equalFold k n) es then None else map_of h k)"
  using assms
proof (induction es arbitrary: h)
  case (Cons e es)
  obtain n v where e: "e = (n, v)" by (cases e)
  from Cons.prems e have ap: "list_all (apart n) (map fst es)" and rest: "sorted_wrt apart (map fst es)"
    by (auto simp: list_all_iff)
  show ?case
  proof (cases "k = canonicalMIMEHeaderKey n")
    case True
    with find_apart [OF ap] Cons.IH [OF rest, of "replaceHeader e h"] show ?thesis
      by (simp add: e map_of_replaceHeader)
  next
    case False
    then have "canonicalMIMEHeaderKey n \<noteq> k" by simp
    then show ?thesis
      using Cons.IH [OF rest] False
      by (auto simp: e map_of_replaceHeader split: option.splits)
  qed
qed simp

lemma profileTable_lower:
  "list_all (\<lambda>(folded, name). ascii name \<and> map lowerByte name = folded) clientProfileHeaderNames"
  by code_simp

lemma apart_lower: "ascii a \<Longrightarrow> ascii b \<Longrightarrow> map lowerByte a \<noteq> map lowerByte b \<Longrightarrow> apart a b"
  unfolding apart_def by (metis canonicalMIMEHeaderKey_case equalFold_ascii)

lemma profileNames_apart:
  assumes "a \<in> set (map snd clientProfileHeaderNames)" "b \<in> set (map snd clientProfileHeaderNames)"
    "a \<noteq> b"
  shows "apart a b"
proof (rule apart_lower)
  have l: "ascii n" "(map lowerByte n, n) \<in> set clientProfileHeaderNames"
    if "n \<in> set (map snd clientProfileHeaderNames)" for n
    using that profileTable_lower by (auto simp: list_all_iff)
  show "ascii a" "ascii b" using l assms by blast+
  have "distinct (map fst clientProfileHeaderNames)" by (simp add: clientProfileHeaderNames_def)
  then show "map lowerByte a \<noteq> map lowerByte b"
    using l(2) [OF assms(1)] l(2) [OF assms(2)] assms(3) by (metis eq_key_imp_eq_value)
qed

lemma sorted_wrt_apart:
  assumes "distinct ns" "set ns \<subseteq> set (map snd clientProfileHeaderNames)"
  shows "sorted_wrt apart ns"
  using assms
proof (induction ns)
  case (Cons n ns)
  have "apart n m" if "m \<in> set ns" for m
  proof (rule profileNames_apart)
    show "n \<in> set (map snd clientProfileHeaderNames)" "m \<in> set (map snd clientProfileHeaderNames)"
      using Cons.prems(2) that by (auto simp del: set_map)
    show "n \<noteq> m" using Cons.prems(1) that by auto
  qed
  moreover have "sorted_wrt apart ns"
    using Cons.prems by (intro Cons.IH) (simp_all del: set_map)
  ultimately show ?case by simp
qed simp

lemma validateProfileHeaders_names:
  assumes "validateProfileHeaders hs seen n = Inr ()"
  shows "list_all (\<lambda>(key, _). map_of clientProfileHeaderNames (toLower key) \<noteq> None) hs"
    and "distinct (map (toLower \<circ> fst) hs)"
    and "set (map (toLower \<circ> fst) hs) \<inter> set seen = {}"
  using assms
  by (induction hs seen n rule: validateProfileHeaders.induct)
    (auto simp: Let_def split: if_splits sum.splits)

lemma canonicalProfileName_mem:
  "map_of clientProfileHeaderNames (toLower key) \<noteq> None \<Longrightarrow>
    canonicalProfileName key \<in> set (map snd clientProfileHeaderNames)"
  by (cases "map_of clientProfileHeaderNames (toLower key)")
    (auto simp: canonicalProfileName_def dest!: map_of_SomeD intro: rev_image_eqI)

lemma presetHeaders_names:
  "distinct (map fst (presetHeaders p))"
  "set (map fst (presetHeaders p)) \<subseteq> set (map snd clientProfileHeaderNames)"
  by (auto simp: presetHeaders_def clientProfileHeaderNames_def)

lemma fold_update_names:
  assumes "distinct (map fst es)"
  shows "distinct (map fst (fold (\<lambda>(key, val). AList.update (f key) val) hs es))
    \<and> set (map fst (fold (\<lambda>(key, val). AList.update (f key) val) hs es))
      \<subseteq> set (map fst es) \<union> f ` set (map fst hs)"
  using assms
proof (induction hs arbitrary: es)
  case (Cons h hs)
  obtain k v where h: "h = (k, v)" by (cases h)
  from Cons.IH [OF distinct_update [OF Cons.prems, of "f k" v]] show ?case
    by (auto simp: h dom_update)
qed simp

lemma validateShape_headers:
  assumes "validateShape p = Inr ()"
  shows "list_all (\<lambda>(key, _). map_of clientProfileHeaderNames (toLower key) \<noteq> None) (cp_Headers p)"
    and "distinct (map (toLower \<circ> fst) (cp_Headers p))"
proof -
  have "cp_Headers p = [] \<or> validateProfileHeaders (cp_Headers p) [] 0 = Inr ()"
    using assms by (simp add: validateShape_def bindR_Inr split: if_split_asm)
  then show "list_all (\<lambda>(key, _). map_of clientProfileHeaderNames (toLower key) \<noteq> None) (cp_Headers p)"
    and "distinct (map (toLower \<circ> fst) (cp_Headers p))"
    using validateProfileHeaders_names [of "cp_Headers p" "[]" 0] by auto
qed

lemma effectiveHeaders_apart:
  assumes "validateShape p = Inr ()"
  shows "sorted_wrt apart (map fst (effectiveHeaders p))"
proof (rule sorted_wrt_apart)
  note names = fold_update_names [OF presetHeaders_names(1), of canonicalProfileName "cp_Headers p" p]
  show "distinct (map fst (effectiveHeaders p))"
    unfolding effectiveHeaders_def using names by (rule conjunct1)
  have "canonicalProfileName k \<in> set (map snd clientProfileHeaderNames)"
    if "k \<in> set (map fst (cp_Headers p))" for k
    using validateShape_headers(1) [OF assms] that
    by (intro canonicalProfileName_mem) (auto simp: list_all_iff)
  then have "canonicalProfileName ` set (map fst (cp_Headers p)) \<subseteq> set (map snd clientProfileHeaderNames)"
    by (rule image_subsetI)
  with names presetHeaders_names(2) [of p]
  show "set (map fst (effectiveHeaders p)) \<subseteq> set (map snd clientProfileHeaderNames)"
    unfolding effectiveHeaders_def by (meson Un_least subset_trans)
qed

lemma map_of_fold_update:
  assumes "distinct (map (f \<circ> fst) hs)"
  shows "map_of (fold (\<lambda>(key, val). AList.update (f key) val) hs es) n =
    (case find (\<lambda>(key, _). f key = n) hs of Some (_, v) \<Rightarrow> Some v | None \<Rightarrow> map_of es n)"
  using assms
proof (induction hs arbitrary: es)
  case (Cons h hs)
  obtain k v where h: "h = (k, v)" by (cases h)
  have IH: "map_of (fold (\<lambda>(key, val). AList.update (f key) val) hs (AList.update (f k) v es)) n =
    (case find (\<lambda>(key, _). f key = n) hs of
       Some (_, w) \<Rightarrow> Some w | None \<Rightarrow> ((map_of es)(f k \<mapsto> v)) n)"
    using Cons.IH [of "AList.update (f k) v es"] Cons.prems by (simp split: option.splits)
  have "find (\<lambda>(key, _). f key = n) hs = None" if "f k = n"
    using Cons.prems that by (force simp: h find_None_iff)
  with IH show ?case by (auto simp: h split: option.splits)
qed simp

lemma distinct_canonicalProfileName:
  assumes "list_all (\<lambda>(key, _). map_of clientProfileHeaderNames (toLower key) \<noteq> None) hs"
    "distinct (map (toLower \<circ> fst) hs)"
  shows "distinct (map (canonicalProfileName \<circ> fst) hs)"
proof -
  have l: "canonicalProfileName k = canonicalProfileName k' \<longrightarrow> toLower k = toLower k'"
    if "map_of clientProfileHeaderNames (toLower k) \<noteq> None"
      "map_of clientProfileHeaderNames (toLower k') \<noteq> None" for k k'
  proof -
    from that obtain c c' where c: "map_of clientProfileHeaderNames (toLower k) = Some c"
      "map_of clientProfileHeaderNames (toLower k') = Some c'" by blast
    with profileTable_lower have "map lowerByte c = toLower k" "map lowerByte c' = toLower k'"
      by (auto simp: list_all_iff dest!: map_of_SomeD)
    with c show ?thesis by (auto simp: canonicalProfileName_def)
  qed
  show ?thesis
  proof (rule distinct_map_finer [OF assms(2)])
    fix x y
    assume "x \<in> set hs" "y \<in> set hs"
      and "(canonicalProfileName \<circ> fst) x = (canonicalProfileName \<circ> fst) y"
    with assms(1) l [of "fst x" "fst y"] show "(toLower \<circ> fst) x = (toLower \<circ> fst) y"
      by (auto simp: list_all_iff split_beta)
  qed
qed

subsection \<open>Pass-through profiles\<close>

text \<open>The headers of \<open>src\<close> that the pass-through preset selects, by folded name.\<close>

definition passSelected :: "string \<Rightarrow> bool" where
  "passSelected folded \<longleftrightarrow> map_of clientProfilePassthroughHeaderNames folded \<noteq> None"

definition selectedValues :: "header \<Rightarrow> (string \<times> string) set" where
  "selectedValues src = {(toLower key, v) |key v. (key, [v]) \<in> set src \<and> passSelected (toLower key)}"

lemma collectSelected_step:
  assumes "collectSelected ((key, vals) # src) eff n = Inr eff'"
  shows "\<not> passSelected (toLower key) \<and> \<not> hasPrefix (toLower key) ''x-codex-''
      \<and> collectSelected src eff n = Inr eff'
    \<or> (\<exists>v n'. passSelected (toLower key) \<and> vals = [v] \<and> map_of eff (toLower key) = None
        \<and> (toLower key \<in> {''originator'', ''user-agent''} \<longrightarrow> v \<noteq> '''')
        \<and> collectSelected src (eff @ [(toLower key, v)]) n' = Inr eff')"
proof (cases "passSelected (toLower key)")
  case True
  then obtain v where vals: "vals = [v]"
    using assms by (auto simp: passSelected_def Let_def split: if_splits list.splits)
  with True assms show ?thesis
    by (auto simp: passSelected_def Let_def bindR_Inr validateClientProfilePassthroughValue_def
        split: if_splits)
next
  case False
  with assms show ?thesis by (auto simp: passSelected_def Let_def split: if_splits)
qed

lemma collectSelected_Inr:
  assumes "collectSelected src eff n = Inr eff'" "distinct (map fst eff)"
  shows "distinct (map fst eff') \<and> set eff' = set eff \<union> selectedValues src
    \<and> list_all (\<lambda>(key, vals). if passSelected (toLower key) then length vals = 1
        else \<not> hasPrefix (toLower key) ''x-codex-'') src
    \<and> (\<forall>(f, v)\<in>selectedValues src. f \<in> {''originator'', ''user-agent''} \<longrightarrow> v \<noteq> '''')"
  using assms
proof (induction src arbitrary: eff n)
  case Nil
  then show ?case by (simp add: selectedValues_def)
next
  case (Cons kv src)
  obtain key vals where kv: "kv = (key, vals)" by (cases kv)
  from collectSelected_step [OF Cons.prems(1) [unfolded kv]]
  consider (skip) "\<not> passSelected (toLower key)" "\<not> hasPrefix (toLower key) ''x-codex-''"
      "collectSelected src eff n = Inr eff'"
    | (take) v n' where "passSelected (toLower key)" "vals = [v]" "map_of eff (toLower key) = None"
      "toLower key \<in> {''originator'', ''user-agent''} \<longrightarrow> v \<noteq> ''''"
      "collectSelected src (eff @ [(toLower key, v)]) n' = Inr eff'" by blast
  then show ?case
  proof cases
    case skip
    then have "selectedValues (kv # src) = selectedValues src"
      by (auto simp: selectedValues_def kv)
    with skip Cons.IH [OF skip(3) Cons.prems(2)] show ?thesis by (simp add: kv)
  next
    case take
    then have sv: "selectedValues (kv # src) = insert (toLower key, v) (selectedValues src)"
      by (auto simp: selectedValues_def kv)
    have "distinct (map fst (eff @ [(toLower key, v)]))"
      using Cons.prems(2) take(3) by (auto simp: map_of_eq_None_iff)
    from Cons.IH [OF take(5) this] take(1,2,4) show ?thesis
      unfolding sv by (simp add: kv)
  qed
qed

lemma collect_Inr:
  assumes "collectClientProfilePassthroughHeaders src = Inr eff"
  shows "distinct (map fst eff)" "set eff = selectedValues src"
    "list_all (\<lambda>(key, vals). if passSelected (toLower key) then length vals = 1
        else \<not> hasPrefix (toLower key) ''x-codex-'') src"
    "\<exists>v. v \<noteq> '''' \<and> (''originator'', v) \<in> selectedValues src"
    "\<exists>v. v \<noteq> '''' \<and> (''user-agent'', v) \<in> selectedValues src"
    "list_all (\<lambda>t. \<not> hopByHop eff t) (connectionTokens src)"
proof -
  from assms have c: "collectSelected src [] 0 = Inr eff"
    and o: "map_of eff ''originator'' \<noteq> None" and a: "map_of eff ''user-agent'' \<noteq> None"
    and h: "\<not> list_ex (hopByHop eff) (connectionTokens src)"
    by (auto simp: collectClientProfilePassthroughHeaders_def bindR_Inr)
  note r = collectSelected_Inr [OF c, simplified]
  show "distinct (map fst eff)" "set eff = selectedValues src"
    "list_all (\<lambda>(key, vals). if passSelected (toLower key) then length vals = 1
        else \<not> hasPrefix (toLower key) ''x-codex-'') src"
    using r by simp_all
  from o obtain v where "(''originator'', v) \<in> set eff" by (auto dest!: map_of_SomeD)
  with r show "\<exists>v. v \<noteq> '''' \<and> (''originator'', v) \<in> selectedValues src" by auto
  from a obtain w where "(''user-agent'', w) \<in> set eff" by (auto dest!: map_of_SomeD)
  with r show "\<exists>v. v \<noteq> '''' \<and> (''user-agent'', v) \<in> selectedValues src" by auto
  show "list_all (\<lambda>t. \<not> hopByHop eff t) (connectionTokens src)"
    using h by (simp add: list_ex_iff list_all_iff)
qed

lemma passthroughTable_lower:
  "list_all (\<lambda>(folded, name). toLower name = folded) clientProfilePassthroughHeaderNames"
  "distinct (map fst clientProfilePassthroughHeaderNames)"
  by code_simp+

lemma passthroughName_lower: "passSelected f \<Longrightarrow> toLower (passthroughName f) = f"
  using passthroughTable_lower(1)
  by (cases "map_of clientProfilePassthroughHeaderNames f")
    (auto simp: passSelected_def passthroughName_def list_all_iff dest!: map_of_SomeD)

lemma fold_passthrough:
  assumes "distinct (map fst eff)" "\<forall>f\<in>set (map fst eff). passSelected f"
  shows "map_of (fold (\<lambda>(folded, val). AList.update (passthroughName folded) [val]) eff d) k =
    (if passSelected (toLower k) \<and> k = passthroughName (toLower k) \<and> map_of eff (toLower k) \<noteq> None
     then map_option (\<lambda>v. [v]) (map_of eff (toLower k)) else map_of d k)"
  using assms
proof (induction eff arbitrary: d)
  case (Cons e eff)
  obtain f v where e: "e = (f, v)" by (cases e)
  have sel: "passSelected f" using Cons.prems(2) e by simp
  have new: "map_of eff f = None" using Cons.prems(1) e by (simp add: map_of_eq_None_iff)
  have IH: "map_of (fold (\<lambda>(folded, val). AList.update (passthroughName folded) [val]) eff d') k =
    (if passSelected (toLower k) \<and> k = passthroughName (toLower k) \<and> map_of eff (toLower k) \<noteq> None
     then map_option (\<lambda>v. [v]) (map_of eff (toLower k)) else map_of d' k)" for d'
    using Cons by simp
  show ?case
  proof (cases "k = passthroughName f")
    case True
    with passthroughName_lower [OF sel] have "toLower k = f" by simp
    with True sel new IH [of "AList.update (passthroughName f) [v] d"] show ?thesis
      by (simp add: e)
  next
    case False
    then have "\<not> (f = toLower k \<and> k = passthroughName (toLower k))" by auto
    with False show ?thesis by (cases "map_of eff (toLower k)") (auto simp: e IH)
  qed
qed simp

text \<open>The destination headers that \<open>ApplyRequestHeaders\<close> writes for a pass-through profile.\<close>

definition forwardHeaders :: "(string \<times> string) list \<Rightarrow> header \<Rightarrow> header" where
  "forwardHeaders eff d =
     fold (\<lambda>(folded, val). AList.update (passthroughName folded) [val]) eff
       (filter (\<lambda>(existing, _). \<not> passSelected (toLower existing)) d)"

lemma collect_map_of:
  assumes "collectClientProfilePassthroughHeaders src = Inr eff"
  shows "map_of eff f = Some v \<longleftrightarrow> (f, v) \<in> selectedValues src"
  using collect_Inr(1,2) [OF assms] by (simp add: map_of_eq_Some_iff)

lemma forwardHeaders_lookup:
  assumes "collectClientProfilePassthroughHeaders src = Inr eff"
  shows "if passSelected (toLower k)
    then \<forall>vs. map_of (forwardHeaders eff d) k = Some vs \<longleftrightarrow>
      k = passthroughName (toLower k) \<and> (\<exists>v. vs = [v] \<and> (toLower k, v) \<in> selectedValues src)
    else map_of (forwardHeaders eff d) k = map_of d k"
proof -
  have "\<forall>f\<in>set (map fst eff). passSelected f"
    using collect_Inr(2) [OF assms] by (auto simp: selectedValues_def)
  from fold_passthrough [OF collect_Inr(1) [OF assms] this]
  have "map_of (forwardHeaders eff d) k =
      (if passSelected (toLower k) \<and> k = passthroughName (toLower k) \<and> map_of eff (toLower k) \<noteq> None
       then map_option (\<lambda>v. [v]) (map_of eff (toLower k))
       else if \<not> passSelected (toLower k) then map_of d k else None)"
    by (simp add: forwardHeaders_def map_of_filter_key [of "\<lambda>k. \<not> passSelected (toLower k)"])
  then show ?thesis
    using collect_map_of [OF assms, of "toLower k"] by (cases "map_of eff (toLower k)") auto
qed

lemma not_hopByHop:
  assumes "collectClientProfilePassthroughHeaders src = Inr eff"
  shows "list_all (\<lambda>t. \<not> (\<exists>v. (t, v) \<in> selectedValues src)) (connectionTokens src)"
proof -
  have "hopByHop eff t" if "(t, v) \<in> selectedValues src" for t v
  proof -
    from that have "passSelected t" by (auto simp: selectedValues_def)
    moreover from this have "t \<noteq> ''''"
      by (auto simp: passSelected_def clientProfilePassthroughHeaderNames_def)
    moreover have "map_of eff t = Some v" using that by (simp add: collect_map_of [OF assms])
    ultimately show ?thesis by (simp add: hopByHop_def passSelected_def)
  qed
  then show ?thesis using collect_Inr(6) [OF assms] by (auto simp: list_all_iff)
qed

lemma required_names:
  "toLower ''Originator'' = ''originator''" "passthroughName ''originator'' = ''Originator''"
  "toLower ''User-Agent'' = ''user-agent''" "passthroughName ''user-agent'' = ''User-Agent''"
  "passSelected ''originator''" "passSelected ''user-agent''"
  unfolding passSelected_def by code_simp+

section \<open>Properties\<close>

text \<open>
  \<open>Apply\<close> resolves a static profile exactly.  After a successful call every effective header
  carries its single value under its canonical name, every other spelling of such a name is gone,
  and all other headers are unchanged; an explicit header of the profile overrides the default
  of its preset.
\<close>

theorem Apply_resolves:
  assumes "Apply (Some p) (Some h) = Inr r"
  shows "(\<exists>h'. r = Some h' \<and> (\<forall>k. map_of h' k =
      (case find (\<lambda>(n, _). canonicalMIMEHeaderKey n = k) (effectiveHeaders p) of
         Some (_, v) \<Rightarrow> Some [v]
       | None \<Rightarrow>
           if list_ex (\<lambda>(n, _). equalFold k n) (effectiveHeaders p) then None else map_of h k)))
    \<and> (\<forall>n. map_of (effectiveHeaders p) n =
        (case find (\<lambda>(key, _). canonicalProfileName key = n) (cp_Headers p) of
           Some (_, v) \<Rightarrow> Some v | None \<Rightarrow> map_of (presetHeaders p) n))"
proof -
  from assms have shape: "validateShape p = Inr ()"
    by (auto simp: Apply_def bindR_Inr)
  have "r = Some (fold replaceHeader (effectiveHeaders p) h)"
    using assms by (cases "effectiveHeaders p = []") (auto simp: Apply_def bindR_Inr)
  then have "\<exists>h'. r = Some h' \<and> (\<forall>k. map_of h' k =
      (case find (\<lambda>(n, _). canonicalMIMEHeaderKey n = k) (effectiveHeaders p) of
         Some (_, v) \<Rightarrow> Some [v]
       | None \<Rightarrow>
           if list_ex (\<lambda>(n, _). equalFold k n) (effectiveHeaders p) then None else map_of h k))"
    using map_of_fold_replaceHeader [OF effectiveHeaders_apart [OF shape]] by blast
  moreover have "distinct (map (canonicalProfileName \<circ> fst) (cp_Headers p))"
    using validateShape_headers [OF shape] by (rule distinct_canonicalProfileName)
  then have "\<forall>n. map_of (effectiveHeaders p) n =
        (case find (\<lambda>(key, _). canonicalProfileName key = n) (cp_Headers p) of
           Some (_, v) \<Rightarrow> Some v | None \<Rightarrow> map_of (presetHeaders p) n)"
    unfolding effectiveHeaders_def by (simp add: map_of_fold_update)
  ultimately show ?thesis by (rule conjI)
qed

definition sampleProfile :: ClientProfile where
  "sampleProfile = \<lparr>cp_Preset = ''codex-cli'', cp_Version = ''1.2'', cp_InstallationID = '''',
     cp_Headers = [(''originator'', ''me'')]\<rparr>"

lemmas profile_eval = sampleProfile_def clientProfileHeaderNames_def
  clientProfilePassthroughHeaderNames_def str_eval

lemma sampleProfile_apply:
  "Apply (Some sampleProfile) (Some [(''USER-AGENT'', [''curl'']), (''Accept'', [''x''])])
     = Inr (Some [(''Accept'', [''x'']), (''Originator'', [''me'']),
         (''User-Agent'', [''codex_cli_rs/1.2''])])"
proof -
  have "validateShape sampleProfile = Inr ()"
    by (simp add: validateShape_def validateClientProfileText_def clientProfileHasHeader_def
        profile_eval)
  moreover have "effectiveHeaders sampleProfile
      = [(''Originator'', ''me''), (''User-Agent'', ''codex_cli_rs/1.2'')]"
    by (simp add: effectiveHeaders_def presetHeaders_def canonicalProfileName_def profile_eval)
  ultimately show ?thesis
    by (simp add: Apply_def replaceHeader_def setHeader_def Let_def str_eval)
qed

theorem Apply_resolves_witness:
  "Apply (Some sampleProfile) (Some [(''USER-AGENT'', [''curl'']), (''Accept'', [''x''])])
     = Inr (Some [(''Accept'', [''x'']), (''Originator'', [''me'']),
         (''User-Agent'', [''codex_cli_rs/1.2''])])
   \<and> map_of (effectiveHeaders sampleProfile) ''Originator'' = Some ''me''"
proof -
  note a = sampleProfile_apply
  have "find (\<lambda>(key, _). canonicalProfileName key = ''Originator'') (cp_Headers sampleProfile)
      = Some (''originator'', ''me'')"
    by (simp add: canonicalProfileName_def profile_eval)
  with Apply_resolves [OF a] have "map_of (effectiveHeaders sampleProfile) ''Originator'' = Some ''me''"
    by auto
  with a show ?thesis by (rule conjI)
qed

text \<open>
  C16: pass-through forwards nothing but the allow-listed caller headers.  After a successful
  \<open>ApplyRequestHeaders\<close> of a \<open>codex-passthrough\<close> profile, a header whose folded name is on the
  list is present exactly under its canonical name with the caller's single value, all other
  destination headers are unchanged, \<open>Originator\<close> and \<open>User-Agent\<close> are present and nonempty, no
  unknown \<open>x-codex-\<close> header was sent, and no forwarded header was named hop-by-hop by
  \<open>Connection\<close>.
\<close>

theorem ApplyRequestHeaders_passthrough:
  assumes "cp_Preset p = ''codex-passthrough''"
    and "ApplyRequestHeaders (Some p) (Some d) src = Inr r"
  shows "\<exists>h'. r = Some h'
    \<and> (\<forall>k. if passSelected (toLower k)
         then \<forall>vs. map_of h' k = Some vs \<longleftrightarrow>
           k = passthroughName (toLower k) \<and> (\<exists>v. vs = [v] \<and> (toLower k, v) \<in> selectedValues src)
         else map_of h' k = map_of d k)
    \<and> (\<exists>v. v \<noteq> '''' \<and> map_of h' ''Originator'' = Some [v])
    \<and> (\<exists>v. v \<noteq> '''' \<and> map_of h' ''User-Agent'' = Some [v])
    \<and> list_all (\<lambda>(key, _). hasPrefix (toLower key) ''x-codex-'' \<longrightarrow> passSelected (toLower key)) src
    \<and> list_all (\<lambda>t. \<not> (\<exists>v. (t, v) \<in> selectedValues src)) (connectionTokens src)"
proof -
  from assms obtain eff where c: "collectClientProfilePassthroughHeaders src = Inr eff"
    and r: "r = Some (forwardHeaders eff d)"
    by (auto simp: ApplyRequestHeaders_def PreservesClientHeaders_def bindR_Inr forwardHeaders_def
        passSelected_def)
  note eff = collect_Inr [OF c] and lk = forwardHeaders_lookup [OF c]
  have "\<exists>v. v \<noteq> '''' \<and> map_of (forwardHeaders eff d) ''Originator'' = Some [v]"
    "\<exists>v. v \<noteq> '''' \<and> map_of (forwardHeaders eff d) ''User-Agent'' = Some [v]"
    using eff(4,5) lk [of "''Originator''" d] lk [of "''User-Agent''" d] required_names by auto
  moreover have "list_all (\<lambda>(key, _). hasPrefix (toLower key) ''x-codex-'' \<longrightarrow> passSelected (toLower key)) src"
    using eff(3) by (rule list.pred_mono_strong) (auto split: if_splits)
  moreover have "list_all (\<lambda>t. \<not> (\<exists>v. (t, v) \<in> selectedValues src)) (connectionTokens src)"
    by (rule not_hopByHop [OF c])
  ultimately show ?thesis using r lk by blast
qed

definition sampleHeaders :: header where
  "sampleHeaders = [(''ORIGINATOR'', [''codex'']), (''user-agent'', [''cli/1'']),
     (''Cookie'', [''secret'']), (''Connection'', [''keep-alive, close''])]"

abbreviation samplePassthrough :: ClientProfile where
  "samplePassthrough \<equiv>
     sampleProfile\<lparr>cp_Preset := ''codex-passthrough'', cp_Version := '''', cp_Headers := []\<rparr>"

lemma sampleHeaders_apply:
  "ApplyRequestHeaders (Some samplePassthrough) (Some [(''Accept'', [''*'']), (''X'', [''y''])])
     sampleHeaders
   = Inr (Some [(''X'', [''y'']), (''Originator'', [''codex'']), (''User-Agent'', [''cli/1''])])"
proof -
  have "collectSelected sampleHeaders [] 0 = Inr [(''originator'', ''codex''), (''user-agent'', ''cli/1'')]"
    by (simp add: sampleHeaders_def Let_def validateClientProfilePassthroughValue_def profile_eval)
  moreover have "connectionTokens sampleHeaders = [''keep-alive'', ''close'']"
    by (simp add: connectionTokens_def sampleHeaders_def str_eval)
  ultimately have "collectClientProfilePassthroughHeaders sampleHeaders
      = Inr [(''originator'', ''codex''), (''user-agent'', ''cli/1'')]"
    by (simp add: collectClientProfilePassthroughHeaders_def hopByHop_def)
  moreover have "validateShape samplePassthrough = Inr ()"
    by (simp add: validateShape_def sampleProfile_def)
  ultimately show ?thesis
    by (simp add: ApplyRequestHeaders_def PreservesClientHeaders_def passthroughName_def profile_eval)
qed

theorem ApplyRequestHeaders_passthrough_witness:
  "\<exists>h'. ApplyRequestHeaders (Some samplePassthrough)
         (Some [(''Accept'', [''*'']), (''X'', [''y''])]) sampleHeaders = Inr (Some h')
     \<and> map_of h' ''X'' = Some [''y''] \<and> map_of h' ''Cookie'' = None"
proof -
  have "cp_Preset samplePassthrough = ''codex-passthrough''" by simp
  note l = ApplyRequestHeaders_passthrough [OF this sampleHeaders_apply]
  have "\<not> passSelected (toLower ''X'')" "\<not> passSelected (toLower ''Cookie'')"
    by (simp_all add: passSelected_def profile_eval)
  with l sampleHeaders_apply show ?thesis by (auto dest!: spec [of _ "''Cookie''"])
qed

end
