(* ===== verification/Core_Types.thy ===== *)
theory Core_Types
  imports Client_Profile
begin

text \<open>
  The value types of the package \<open>internal/core\<close> (\<open>contracts.go\<close>, \<open>admin.go\<close>, \<open>coordination.go\<close>)
  that the modelled components exchange.  A struct is a record whose field names carry a
  prefix for the struct; a nil pointer is \<open>None\<close>.  Go maps that the code ranges over are
  association lists (the order of the list is the order of one iteration), the others are maps.
\<close>

type_synonym Operation = string

type_synonym Support = string

definition Supported :: Support where
  "Supported = ''supported''"

definition Unsupported :: Support where
  "Unsupported = ''unsupported''"

definition UnknownSupport :: Support where
  "UnknownSupport = ''unknown''"

record PriceSchedule =
  ps_Version :: string
  ps_InputPerMillion :: "int64 option"
  ps_OutputPerMillion :: "int64 option"
  ps_CachedInputPerMillion :: "int64 option"
  ps_CacheWriteInputPerMillion :: "int64 option"
  ps_CacheWrite5mPerMillion :: "int64 option"
  ps_CacheWrite1hPerMillion :: "int64 option"
  ps_MaximumUnitCost :: "int64 option"
  ps_UnitOperation :: Operation

record Connection =
  cn_TenantID :: string
  cn_ID :: string
  cn_Connector :: string
  cn_AccountID :: string
  cn_BaseURL :: string
  cn_Region :: string
  cn_Project :: string
  cn_Version :: int64
  cn_Dedicated :: bool
  cn_Settings :: "(string \<times> string) list"
  cn_ClientProfile :: "ClientProfile option"

record Model =
  md_ID :: string
  md_CatalogID :: string
  md_ConnectionID :: string
  md_Operations :: "Operation list"
  md_InputModalities :: "string list"
  md_OutputModalities :: "string list"
  md_Features :: "(string \<times> Support) list"
  md_ContextLimit :: "int64 option"
  md_OutputLimit :: "int64 option"
  md_Provenance :: string
  md_Version :: int64
  md_Price :: "PriceSchedule option"

record RouteTarget =
  rt_ConnectionID :: string
  rt_ModelID :: string
  rt_Priority :: int64
  rt_Weight :: int64
  rt_Region :: string

record RoutePolicy =
  rp_Residency :: "string list"
  rp_Fallback :: bool
  rp_AccountPoolID :: string
  rp_Affinity :: bool

record AccountPool =
  pl_Provider :: string
  pl_AccountIDs :: "string list"

record TenantPolicy =
  tp_AllowedOrigins :: "string list"
  tp_MaxBodyBytes :: int64
  tp_MaxEventBytes :: int64

record RuntimeSnapshot =
  sn_Revision :: int64
  sn_Connections :: "(string \<times> Connection) list"
  sn_Models :: "(string \<times> Model) list"
  sn_Aliases :: "(string \<times> RouteTarget list) list"
  sn_RoutePolicies :: "(string \<times> RoutePolicy) list"
  sn_AccountPools :: "(string \<times> AccountPool) list"
  sn_Policy :: TenantPolicy

record HealthScope =
  hs_TenantID :: string
  hs_Revision :: int64

record Principal =
  pr_TenantID :: string
  pr_SubjectID :: string
  pr_KeyID :: string
  pr_Role :: string
  pr_SessionID :: string
  pr_AuthSource :: string
  pr_KeyRevision :: int64
  pr_Permissions :: "string list"
  pr_Aliases :: "string list"
  pr_Connections :: "string list"
  pr_Operations :: "Operation list"
  pr_Portable :: bool
  pr_NativeAccount :: bool
  pr_Realtime :: bool

text \<open>Indexing a Go map of strings: an absent key reads as the empty string.\<close>

definition goIndex :: "('k \<times> string) list \<Rightarrow> 'k \<Rightarrow> string" where
  "goIndex m k = (case map_of m k of None \<Rightarrow> '''' | Some v \<Rightarrow> v)"

definition connDisabled :: "Connection \<Rightarrow> bool" where
  "connDisabled c = (goIndex (cn_Settings c) ''disabled'' = ''true'')"

definition HealthScope_Valid :: "HealthScope \<Rightarrow> bool" where
  "HealthScope_Valid s = (hs_TenantID s \<noteq> '''' \<and> hs_Revision s \<ge> 0)"

record Usage =
  us_Input :: "int64 option"
  us_Output :: "int64 option"
  us_Total :: "int64 option"
  us_CachedInput :: "int64 option"
  us_CacheWriteInput :: "int64 option"
  us_CacheWrite5mInput :: "int64 option"
  us_CacheWrite1hInput :: "int64 option"
  us_ReasoningOutput :: "int64 option"
  us_ToolInput :: "int64 option"
  us_Source :: string

record Allowance =
  al_ScopeKind :: string
  al_ScopeID :: string
  al_WindowID :: string
  al_Kind :: string
  al_Maximum :: int64
  al_Reserve :: int64

record AttemptPlan =
  ap_TenantID :: string
  ap_RequestID :: string
  ap_AttemptID :: string
  ap_KeyID :: string
  ap_ConnectionID :: string
  ap_AccountID :: string
  ap_ModelID :: string
  ap_PriceVersion :: string
  ap_KeyRevision :: int64
  ap_ConfigRevision :: int64
  ap_MaximumCost :: "int64 option"
  ap_Deadline :: time
  ap_Allowances :: "Allowance list"
  ap_Operation :: Operation
  ap_Alias :: string
  ap_InputBound :: "int64 option"
  ap_OutputBound :: "int64 option"
  ap_UnitCount :: "int64 option"

record AttemptPermit =
  pm_TenantID :: string
  pm_RequestID :: string
  pm_AttemptID :: string
  pm_ConfigRevision :: int64

record AttemptOutcome =
  ao_TenantID :: string
  ao_RequestID :: string
  ao_AttemptID :: string
  ao_State :: string
  ao_Cancellation :: string
  ao_Usage :: "Usage option"
  ao_ActualCost :: "int64 option"

end
