(* ===== verification/Policy.thy ===== *)
theory Policy
  imports Core_Types
begin

text \<open>
  \<open>internal/policy/policy.go\<close>: stateless validation of attempt plans and the cost arithmetic.
  Costs are USD nanodollars; the sums are \<open>big.Int\<close>, modelled by \<open>int\<close>, and the result is
  rejected when it does not fit an \<open>int64\<close>.
\<close>

section \<open>Definitions\<close>

definition ErrUnknownCost :: go_error where
  "ErrUnknownCost = Sentinel ''cost is unknown''"

definition CheckedAdd :: "int64 \<Rightarrow> int64 \<Rightarrow> int64 res" where
  "CheckedAdd a b =
     (if a < 0 \<or> b < 0 \<or> a > wrap64 (maxInt64 - b) then Inl (GoErr ''integer addition overflow'')
      else Inr (wrap64 (a + b)))"

definition ValidateAllowance :: "Allowance \<Rightarrow> unit res" where
  "ValidateAllowance a =
     (if al_ScopeKind a = '''' \<or> al_ScopeID a = '''' \<or> al_WindowID a = '''' \<or> al_Kind a = '''' then
        Inl (GoErr ''allowance scope, window and kind are required'')
      else if al_Maximum a < 0 \<or> al_Reserve a < 0 \<or> al_Reserve a > al_Maximum a then
        Inl (GoErr ''allowance requires 0 <= reserve <= maximum'')
      else Inr ())"

definition allowanceKey :: "Allowance \<Rightarrow> string \<times> string \<times> string \<times> string" where
  "allowanceKey a = (al_ScopeKind a, al_ScopeID a, al_WindowID a, al_Kind a)"

fun validateAllowances ::
  "(string \<times> string \<times> string \<times> string) set \<Rightarrow> Allowance list \<Rightarrow> unit res" where
  "validateAllowances seen [] = Inr ()"
| "validateAllowances seen (a # as) =
     (case ValidateAllowance a of
        Inl e \<Rightarrow> Inl e
      | Inr _ \<Rightarrow>
          (if allowanceKey a \<in> seen then Inl (GoErr ''duplicate allowance'')
           else validateAllowances (insert (allowanceKey a) seen) as))"

definition ValidateAttempt :: "AttemptPlan \<Rightarrow> unit res" where
  "ValidateAttempt p =
     (if ap_TenantID p = '''' \<or> ap_RequestID p = '''' \<or> ap_AttemptID p = '''' \<or> ap_KeyID p = ''''
         \<or> ap_ConnectionID p = '''' then Inl (GoErr ''attempt identity is incomplete'')
      else if ap_KeyRevision p < 0 \<or> ap_ConfigRevision p < 0 then Inl (GoErr ''negative revision'')
      else if (case ap_MaximumCost p of None \<Rightarrow> False | Some c \<Rightarrow> c < 0) then
        Inl (GoErr ''negative maximum cost'')
      else if isZeroTime (ap_Deadline p) then Inl (GoErr ''attempt deadline required'')
      else validateAllowances {} (ap_Allowances p))"

definition ValidateTokens ::
  "int64 \<Rightarrow> int64 \<Rightarrow> int64 option \<Rightarrow> int64 option \<Rightarrow> unit res" where
  "ValidateTokens input output contextLimit outputLimit =
     (if input < 0 \<or> output < 0 then Inl (GoErr ''negative token count'')
      else if (case contextLimit of None \<Rightarrow> False
               | Some c \<Rightarrow> c < 0 \<or> input > c \<or> output > wrap64 (c - input)) then
        Inl (GoErr ''context token limit exceeded'')
      else if (case outputLimit of None \<Rightarrow> False | Some l \<Rightarrow> l < 0 \<or> output > l) then
        Inl (GoErr ''output token limit exceeded'')
      else Inr ())"

record costTerm =
  ct_units :: int64
  ct_rate :: int64

fun sumTerms :: "costTerm list \<Rightarrow> int \<Rightarrow> int res" where
  "sumTerms [] tot = Inr tot"
| "sumTerms (t # ts) tot =
     (if ct_units t < 0 \<or> ct_rate t < 0 then Inl (GoErr ''invalid cost operands'')
      else if ct_units t = 0 \<or> ct_rate t = 0 then sumTerms ts tot
      else sumTerms ts (tot + ct_units t * ct_rate t))"

definition estimateTerms :: "costTerm list \<Rightarrow> int64 \<Rightarrow> int64 res" where
  "estimateTerms terms unit =
     (if unit \<le> 0 then Inl (GoErr ''invalid cost unit'')
      else case sumTerms terms 0 of
        Inl e \<Rightarrow> Inl e
      | Inr tot \<Rightarrow>
          (let q = tquo (tot + wrap64 (unit - 1)) unit
           in if i64 q then Inr q else Inl (GoErr ''cost exceeds int64'')))"

abbreviation priced :: "int64 \<Rightarrow> int64 \<Rightarrow> costTerm" where
  "priced u r \<equiv> \<lparr>ct_units = u, ct_rate = r\<rparr>"

definition EstimateCost :: "int64 \<Rightarrow> int64 \<Rightarrow> int64 \<Rightarrow> int64 \<Rightarrow> int64 \<Rightarrow> int64 res" where
  "EstimateCost input output inputRate outputRate unit =
     (if input < 0 \<or> output < 0 \<or> inputRate < 0 \<or> outputRate < 0 \<or> unit \<le> 0 then
        Inl (GoErr ''invalid cost operands'')
      else estimateTerms [priced input inputRate, priced output outputRate] unit)"

text \<open>\<open>priceRate\<close> returns the rate and whether it is present; an absent rate reads 0.\<close>

definition priceRate :: "int64 option \<Rightarrow> (int64 \<times> bool) res" where
  "priceRate price =
     (case price of
        None \<Rightarrow> Inr (0, False)
      | Some r \<Rightarrow> if r < 0 then Inl (GoErr ''negative price rate'') else Inr (r, True))"

definition inputRates :: "PriceSchedule \<Rightarrow> int64 option list" where
  "inputRates p =
     [ps_InputPerMillion p, ps_CachedInputPerMillion p, ps_CacheWriteInputPerMillion p,
      ps_CacheWrite5mPerMillion p, ps_CacheWrite1hPerMillion p]"

fun highestRate :: "int64 option list \<Rightarrow> int64 \<times> bool \<Rightarrow> (int64 \<times> bool) res" where
  "highestRate [] acc = Inr acc"
| "highestRate (c # cs) (inputRate, haveInputRate) =
     (case priceRate c of
        Inl e \<Rightarrow> Inl e
      | Inr (rate, present) \<Rightarrow>
          (if present \<and> (\<not> haveInputRate \<or> rate > inputRate) then highestRate cs (rate, True)
           else highestRate cs (inputRate, haveInputRate)))"

definition EstimateBound :: "int64 \<Rightarrow> int64 \<Rightarrow> PriceSchedule option \<Rightarrow> int64 res" where
  "EstimateBound input output price =
     (if input < 0 \<or> output < 0 then Inl (GoErr ''invalid cost operands'')
      else case price of
        None \<Rightarrow> Inl ErrUnknownCost
      | Some p \<Rightarrow>
          (case highestRate (inputRates p) (0, False) of
             Inl e \<Rightarrow> Inl e
           | Inr (inputRate, haveInputRate) \<Rightarrow>
               (if input > 0 \<and> \<not> haveInputRate then Inl ErrUnknownCost
                else case priceRate (ps_OutputPerMillion p) of
                  Inl e \<Rightarrow> Inl e
                | Inr (outputRate, haveOutputRate) \<Rightarrow>
                    (if output > 0 \<and> \<not> haveOutputRate then Inl ErrUnknownCost
                     else estimateTerms [priced input inputRate, priced output outputRate] 1000000))))"

text \<open>
  \<open>EstimateUsageCost\<close> splits the inclusive input count into ordinary, cache-read and
  cache-write tokens and prices each category.  \<open>usageTerms\<close> is the part of the function that
  builds the slice \<open>terms\<close>; the closure \<open>appendWrite\<close> of the code is the definition of that
  name, with the values it captures as arguments.
\<close>

definition orZero :: "int64 option \<Rightarrow> int64" where
  "orZero v = (case v of None \<Rightarrow> 0 | Some x \<Rightarrow> x)"

definition usageCounters :: "Usage \<Rightarrow> int64 option list" where
  "usageCounters u =
     [us_Input u, us_Output u, us_CachedInput u, us_CacheWriteInput u, us_CacheWrite5mInput u,
      us_CacheWrite1hInput u, us_ReasoningOutput u, us_ToolInput u]"

definition anyNegative :: "int64 option list \<Rightarrow> bool" where
  "anyNegative vs = list_ex (\<lambda>v. case v of None \<Rightarrow> False | Some x \<Rightarrow> x < 0) vs"

definition pricedTerm :: "int64 \<Rightarrow> int64 option \<Rightarrow> costTerm list \<Rightarrow> costTerm list res" where
  "pricedTerm units price terms =
     (if units > 0 then
        (case priceRate price of
           Inl e \<Rightarrow> Inl e
         | Inr (rate, present) \<Rightarrow>
             (if \<not> present then Inl ErrUnknownCost else Inr (terms @ [priced units rate])))
      else Inr terms)"

definition appendWrite ::
  "int64 \<Rightarrow> bool \<Rightarrow> int64 \<Rightarrow> int64 option \<Rightarrow> costTerm list \<Rightarrow> costTerm list res" where
  "appendWrite aggregateWriteRate aggregateWrite units rate terms =
     (if units = 0 then Inr terms
      else case priceRate rate of
        Inl e \<Rightarrow> Inl e
      | Inr (selected, present) \<Rightarrow>
          (if \<not> present then
             (if \<not> aggregateWrite then Inl ErrUnknownCost
              else Inr (terms @ [priced units aggregateWriteRate]))
           else Inr (terms @ [priced units selected])))"

definition usageTerms ::
  "PriceSchedule \<Rightarrow> int64 \<Rightarrow> int64 \<Rightarrow> int64 \<Rightarrow> int64 \<Rightarrow> int64 \<Rightarrow> int64 \<Rightarrow> costTerm list res" where
  "usageTerms p ordinary cached write5m write1h remainingWrites output =
     bindR (pricedTerm ordinary (ps_InputPerMillion p) []) (\<lambda>terms.
     bindR (pricedTerm cached (ps_CachedInputPerMillion p) terms) (\<lambda>terms.
     bindR (priceRate (ps_CacheWriteInputPerMillion p)) (\<lambda>(aggregateWriteRate, aggregateWrite).
     bindR (appendWrite aggregateWriteRate aggregateWrite write5m (ps_CacheWrite5mPerMillion p) terms)
       (\<lambda>terms.
     bindR (appendWrite aggregateWriteRate aggregateWrite write1h (ps_CacheWrite1hPerMillion p) terms)
       (\<lambda>terms.
     bindR (if remainingWrites > 0 then
              (if \<not> aggregateWrite then Inl ErrUnknownCost
               else Inr (terms @ [priced remainingWrites aggregateWriteRate]))
            else Inr terms) (\<lambda>terms.
     pricedTerm output (ps_OutputPerMillion p) terms))))))"

text \<open>The gates that keep a missing counter unknown instead of reading it as zero.\<close>

definition countersKnown :: "Usage \<Rightarrow> PriceSchedule \<Rightarrow> int64 \<Rightarrow> bool" where
  "countersKnown u p input =
     (let cached = orZero (us_CachedInput u);
          writes = orZero (us_CacheWriteInput u);
          write5m = orZero (us_CacheWrite5mInput u);
          write1h = orZero (us_CacheWrite1hInput u);
          cachedKnown = (us_CachedInput u \<noteq> None \<or> us_CacheWriteInput u \<noteq> None \<and> writes = input);
          writesKnown = (us_CacheWriteInput u \<noteq> None \<or> us_CachedInput u \<noteq> None \<and> cached = input);
          writeRateConfigured =
            (ps_CacheWriteInputPerMillion p \<noteq> None \<or> ps_CacheWrite5mPerMillion p \<noteq> None
             \<or> ps_CacheWrite1hPerMillion p \<noteq> None);
          write5mKnown =
            (us_CacheWrite5mInput u \<noteq> None \<or> us_CacheWrite1hInput u \<noteq> None \<and> write1h = writes);
          write1hKnown =
            (us_CacheWrite1hInput u \<noteq> None \<or> us_CacheWrite5mInput u \<noteq> None \<and> write5m = writes)
      in \<not> (input > 0 \<and> ps_CachedInputPerMillion p \<noteq> None \<and> \<not> cachedKnown)
         \<and> \<not> (input > 0 \<and> writeRateConfigured \<and> \<not> writesKnown)
         \<and> \<not> (writes > 0 \<and> \<not> write5mKnown \<and> ps_CacheWrite5mPerMillion p \<noteq> None
              \<and> (ps_CacheWriteInputPerMillion p = None
                 \<or> ps_CacheWrite5mPerMillion p \<noteq> ps_CacheWriteInputPerMillion p))
         \<and> \<not> (writes > 0 \<and> \<not> write1hKnown \<and> ps_CacheWrite1hPerMillion p \<noteq> None
              \<and> (ps_CacheWriteInputPerMillion p = None
                 \<or> ps_CacheWrite1hPerMillion p \<noteq> ps_CacheWriteInputPerMillion p)))"

definition EstimateUsageCost :: "Usage option \<Rightarrow> PriceSchedule option \<Rightarrow> int64 res" where
  "EstimateUsageCost usage price =
     (case usage of
        None \<Rightarrow> Inl ErrUnknownCost
      | Some u \<Rightarrow>
     (case (us_Input u, us_Output u) of
        (Some input, Some output) \<Rightarrow>
     (if anyNegative (usageCounters u) then Inl (GoErr ''negative usage'')
      else
        let cached = orZero (us_CachedInput u);
            writes = orZero (us_CacheWriteInput u);
            write5m = orZero (us_CacheWrite5mInput u);
            write1h = orZero (us_CacheWrite1hInput u)
        in
        if writes = 0 \<and> (write5m \<noteq> 0 \<or> write1h \<noteq> 0) then Inl ErrUnknownCost
        else if write5m > writes \<or> write1h > writes then
          Inl (GoErr ''cache write detail exceeds aggregate'')
        else case CheckedAdd write5m write1h of
          Inl _ \<Rightarrow> Inl (GoErr ''cache write detail is not representable'')
        | Inr writeDetails \<Rightarrow>
        (if writeDetails > writes then Inl (GoErr ''cache write detail is not representable'')
         else case CheckedAdd cached writes of
          Inl _ \<Rightarrow> Inl (GoErr ''cache input detail exceeds aggregate'')
        | Inr inputDetails \<Rightarrow>
        (if inputDetails > input then Inl (GoErr ''cache input detail exceeds aggregate'')
         else case price of
           None \<Rightarrow> if input = 0 \<and> output = 0 then Inr 0 else Inl ErrUnknownCost
         | Some p \<Rightarrow>
             (if \<not> countersKnown u p input then Inl ErrUnknownCost
              else
                bindR (usageTerms p (wrap64 (input - inputDetails)) cached write5m write1h
                         (wrap64 (writes - writeDetails)) output)
                  (\<lambda>terms. estimateTerms terms 1000000)))))
      | _ \<Rightarrow> Inl ErrUnknownCost))"

section \<open>Specification vocabulary\<close>

text \<open>
  \<open>termTotal\<close> is the exact numerator of a cost, \<open>ceilDiv\<close> the rounding that the code intends,
  \<open>usageTotal\<close> the price of a usage report read category by category, and \<open>completes u u'\<close> says
  that \<open>u'\<close> reports every counter \<open>u\<close> reports, with the same value, and possibly more.
\<close>

definition termTotal :: "costTerm list \<Rightarrow> int" where
  "termTotal ts = (\<Sum>t\<leftarrow>ts. ct_units t * ct_rate t)"

definition termsValid :: "costTerm list \<Rightarrow> bool" where
  "termsValid ts = list_all (\<lambda>t. 0 \<le> ct_units t \<and> 0 \<le> ct_rate t) ts"

definition ceilDiv :: "int \<Rightarrow> int \<Rightarrow> int" where
  "ceilDiv a b = (a + b - 1) div b"

definition i64opt :: "int64 option \<Rightarrow> bool" where
  "i64opt v = (case v of None \<Rightarrow> True | Some x \<Rightarrow> i64 x)"

definition usageTyped :: "Usage \<Rightarrow> bool" where
  "usageTyped u = list_all i64opt (usageCounters u)"

definition writeRate :: "PriceSchedule \<Rightarrow> int64 option \<Rightarrow> int64" where
  "writeRate p r = (case r of Some x \<Rightarrow> x | None \<Rightarrow> orZero (ps_CacheWriteInputPerMillion p))"

definition categoryTotal ::
  "PriceSchedule \<Rightarrow> int64 \<Rightarrow> int64 \<Rightarrow> int64 \<Rightarrow> int64 \<Rightarrow> int64 \<Rightarrow> int64 \<Rightarrow> int" where
  "categoryTotal p ordinary cached write5m write1h remainingWrites output =
     ordinary * orZero (ps_InputPerMillion p)
     + cached * orZero (ps_CachedInputPerMillion p)
     + write5m * writeRate p (ps_CacheWrite5mPerMillion p)
     + write1h * writeRate p (ps_CacheWrite1hPerMillion p)
     + remainingWrites * orZero (ps_CacheWriteInputPerMillion p)
     + output * orZero (ps_OutputPerMillion p)"

definition usageTotal :: "Usage \<Rightarrow> PriceSchedule \<Rightarrow> int" where
  "usageTotal u p =
     categoryTotal p
       (orZero (us_Input u) - orZero (us_CachedInput u) - orZero (us_CacheWriteInput u))
       (orZero (us_CachedInput u)) (orZero (us_CacheWrite5mInput u))
       (orZero (us_CacheWrite1hInput u))
       (orZero (us_CacheWriteInput u) - orZero (us_CacheWrite5mInput u)
         - orZero (us_CacheWrite1hInput u))
       (orZero (us_Output u))"

definition completes :: "Usage \<Rightarrow> Usage \<Rightarrow> bool" where
  "completes u u' = list_all2 (\<lambda>a b. a = None \<or> a = b) (usageCounters u) (usageCounters u')"

text \<open>What a successful \<open>EstimateUsageCost\<close> has checked, with every intermediate value exact.\<close>

definition usageSplit :: "Usage \<Rightarrow> PriceSchedule \<Rightarrow> int64 \<Rightarrow> int64 \<Rightarrow> bool" where
  "usageSplit u p input output \<longleftrightarrow>
     us_Input u = Some input \<and> us_Output u = Some output \<and> 0 \<le> output
     \<and> 0 \<le> orZero (us_CachedInput u) \<and> 0 \<le> orZero (us_CacheWriteInput u)
     \<and> 0 \<le> orZero (us_CacheWrite5mInput u) \<and> 0 \<le> orZero (us_CacheWrite1hInput u)
     \<and> orZero (us_CacheWrite5mInput u) + orZero (us_CacheWrite1hInput u)
         \<le> orZero (us_CacheWriteInput u)
     \<and> orZero (us_CachedInput u) + orZero (us_CacheWriteInput u) \<le> input
     \<and> countersKnown u p input"

section \<open>Lemmas\<close>

subsection \<open>Checked sums and the rounding division\<close>

lemma CheckedAdd_Inr:
  assumes "i64 a" "i64 b"
  shows "CheckedAdd a b = Inr c \<longleftrightarrow> 0 \<le> a \<and> 0 \<le> b \<and> a + b \<le> maxInt64 \<and> c = a + b"
proof (cases "0 \<le> a \<and> 0 \<le> b")
  case True
  with assms have "wrap64 (maxInt64 - b) = maxInt64 - b"
    by (intro wrap64_id) (simp add: i64_def maxInt64_def)
  then show ?thesis
    using True wrap64_nonneg [of "a + b"] by (auto simp: CheckedAdd_def)
qed (auto simp: CheckedAdd_def)

lemma sumTerms_Cons:
  "sumTerms (t # ts) tot =
     (if ct_units t < 0 \<or> ct_rate t < 0 then Inl (GoErr ''invalid cost operands'')
      else sumTerms ts (tot + ct_units t * ct_rate t))"
  by (cases "ct_units t = 0 \<or> ct_rate t = 0") auto

lemma sumTerms_Inr:
  "sumTerms ts t0 = Inr r \<longleftrightarrow> termsValid ts \<and> r = t0 + termTotal ts"
proof (induction ts arbitrary: t0)
  case Nil
  then show ?case by (auto simp: termsValid_def termTotal_def)
next
  case (Cons t ts)
  then show ?case
    by (simp add: sumTerms_Cons termsValid_def termTotal_def add.assoc not_less
        del: sumTerms.simps)
qed

lemma termTotal_nonneg: "termsValid ts \<Longrightarrow> 0 \<le> termTotal ts"
  unfolding termsValid_def termTotal_def by (induction ts) auto

lemma estimateTerms_Inr:
  assumes "0 < unit" "i64 unit"
  shows "estimateTerms ts unit = Inr c \<longleftrightarrow>
    termsValid ts \<and> i64 c \<and> c = ceilDiv (termTotal ts) unit"
proof -
  have w: "wrap64 (unit - 1) = unit - 1"
    using assms by (intro wrap64_id) (simp add: i64_def)
  have "sumTerms ts 0 = Inr (termTotal ts)" if "termsValid ts"
    using that by (simp add: sumTerms_Inr)
  moreover have "\<exists>e. sumTerms ts 0 = Inl e" if "\<not> termsValid ts"
    using that sumTerms_Inr [of ts 0] by (cases "sumTerms ts 0") auto
  moreover have "tquo (termTotal ts + (unit - 1)) unit = ceilDiv (termTotal ts) unit"
    if "termsValid ts"
    using tquo_nonneg [of "termTotal ts + (unit - 1)" unit] termTotal_nonneg [OF that] assms
    by (simp add: ceilDiv_def algebra_simps)
  ultimately show ?thesis
    using assms w by (cases "termsValid ts") (auto simp: estimateTerms_def Let_def)
qed

lemma ceilDiv_iff:
  assumes "0 < b"
  shows "q = ceilDiv a b \<longleftrightarrow> (q - 1) * b < a \<and> a \<le> q * b"
proof -
  have 1: "a + b - 1 = ceilDiv a b * b + (a + b - 1) mod b"
    by (simp add: ceilDiv_def)
  have 2: "0 \<le> (a + b - 1) mod b" "(a + b - 1) mod b < b"
    using assms by simp_all
  have upper: "a \<le> ceilDiv a b * b" and lower: "(ceilDiv a b - 1) * b < a"
    using 1 2 by (simp_all add: algebra_simps)
  have "q = ceilDiv a b" if "(q - 1) * b < a" "a \<le> q * b"
  proof -
    from that upper lower have "(q - 1) * b < ceilDiv a b * b" "(ceilDiv a b - 1) * b < q * b"
      by linarith+
    then have "q - 1 < ceilDiv a b" "ceilDiv a b - 1 < q"
      using assms by (simp_all add: mult_less_cancel_right)
    then show ?thesis by linarith
  qed
  then show ?thesis using upper lower by blast
qed

lemma ceilDiv_mono: "0 < b \<Longrightarrow> a \<le> a' \<Longrightarrow> ceilDiv a b \<le> ceilDiv a' b"
  by (simp add: ceilDiv_def zdiv_mono1)

lemma termsValid_append [simp]:
  "termsValid (ts @ us) \<longleftrightarrow> termsValid ts \<and> termsValid us"
  "termsValid [priced u r] \<longleftrightarrow> 0 \<le> u \<and> 0 \<le> r" "termsValid []"
  by (simp_all add: termsValid_def)

lemma termTotal_append [simp]:
  "termTotal (ts @ us) = termTotal ts + termTotal us"
  "termTotal [priced u r] = u * r" "termTotal [] = 0"
  "termTotal (t # ts) = ct_units t * ct_rate t + termTotal ts"
  by (simp_all add: termTotal_def)


subsection \<open>The highest rate and the category terms\<close>

lemma priceRate_Inr:
  "priceRate r = Inr (x, b) \<longleftrightarrow> 0 \<le> orZero r \<and> x = orZero r \<and> b = (r \<noteq> None)"
  by (cases r) (auto simp: priceRate_def orZero_def)

text \<open>Started with no rate, the loop is a maximum over the configured rates.\<close>

lemma highestRate_step:
  assumes "highestRate (c # cs) (r, h) = Inr (r', h')" "0 \<le> r" "h \<or> r = 0"
  shows "\<exists>h1. highestRate cs (max r (orZero c), h1) = Inr (r', h') \<and> 0 \<le> orZero c
    \<and> (h1 \<or> max r (orZero c) = 0)"
proof -
  from assms(1) obtain x b where pr: "priceRate c = Inr (x, b)"
    by (auto split: sum.splits)
  then have x: "0 \<le> orZero c" "x = orZero c" "b = (c \<noteq> None)"
    by (simp_all add: priceRate_Inr)
  show ?thesis
  proof (cases "b \<and> (\<not> h \<or> x > r)")
    case True
    with assms pr x have "max r (orZero c) = x" by (auto simp: max_def)
    with True assms(1) pr x show ?thesis by (intro exI [of _ True]) simp
  next
    case False
    with assms x have "max r (orZero c) = r" by (auto simp: max_def orZero_def)
    with False assms pr x show ?thesis by (intro exI [of _ h]) auto
  qed
qed

lemma highestRate_le:
  assumes "highestRate cs (r, h) = Inr (r', h')" "0 \<le> r" "h \<or> r = 0"
  shows "r \<le> r' \<and> (\<forall>c\<in>set cs. orZero c \<le> r')"
  using assms
proof (induction cs arbitrary: r h)
  case (Cons c cs)
  from highestRate_step [OF Cons.prems] obtain h1
    where "highestRate cs (max r (orZero c), h1) = Inr (r', h')" "0 \<le> orZero c"
      "h1 \<or> max r (orZero c) = 0" by blast
  with Cons.IH [of "max r (orZero c)" h1] Cons.prems(2) show ?case by auto
qed simp

lemma EstimateBound_Inr:
  assumes "EstimateBound i out (Some p) = Inr b"
  shows "\<exists>R. 0 \<le> i \<and> 0 \<le> out \<and> 0 \<le> R \<and> (\<forall>c\<in>set (inputRates p). orZero c \<le> R)
    \<and> 0 \<le> orZero (ps_OutputPerMillion p)
    \<and> b = ceilDiv (i * R + out * orZero (ps_OutputPerMillion p)) 1000000"
proof -
  from assms obtain R h out_rate h' where
    hr: "highestRate (inputRates p) (0, False) = Inr (R, h)"
    and pr: "priceRate (ps_OutputPerMillion p) = Inr (out_rate, h')"
    and nn: "0 \<le> i" "0 \<le> out"
    and est: "estimateTerms [priced i R, priced out out_rate] 1000000 = Inr b"
    by (auto simp: EstimateBound_def split: sum.splits if_splits)
  from highestRate_le [OF hr] have "0 \<le> R" "\<forall>c\<in>set (inputRates p). orZero c \<le> R" by auto
  moreover have "i64 1000000" by (simp add: i64_def)
  with est have "b = ceilDiv (i * R + out * out_rate) 1000000"
    by (simp add: estimateTerms_Inr)
  ultimately show ?thesis using nn pr by (auto simp: priceRate_Inr)
qed

lemma pricedTerm_Inr:
  assumes "pricedTerm n r ts = Inr ts'" "0 \<le> n"
  shows "termTotal ts' = termTotal ts + n * orZero r \<and> (termsValid ts \<longrightarrow> termsValid ts')
    \<and> (0 < n \<longrightarrow> r \<noteq> None)
    \<and> (\<Sum>t\<leftarrow>ts'. ct_units t) = (\<Sum>t\<leftarrow>ts. ct_units t) + n"
  using assms by (auto simp: pricedTerm_def priceRate_Inr split: sum.splits if_splits prod.splits)

lemma appendWrite_Inr:
  assumes "appendWrite (orZero a) (a \<noteq> None) n r ts = Inr ts'" "0 \<le> n" "0 \<le> orZero a"
    "a = ps_CacheWriteInputPerMillion p"
  shows "termTotal ts' = termTotal ts + n * writeRate p r \<and> (termsValid ts \<longrightarrow> termsValid ts')
    \<and> (0 < n \<longrightarrow> r \<noteq> None \<or> a \<noteq> None)
    \<and> (\<Sum>t\<leftarrow>ts'. ct_units t) = (\<Sum>t\<leftarrow>ts. ct_units t) + n"
  using assms
  by (cases r)
    (auto simp: appendWrite_def priceRate_Inr writeRate_def priceRate_def orZero_def
      split: sum.splits if_splits prod.splits)

lemma usageTerms_Inr:
  assumes "usageTerms p ordinary cached w5 w1 rest out = Inr ts"
    and "0 \<le> ordinary" "0 \<le> cached" "0 \<le> w5" "0 \<le> w1" "0 \<le> rest" "0 \<le> out"
  shows "termTotal ts = categoryTotal p ordinary cached w5 w1 rest out"
    and "termsValid ts"
    and "(\<Sum>t\<leftarrow>ts. ct_units t) = ordinary + cached + w5 + w1 + rest + out"
    and "0 < cached \<Longrightarrow> ps_CachedInputPerMillion p \<noteq> None"
    and "0 < w5 \<Longrightarrow> ps_CacheWrite5mPerMillion p \<noteq> None \<or> ps_CacheWriteInputPerMillion p \<noteq> None"
    and "0 < w1 \<Longrightarrow> ps_CacheWrite1hPerMillion p \<noteq> None \<or> ps_CacheWriteInputPerMillion p \<noteq> None"
    and "0 < rest \<Longrightarrow> ps_CacheWriteInputPerMillion p \<noteq> None"
proof -
  let ?a = "ps_CacheWriteInputPerMillion p"
  from assms(1) obtain t1 t2 t3 t4 t5 x b where
    1: "pricedTerm ordinary (ps_InputPerMillion p) [] = Inr t1"
    and 2: "pricedTerm cached (ps_CachedInputPerMillion p) t1 = Inr t2"
    and a: "priceRate ?a = Inr (x, b)"
    and 3: "appendWrite x b w5 (ps_CacheWrite5mPerMillion p) t2 = Inr t3"
    and 4: "appendWrite x b w1 (ps_CacheWrite1hPerMillion p) t3 = Inr t4"
    and 5: "(if rest > 0 then if \<not> b then Inl ErrUnknownCost else Inr (t4 @ [priced rest x])
             else Inr t4) = Inr t5"
    and 6: "pricedTerm out (ps_OutputPerMillion p) t5 = Inr ts"
    by (auto simp: usageTerms_def bindR_Inr simp del: not_gr_zero split: prod.splits)
  from a have a': "0 \<le> orZero ?a" "x = orZero ?a" "b = (?a \<noteq> None)"
    by (simp_all add: priceRate_Inr)
  have f5: "termTotal t5 = termTotal t4 + rest * orZero ?a" "termsValid t4 \<longrightarrow> termsValid t5"
    "0 < rest \<longrightarrow> ?a \<noteq> None" "(\<Sum>t\<leftarrow>t5. ct_units t) = (\<Sum>t\<leftarrow>t4. ct_units t) + rest"
    using 5 a' assms(6) by (auto split: if_splits)
  note steps = pricedTerm_Inr [OF 1 assms(2)] pricedTerm_Inr [OF 2 assms(3)]
    appendWrite_Inr [OF 3 [unfolded a'] assms(4) a'(1) refl]
    appendWrite_Inr [OF 4 [unfolded a'] assms(5) a'(1) refl] f5 pricedTerm_Inr [OF 6 assms(7)]
  show "termTotal ts = categoryTotal p ordinary cached w5 w1 rest out"
    using steps by (simp add: categoryTotal_def)
  show "termsValid ts" using steps by simp
  show "(\<Sum>t\<leftarrow>ts. ct_units t) = ordinary + cached + w5 + w1 + rest + out"
    using steps by simp
  show "0 < cached \<Longrightarrow> ps_CachedInputPerMillion p \<noteq> None"
    and "0 < w5 \<Longrightarrow> ps_CacheWrite5mPerMillion p \<noteq> None \<or> ?a \<noteq> None"
    and "0 < w1 \<Longrightarrow> ps_CacheWrite1hPerMillion p \<noteq> None \<or> ?a \<noteq> None"
    and "0 < rest \<Longrightarrow> ?a \<noteq> None"
    using steps by simp_all
qed

subsection \<open>Successful pricing of a usage report\<close>

lemma orZero_nonneg: "\<not> anyNegative vs \<Longrightarrow> v \<in> set vs \<Longrightarrow> 0 \<le> orZero v"
  by (auto simp: anyNegative_def orZero_def list_ex_iff split: option.splits)

lemma orZero_i64: "list_all i64opt vs \<Longrightarrow> v \<in> set vs \<Longrightarrow> i64 (orZero v)"
  by (auto simp: i64opt_def orZero_def list_all_iff split: option.splits)

lemma EstimateUsageCost_Inr:
  assumes "EstimateUsageCost (Some u) (Some p) = Inr c" and typed: "usageTyped u"
  obtains input "output" ts where
    "usageSplit u p input output"
    "usageTerms p (input - orZero (us_CachedInput u) - orZero (us_CacheWriteInput u))
       (orZero (us_CachedInput u)) (orZero (us_CacheWrite5mInput u))
       (orZero (us_CacheWrite1hInput u))
       (orZero (us_CacheWriteInput u) - orZero (us_CacheWrite5mInput u)
         - orZero (us_CacheWrite1hInput u)) output = Inr ts"
    "estimateTerms ts 1000000 = Inr c"
proof -
  let ?c = "orZero (us_CachedInput u)" and ?w = "orZero (us_CacheWriteInput u)"
  let ?w5 = "orZero (us_CacheWrite5mInput u)" and ?w1 = "orZero (us_CacheWrite1hInput u)"
  from assms(1) obtain input "output" wd inputDetails ts where
    io: "us_Input u = Some input" "us_Output u = Some output"
    and neg: "\<not> anyNegative (usageCounters u)"
    and wd: "CheckedAdd ?w5 ?w1 = Inr wd" "wd \<le> ?w"
    and inputDetails: "CheckedAdd ?c ?w = Inr inputDetails" "inputDetails \<le> input"
    and known: "countersKnown u p input"
    and ts: "usageTerms p (wrap64 (input - inputDetails)) ?c ?w5 ?w1 (wrap64 (?w - wd)) output = Inr ts"
    and est: "estimateTerms ts 1000000 = Inr c"
    by (auto simp: EstimateUsageCost_def Let_def bindR_Inr not_less
        split: option.splits sum.splits if_splits)
  have nn: "0 \<le> orZero v" "i64 (orZero v)" if "v \<in> set (usageCounters u)" for v
    using orZero_nonneg [OF neg that] orZero_i64 [OF typed [unfolded usageTyped_def] that] by auto
  have vals: "0 \<le> ?c" "0 \<le> ?w" "0 \<le> ?w5" "0 \<le> ?w1" "i64 ?c" "i64 ?w" "i64 ?w5" "i64 ?w1"
    using nn by (simp_all add: usageCounters_def)
  have ion: "0 \<le> input" "i64 input" "0 \<le> output"
    using nn [of "us_Input u"] nn [of "us_Output u"] io by (simp_all add: usageCounters_def orZero_def)
  have sums: "wd = ?w5 + ?w1" "inputDetails = ?c + ?w"
    using wd inputDetails vals by (simp_all add: CheckedAdd_Inr)
  have "wrap64 (input - inputDetails) = input - ?c - ?w" "wrap64 (?w - wd) = ?w - ?w5 - ?w1"
    using sums wd inputDetails vals ion by (simp_all add: wrap64_id i64_def)
  with ts est show thesis
    using that [of input "output" ts] io known sums wd inputDetails vals ion
    by (simp add: usageSplit_def)
qed

lemma EstimateUsageCost_total:
  assumes "EstimateUsageCost (Some u) (Some p) = Inr c" "usageTyped u"
  shows "c = ceilDiv (usageTotal u p) 1000000"
proof -
  from assms obtain input "output" ts where split: "usageSplit u p input output"
    and ts: "usageTerms p (input - orZero (us_CachedInput u) - orZero (us_CacheWriteInput u))
       (orZero (us_CachedInput u)) (orZero (us_CacheWrite5mInput u))
       (orZero (us_CacheWrite1hInput u))
       (orZero (us_CacheWriteInput u) - orZero (us_CacheWrite5mInput u)
         - orZero (us_CacheWrite1hInput u)) output = Inr ts"
    and est: "estimateTerms ts 1000000 = Inr c" by (rule EstimateUsageCost_Inr)
  have "termTotal ts = usageTotal u p"
    using usageTerms_Inr(1) [OF ts] split
    by (simp add: usageSplit_def usageTotal_def orZero_def [of "Some _"])
  with est show ?thesis by (simp add: estimateTerms_Inr i64_def)
qed

lemma EstimateUsageCost_rates:
  assumes "EstimateUsageCost (Some u) (Some p) = Inr c" "usageTyped u"
  shows "0 < orZero (us_CachedInput u) \<Longrightarrow> ps_CachedInputPerMillion p \<noteq> None"
    and "0 < orZero (us_CacheWriteInput u) \<Longrightarrow>
      ps_CacheWriteInputPerMillion p \<noteq> None \<or> ps_CacheWrite5mPerMillion p \<noteq> None
      \<or> ps_CacheWrite1hPerMillion p \<noteq> None"
    and "\<exists>input output. usageSplit u p input output"
proof -
  from assms obtain input "output" ts where split: "usageSplit u p input output"
    and ts: "usageTerms p (input - orZero (us_CachedInput u) - orZero (us_CacheWriteInput u))
       (orZero (us_CachedInput u)) (orZero (us_CacheWrite5mInput u))
       (orZero (us_CacheWrite1hInput u))
       (orZero (us_CacheWriteInput u) - orZero (us_CacheWrite5mInput u)
         - orZero (us_CacheWrite1hInput u)) output = Inr ts"
    by (rule EstimateUsageCost_Inr)
  note r = usageTerms_Inr [OF ts]
  show "0 < orZero (us_CachedInput u) \<Longrightarrow> ps_CachedInputPerMillion p \<noteq> None"
    using r(4) split by (simp add: usageSplit_def)
  show "0 < orZero (us_CacheWriteInput u) \<Longrightarrow>
      ps_CacheWriteInputPerMillion p \<noteq> None \<or> ps_CacheWrite5mPerMillion p \<noteq> None
      \<or> ps_CacheWrite1hPerMillion p \<noteq> None"
    using r(5,6,7) split unfolding usageSplit_def by linarith
  show "\<exists>input output. usageSplit u p input output" using split by blast
qed

lemma usageTotal_expand:
  "usageTotal u p =
     orZero (us_Input u) * orZero (ps_InputPerMillion p)
     + orZero (us_CachedInput u) * (orZero (ps_CachedInputPerMillion p) - orZero (ps_InputPerMillion p))
     + orZero (us_CacheWriteInput u)
       * (orZero (ps_CacheWriteInputPerMillion p) - orZero (ps_InputPerMillion p))
     + orZero (us_CacheWrite5mInput u)
       * (writeRate p (ps_CacheWrite5mPerMillion p) - orZero (ps_CacheWriteInputPerMillion p))
     + orZero (us_CacheWrite1hInput u)
       * (writeRate p (ps_CacheWrite1hPerMillion p) - orZero (ps_CacheWriteInputPerMillion p))
     + orZero (us_Output u) * orZero (ps_OutputPerMillion p)"
  by (simp add: usageTotal_def categoryTotal_def algebra_simps)

text \<open>A counter that the completed report adds is zero, or its rate does not matter.\<close>

lemma completes_counters:
  assumes "completes u u'" and u: "usageSplit u p input output" "usageSplit u' p input' output'"
    and cached: "0 < orZero (us_CachedInput u') \<Longrightarrow> ps_CachedInputPerMillion p \<noteq> None"
    and writes: "0 < orZero (us_CacheWriteInput u') \<Longrightarrow>
      ps_CacheWriteInputPerMillion p \<noteq> None \<or> ps_CacheWrite5mPerMillion p \<noteq> None
      \<or> ps_CacheWrite1hPerMillion p \<noteq> None"
  shows "input' = input" "output' = output"
    and "orZero (us_CachedInput u') = orZero (us_CachedInput u)"
    and "orZero (us_CacheWriteInput u') = orZero (us_CacheWriteInput u)"
    and "orZero (us_CacheWrite5mInput u') = orZero (us_CacheWrite5mInput u)
      \<or> writeRate p (ps_CacheWrite5mPerMillion p) = orZero (ps_CacheWriteInputPerMillion p)"
    and "orZero (us_CacheWrite1hInput u') = orZero (us_CacheWrite1hInput u)
      \<or> writeRate p (ps_CacheWrite1hPerMillion p) = orZero (ps_CacheWriteInputPerMillion p)"
proof -
  note sp = u [unfolded usageSplit_def countersKnown_def Let_def]
  have c: "us_Input u = None \<or> us_Input u = us_Input u'"
    "us_Output u = None \<or> us_Output u = us_Output u'"
    "us_CachedInput u = None \<or> us_CachedInput u = us_CachedInput u'"
    "us_CacheWriteInput u = None \<or> us_CacheWriteInput u = us_CacheWriteInput u'"
    "us_CacheWrite5mInput u = None \<or> us_CacheWrite5mInput u = us_CacheWrite5mInput u'"
    "us_CacheWrite1hInput u = None \<or> us_CacheWrite1hInput u = us_CacheWrite1hInput u'"
    using assms(1) by (simp_all add: completes_def usageCounters_def)
  show io: "input' = input" "output' = output" using c sp by auto
  have None0: "v = None \<Longrightarrow> orZero v = 0" for v by (simp add: orZero_def)
  show 1: "orZero (us_CachedInput u') = orZero (us_CachedInput u)"
    using c(3,4) sp io cached None0 by (smt (verit))
  show 2: "orZero (us_CacheWriteInput u') = orZero (us_CacheWriteInput u)"
    using c(3,4) sp io writes None0 by (smt (verit))
  have w: "writeRate p r = orZero (ps_CacheWriteInputPerMillion p)"
    if "r = None \<or> r = ps_CacheWriteInputPerMillion p" for r
    using that by (auto simp: writeRate_def orZero_def split: option.splits)
  show "orZero (us_CacheWrite5mInput u') = orZero (us_CacheWrite5mInput u)
      \<or> writeRate p (ps_CacheWrite5mPerMillion p) = orZero (ps_CacheWriteInputPerMillion p)"
    using c(5,6) sp 2 None0 w [of "ps_CacheWrite5mPerMillion p"] by (smt (verit))
  show "orZero (us_CacheWrite1hInput u') = orZero (us_CacheWrite1hInput u)
      \<or> writeRate p (ps_CacheWrite1hPerMillion p) = orZero (ps_CacheWriteInputPerMillion p)"
    using c(5,6) sp 2 None0 w [of "ps_CacheWrite1hPerMillion p"] by (smt (verit))
qed

text \<open>The price of a split report is bounded by the highest input rate on the whole input.\<close>

lemma usageTotal_bound:
  assumes "usageSplit u p input output" "0 \<le> R" "\<forall>c\<in>set (inputRates p). orZero c \<le> R"
  shows "usageTotal u p \<le> input * R + output * orZero (ps_OutputPerMillion p)"
proof -
  have r: "orZero (ps_InputPerMillion p) \<le> R" "orZero (ps_CachedInputPerMillion p) \<le> R"
    "orZero (ps_CacheWriteInputPerMillion p) \<le> R"
    "writeRate p (ps_CacheWrite5mPerMillion p) \<le> R"
    "writeRate p (ps_CacheWrite1hPerMillion p) \<le> R"
    using assms(3) by (auto simp: inputRates_def writeRate_def orZero_def split: option.splits)
  let ?c = "orZero (us_CachedInput u)" and ?w = "orZero (us_CacheWriteInput u)"
  let ?w5 = "orZero (us_CacheWrite5mInput u)" and ?w1 = "orZero (us_CacheWrite1hInput u)"
  note sp = assms(1) [unfolded usageSplit_def]
  have io: "orZero (us_Input u) = input" "orZero (us_Output u) = output"
    using sp by (simp_all add: orZero_def)
  have "usageTotal u p \<le> (input - ?c - ?w) * R + ?c * R + ?w5 * R + ?w1 * R + (?w - ?w5 - ?w1) * R
      + output * orZero (ps_OutputPerMillion p)"
    unfolding usageTotal_def categoryTotal_def io using sp r
    by (intro add_mono mult_left_mono) simp_all
  then show ?thesis by (simp add: algebra_simps)
qed

section \<open>Properties\<close>

text \<open>
  the arithmetic of every cost is exact.  For a positive unit, \<open>estimateTerms\<close> succeeds with
  \<open>c\<close> exactly when no term is negative, \<open>c\<close> fits an \<open>int64\<close>, and \<open>c\<close> is the total price divided
  by the unit and rounded up; no intermediate product or sum overflows.
\<close>

theorem estimateTerms_exact:
  assumes "0 < unit" "i64 unit"
  shows "estimateTerms ts unit = Inr c \<longleftrightarrow>
    termsValid ts \<and> i64 c \<and> (c - 1) * unit < termTotal ts \<and> termTotal ts \<le> c * unit"
  using estimateTerms_Inr [OF assms] ceilDiv_iff [OF assms(1)] by blast

theorem estimateTerms_exact_witness:
  "estimateTerms [priced 4611686018427387904 3, priced 1 1] 1000000 = Inr 13835058055283
   \<and> estimateTerms [priced maxInt64 maxInt64] 1000000 \<noteq> Inr maxInt64"
  using estimateTerms_exact [of 1000000 "[priced 4611686018427387904 3, priced 1 1]" 13835058055283]
    estimateTerms_exact [of 1000000 "[priced maxInt64 maxInt64]" maxInt64]
  by (simp add: i64_def termsValid_def maxInt64_def)

lemma usage_within_bound:
  assumes "EstimateBound inputBound outputBound (Some p) = Inr b"
    and "EstimateUsageCost (Some u) (Some p) = Inr c" and "usageTyped u"
    and "us_Input u = Some i" "i \<le> inputBound" and "us_Output u = Some out" "out \<le> outputBound"
  shows "c \<le> b"
proof -
  from EstimateBound_Inr [OF assms(1)] obtain R where
    R: "0 \<le> R" "\<forall>c\<in>set (inputRates p). orZero c \<le> R" "0 \<le> orZero (ps_OutputPerMillion p)"
    and b: "b = ceilDiv (inputBound * R + outputBound * orZero (ps_OutputPerMillion p)) 1000000"
    by blast
  from EstimateUsageCost_rates(3) [OF assms(2,3)] assms(4,6) have "usageSplit u p i out"
    by (auto simp: usageSplit_def)
  from usageTotal_bound [OF this R(1,2)]
  have "usageTotal u p \<le> i * R + out * orZero (ps_OutputPerMillion p)" .
  also have "\<dots> \<le> inputBound * R + outputBound * orZero (ps_OutputPerMillion p)"
    using assms(5,7) R by (intro add_mono mult_right_mono)
  finally show ?thesis
    using EstimateUsageCost_total [OF assms(2,3)] b by (simp add: ceilDiv_mono)
qed

text \<open>
  C4: the reservation covers the charge.  When the usage a provider reports stays within the token
  bounds that were priced before dispatch, the cost of that usage is at most the bound that
  \<open>EstimateBound\<close> computed for the same price schedule, however the input splits into ordinary,
  cache-read and cache-write tokens.
\<close>

theorem EstimateUsageCost_le_EstimateBound:
  assumes "EstimateBound inputBound outputBound (Some p) = Inr b"
    and "EstimateUsageCost (Some u) (Some p) = Inr c" and "usageTyped u"
    and "us_Input u = Some i" "i \<le> inputBound" and "us_Output u = Some out" "out \<le> outputBound"
  shows "c \<le> b"
  using assms by (rule usage_within_bound)

definition samplePrice :: PriceSchedule where
  "samplePrice = \<lparr>ps_Version = ''v1'', ps_InputPerMillion = Some 3000000000,
     ps_OutputPerMillion = Some 15000000000, ps_CachedInputPerMillion = Some 300000000,
     ps_CacheWriteInputPerMillion = Some 3750000000, ps_CacheWrite5mPerMillion = None,
     ps_CacheWrite1hPerMillion = Some 6000000000, ps_MaximumUnitCost = None,
     ps_UnitOperation = ''''\<rparr>"

definition sampleUsage :: Usage where
  "sampleUsage = \<lparr>us_Input = Some 1000, us_Output = Some 200, us_Total = None,
     us_CachedInput = Some 600, us_CacheWriteInput = Some 100, us_CacheWrite5mInput = None,
     us_CacheWrite1hInput = Some 40, us_ReasoningOutput = None, us_ToolInput = None,
     us_Source = ''provider''\<rparr>"

lemmas sample_simps = samplePrice_def sampleUsage_def EstimateBound_def EstimateUsageCost_def
  usageTerms_def pricedTerm_def appendWrite_def priceRate_def inputRates_def usageCounters_def
  anyNegative_def orZero_def CheckedAdd_def countersKnown_def estimateTerms_def usageTyped_def
  i64opt_def i64_def wrap64_def tquo_def Let_def maxInt64_def

theorem EstimateUsageCost_le_EstimateBound_witness:
  "EstimateBound 1000 256 (Some samplePrice) = Inr 9840000
   \<and> EstimateUsageCost (Some sampleUsage) (Some samplePrice) = Inr 4545000
   \<and> (4545000::int64) \<le> 9840000"
proof -
  have b: "EstimateBound 1000 256 (Some samplePrice) = Inr 9840000"
    by (simp add: sample_simps)
  have c: "EstimateUsageCost (Some sampleUsage) (Some samplePrice) = Inr 4545000"
    by (simp add: sample_simps)
  have "(4545000::int64) \<le> 9840000"
    by (rule EstimateUsageCost_le_EstimateBound [OF b c, where i = 1000 and out = 200])
      (simp_all add: sample_simps)
  with b c show ?thesis by blast
qed

text \<open>
  C15: a missing counter is never guessed.  If \<open>EstimateUsageCost\<close> prices a report, then a more complete
  report (every counter of the first with the same value, possibly further ones) has the same price or is
  refused: wherever an unreported counter could change the price, the function has answered
  \<open>ErrUnknownCost\<close> instead.
\<close>

theorem EstimateUsageCost_not_guessed:
  assumes "EstimateUsageCost (Some u) (Some p) = Inr c" "usageTyped u" "usageTyped u'" and "completes u u'"
  shows "EstimateUsageCost (Some u') (Some p) = Inr c \<or> (\<exists>e. EstimateUsageCost (Some u') (Some p) = Inl e)"
proof (cases "EstimateUsageCost (Some u') (Some p)")
  case (Inr c')
  from EstimateUsageCost_rates(3) [OF assms(1,2)] EstimateUsageCost_rates(3) [OF Inr assms(3)]
  obtain i out i' out' where sp: "usageSplit u p i out" "usageSplit u' p i' out'" by blast
  note c = completes_counters [OF assms(4) sp EstimateUsageCost_rates(1,2) [OF Inr assms(3)]]
  have io: "us_Input u' = us_Input u" "us_Output u' = us_Output u"
    using sp c(1,2) by (simp_all add: usageSplit_def)
  have "usageTotal u' p = usageTotal u p"
    using c(3-6) by (auto simp: usageTotal_expand io)
  then have "c' = c" using EstimateUsageCost_total assms(1,2,3) Inr by metis
  with Inr show ?thesis by simp
qed simp

theorem EstimateUsageCost_not_guessed_witness:
  "EstimateUsageCost (Some sampleUsage) (Some samplePrice) = Inr 4545000
   \<and> EstimateUsageCost (Some (sampleUsage\<lparr>us_CacheWrite5mInput := Some 25\<rparr>)) (Some samplePrice)
     = Inr (4545000::int64)
   \<and> EstimateUsageCost (Some (sampleUsage\<lparr>us_CacheWrite1hInput := None\<rparr>)) (Some samplePrice)
     = Inl ErrUnknownCost"
proof -
  have a: "EstimateUsageCost (Some sampleUsage) (Some samplePrice) = Inr 4545000"
    by (simp add: sample_simps)
  have "isOk (EstimateUsageCost (Some (sampleUsage\<lparr>us_CacheWrite5mInput := Some 25\<rparr>)) (Some samplePrice))"
    by (simp add: sample_simps)
  moreover have "usageTyped sampleUsage" "usageTyped (sampleUsage\<lparr>us_CacheWrite5mInput := Some 25\<rparr>)"
    "completes sampleUsage (sampleUsage\<lparr>us_CacheWrite5mInput := Some 25\<rparr>)"
    by (simp_all add: sample_simps completes_def)
  ultimately have "EstimateUsageCost (Some (sampleUsage\<lparr>us_CacheWrite5mInput := Some 25\<rparr>)) (Some samplePrice) = Inr 4545000"
    using EstimateUsageCost_not_guessed [OF a] by fastforce
  with a show ?thesis by (simp add: sample_simps)
qed

end
