(* ===== verification/Catalog.thy ===== *)
theory Catalog
  imports Core_Types
begin

text \<open>
  \<open>internal/catalog/catalog.go\<close>: the compilation of a runtime snapshot into lookup tables.  Every
  Go map is an association list; a \<open>range\<close> loop runs over the list and an assignment is
  \<open>AList.update\<close>.  The clone functions copy values that the model shares anyway, so they have no
  definition of their own.
\<close>

section \<open>Definitions\<close>

record Catalog =
  ct_revision :: int64
  ct_policy :: TenantPolicy
  ct_connections :: "(string \<times> Connection) list"
  ct_models :: "(string \<times> Model) list"
  ct_modelsByConnection :: "((string \<times> string) \<times> Model) list"
  ct_uniqueModels :: "(string \<times> Model) list"
  ct_ambiguousModels :: "(string \<times> bool) list"
  ct_aliases :: "(string \<times> RouteTarget list) list"
  ct_routePolicies :: "(string \<times> RoutePolicy) list"
  ct_accountPools :: "(string \<times> AccountPool) list"

definition emptyCatalog :: "RuntimeSnapshot \<Rightarrow> Catalog" where
  "emptyCatalog s =
     \<lparr>ct_revision = sn_Revision s, ct_policy = sn_Policy s, ct_connections = [], ct_models = [],
      ct_modelsByConnection = [], ct_uniqueModels = [], ct_ambiguousModels = [], ct_aliases = [],
      ct_routePolicies = [], ct_accountPools = []\<rparr>"

definition compileConnection :: "string \<times> Connection \<Rightarrow> Catalog \<Rightarrow> Catalog res" where
  "compileConnection kv c =
     (let key = fst kv; val = snd kv in
      if key = '''' \<or> cn_ID val = '''' \<or> key \<noteq> cn_ID val then
        Inl (GoErr ''connection key and ID must match'')
      else bindR (Validate (cn_ClientProfile val) (cn_Connector val)) (\<lambda>_.
        if map_of (ct_connections c) key \<noteq> None then Inl (GoErr ''duplicate connection'')
        else Inr (c\<lparr>ct_connections := AList.update key val (ct_connections c)\<rparr>)))"

definition priceBounds :: "PriceSchedule \<Rightarrow> int64 option list" where
  "priceBounds p =
     [ps_InputPerMillion p, ps_OutputPerMillion p, ps_CachedInputPerMillion p,
      ps_CacheWriteInputPerMillion p, ps_CacheWrite5mPerMillion p, ps_CacheWrite1hPerMillion p,
      ps_MaximumUnitCost p]"

definition negativeOpt :: "int64 option \<Rightarrow> bool" where
  "negativeOpt v = (case v of None \<Rightarrow> False | Some x \<Rightarrow> x < 0)"

definition priceProblem :: "PriceSchedule option \<Rightarrow> string option" where
  "priceProblem price =
     (case price of
        None \<Rightarrow> None
      | Some p \<Rightarrow>
          if ps_Version p = '''' then Some ''invalid price version''
          else if list_ex negativeOpt (priceBounds p) then Some ''negative price bound''
          else None)"

definition compileModel :: "string \<times> Model \<Rightarrow> Catalog \<Rightarrow> Catalog res" where
  "compileModel kv c =
     (let key = fst kv; val = snd kv; pair = (md_ConnectionID val, md_CatalogID val) in
      if key = '''' \<or> md_CatalogID val = '''' \<or> key \<noteq> md_CatalogID val \<or> md_ID val = '''' then
        Inl (GoErr ''model identity is invalid'')
      else if md_ConnectionID val = '''' then Inl (GoErr ''model has no connection'')
      else case map_of (ct_connections c) (md_ConnectionID val) of
        None \<Rightarrow> Inl (GoErr ''model references unknown connection'')
      | Some connection \<Rightarrow>
          if connDisabled connection then Inl (GoErr ''model references disabled connection'')
          else if negativeOpt (md_ContextLimit val) then Inl (GoErr ''negative context limit'')
          else if negativeOpt (md_OutputLimit val) then Inl (GoErr ''negative output limit'')
          else if list_ex (\<lambda>(feature, support). feature = ''''
                    \<or> support \<notin> {Supported, Unsupported, UnknownSupport}) (md_Features val) then
            Inl (GoErr ''invalid feature declaration'')
          else if priceProblem (md_Price val) \<noteq> None then
            Inl (GoErr (the (priceProblem (md_Price val))))
          else if map_of (ct_modelsByConnection c) pair \<noteq> None then Inl (GoErr ''duplicate model'')
          else
            let c1 = c\<lparr>ct_models := AList.update key val (ct_models c),
                       ct_modelsByConnection := AList.update pair val (ct_modelsByConnection c)\<rparr>
            in Inr
              (if map_of (ct_uniqueModels c1) (md_CatalogID val) \<noteq> None then
                 c1\<lparr>ct_ambiguousModels := AList.update (md_CatalogID val) True (ct_ambiguousModels c1),
                    ct_uniqueModels := AList.delete (md_CatalogID val) (ct_uniqueModels c1)\<rparr>
               else if map_of (ct_ambiguousModels c1) (md_CatalogID val) \<noteq> Some True then
                 c1\<lparr>ct_uniqueModels := AList.update (md_CatalogID val) val (ct_uniqueModels c1)\<rparr>
               else c1))"

text \<open>The check of one target of an alias; \<open>seen\<close> holds the pairs of the earlier targets.\<close>

definition connectionOf :: "Catalog \<Rightarrow> string \<Rightarrow> Connection" where
  "connectionOf c i =
     (case map_of (ct_connections c) i of
        Some v \<Rightarrow> v
      | None \<Rightarrow> \<lparr>cn_TenantID = '''', cn_ID = '''', cn_Connector = '''', cn_AccountID = '''',
           cn_BaseURL = '''', cn_Region = '''', cn_Project = '''', cn_Version = 0, cn_Dedicated = False,
           cn_Settings = [], cn_ClientProfile = None\<rparr>)"

definition targetPair :: "RouteTarget \<Rightarrow> string \<times> string" where
  "targetPair t = (rt_ConnectionID t, rt_ModelID t)"

definition checkTarget :: "Catalog \<Rightarrow> RouteTarget \<Rightarrow> (string \<times> string) list \<Rightarrow> (string \<times> string) list res" where
  "checkTarget c target seen =
     (case map_of (ct_modelsByConnection c) (targetPair target) of
        None \<Rightarrow> Inl (GoErr ''alias references incompatible model'')
      | Some model \<Rightarrow>
          if md_ConnectionID model \<noteq> rt_ConnectionID target then
            Inl (GoErr ''alias references incompatible model'')
          else let connection = connectionOf c (rt_ConnectionID target) in
          if connDisabled connection then Inl (GoErr ''alias references disabled connection'')
          else if rt_Priority target < 0 \<or> rt_Weight target \<le> 0 then
            Inl (GoErr ''alias has invalid priority or weight'')
          else if rt_Region target \<noteq> '''' \<and> cn_Region connection \<noteq> ''''
                  \<and> rt_Region target \<noteq> cn_Region connection then
            Inl (GoErr ''alias target region mismatches connection'')
          else if targetPair target \<in> set seen then Inl (GoErr ''alias has duplicate target'')
          else Inr (targetPair target # seen))"

definition compileAlias :: "string \<times> RouteTarget list \<Rightarrow> Catalog \<Rightarrow> Catalog res" where
  "compileAlias kv c =
     (if fst kv = '''' then Inl (GoErr ''empty alias'')
      else bindR (foldR (checkTarget c) (snd kv) []) (\<lambda>_.
        Inr (c\<lparr>ct_aliases := AList.update (fst kv) (snd kv) (ct_aliases c)\<rparr>)))"

definition checkAccount :: "string \<Rightarrow> string list \<Rightarrow> string list res" where
  "checkAccount account seen =
     (if account = '''' \<or> account \<in> set seen then Inl (GoErr ''invalid account membership'')
      else Inr (account # seen))"

definition compilePool :: "string \<times> AccountPool \<Rightarrow> Catalog \<Rightarrow> Catalog res" where
  "compilePool kv c =
     (let key = fst kv; pool = snd kv in
      if key = '''' \<or> pl_Provider pool = '''' then Inl (GoErr ''account pool identity is invalid'')
      else if pl_AccountIDs pool = [] then Inl (GoErr ''account pool has no accounts'')
      else bindR (foldR checkAccount (pl_AccountIDs pool) []) (\<lambda>_.
        Inr (c\<lparr>ct_accountPools := AList.update key pool (ct_accountPools c)\<rparr>)))"

definition poolAccepts :: "AccountPool \<Rightarrow> Connection \<Rightarrow> bool" where
  "poolAccepts pool connection =
     (\<not> ((pl_Provider pool \<noteq> cn_Connector connection
           \<and> pl_Provider pool \<noteq> goIndex (cn_Settings connection) ''provider'')
          \<or> cn_AccountID connection \<notin> set (pl_AccountIDs pool)))"

definition targetRegion :: "Catalog \<Rightarrow> RouteTarget \<Rightarrow> string" where
  "targetRegion c target =
     (if rt_Region target = '''' then cn_Region (connectionOf c (rt_ConnectionID target))
      else rt_Region target)"

definition compilePolicy :: "string \<times> RoutePolicy \<Rightarrow> Catalog \<Rightarrow> Catalog res" where
  "compilePolicy kv c =
     (let key = fst kv; policy = snd kv in
      case map_of (ct_aliases c) key of
        None \<Rightarrow> Inl (GoErr ''route policy references unknown alias'')
      | Some targets \<Rightarrow>
          if '''' \<in> set (rp_Residency policy) then Inl (GoErr ''route policy has invalid residency'')
          else
            bindR (if rp_AccountPoolID policy \<noteq> '''' then
                     (case map_of (ct_accountPools c) (rp_AccountPoolID policy) of
                        None \<Rightarrow> Inl (GoErr ''route policy references unknown account pool'')
                      | Some pool \<Rightarrow>
                          if \<not> list_all (\<lambda>t. poolAccepts pool (connectionOf c (rt_ConnectionID t))) targets
                          then Inl (GoErr ''account pool does not contain target account'')
                          else Inr ())
                   else Inr ()) (\<lambda>_.
            if rp_Residency policy \<noteq> []
               \<and> \<not> list_all (\<lambda>t. targetRegion c t \<in> set (rp_Residency policy)) targets then
              Inl (GoErr ''residency does not match target region'')
            else Inr (c\<lparr>ct_routePolicies := AList.update key policy (ct_routePolicies c)\<rparr>)))"

definition Compile :: "RuntimeSnapshot \<Rightarrow> Catalog res" where
  "Compile s =
     (if sn_Revision s < 0 then Inl (GoErr ''negative snapshot revision'')
      else
        bindR (foldR compileConnection (sn_Connections s) (emptyCatalog s)) (\<lambda>c.
        bindR (foldR compileModel (sn_Models s) c) (\<lambda>c.
        bindR (foldR compileAlias (sn_Aliases s) c) (\<lambda>c.
        bindR (foldR compilePool (sn_AccountPools s) c) (\<lambda>c.
        foldR compilePolicy (sn_RoutePolicies s) c)))))"

definition Catalog_Connection :: "Catalog \<Rightarrow> string \<Rightarrow> Connection option" where
  "Catalog_Connection c i = map_of (ct_connections c) i"

definition Catalog_Model :: "Catalog \<Rightarrow> string \<Rightarrow> Model option" where
  "Catalog_Model c i =
     (case map_of (ct_models c) i of
        Some v \<Rightarrow> Some v
      | None \<Rightarrow> map_of (ct_uniqueModels c) i)"

definition Catalog_ModelFor :: "Catalog \<Rightarrow> string \<Rightarrow> string \<Rightarrow> Model option" where
  "Catalog_ModelFor c connectionID modelID = map_of (ct_modelsByConnection c) (connectionID, modelID)"

definition Catalog_Targets :: "Catalog \<Rightarrow> string \<Rightarrow> RouteTarget list" where
  "Catalog_Targets c alias = (case map_of (ct_aliases c) alias of None \<Rightarrow> [] | Some v \<Rightarrow> v)"

definition Catalog_Snapshot :: "Catalog \<Rightarrow> RuntimeSnapshot" where
  "Catalog_Snapshot c =
     \<lparr>sn_Revision = ct_revision c, sn_Connections = ct_connections c, sn_Models = ct_models c,
      sn_Aliases = ct_aliases c, sn_RoutePolicies = ct_routePolicies c,
      sn_AccountPools = ct_accountPools c, sn_Policy = ct_policy c\<rparr>"

section \<open>What a compiled catalog guarantees\<close>

definition snapshotKeys :: "RuntimeSnapshot \<Rightarrow> bool" where
  "snapshotKeys s = (tbl_ok (sn_Connections s) \<and> tbl_ok (sn_Models s) \<and> tbl_ok (sn_Aliases s)
     \<and> tbl_ok (sn_RoutePolicies s) \<and> tbl_ok (sn_AccountPools s))"

definition targetOk :: "Catalog \<Rightarrow> RouteTarget \<Rightarrow> bool" where
  "targetOk c t \<longleftrightarrow>
     (\<exists>m conn. map_of (ct_models c) (rt_ModelID t) = Some m \<and> md_ConnectionID m = rt_ConnectionID t
        \<and> map_of (ct_connections c) (rt_ConnectionID t) = Some conn \<and> \<not> connDisabled conn
        \<and> (rt_Region t = '''' \<or> cn_Region conn = '''' \<or> rt_Region t = cn_Region conn))
     \<and> 0 \<le> rt_Priority t \<and> 0 < rt_Weight t"

definition policyOk :: "Catalog \<Rightarrow> RoutePolicy \<Rightarrow> RouteTarget list \<Rightarrow> bool" where
  "policyOk c p ts \<longleftrightarrow>
     (rp_Residency p = [] \<or> list_all (\<lambda>t. targetRegion c t \<in> set (rp_Residency p)) ts)
     \<and> (rp_AccountPoolID p = '''' \<or>
        (\<exists>pool. map_of (ct_accountPools c) (rp_AccountPoolID p) = Some pool
           \<and> list_all (\<lambda>t. poolAccepts pool (connectionOf c (rt_ConnectionID t))) ts))"

definition catalogOk :: "Catalog \<Rightarrow> bool" where
  "catalogOk c \<longleftrightarrow>
     0 \<le> ct_revision c
     \<and> list_all (\<lambda>(i, conn). i \<noteq> '''' \<and> cn_ID conn = i
          \<and> Validate (cn_ClientProfile conn) (cn_Connector conn) = Inr ()) (ct_connections c)
     \<and> list_all (\<lambda>(i, m). i \<noteq> '''' \<and> md_CatalogID m = i
          \<and> (\<exists>conn. map_of (ct_connections c) (md_ConnectionID m) = Some conn \<and> \<not> connDisabled conn)
          \<and> \<not> negativeOpt (md_ContextLimit m) \<and> \<not> negativeOpt (md_OutputLimit m)
          \<and> priceProblem (md_Price m) = None) (ct_models c)
     \<and> list_all (\<lambda>(a, ts). a \<noteq> '''' \<and> list_all (targetOk c) ts \<and> distinct (map targetPair ts))
          (ct_aliases c)
     \<and> list_all (\<lambda>(i, pool). pl_AccountIDs pool \<noteq> [] \<and> distinct (pl_AccountIDs pool))
          (ct_accountPools c)
     \<and> list_all (\<lambda>(a, p). \<exists>ts. map_of (ct_aliases c) a = Some ts \<and> policyOk c p ts)
          (ct_routePolicies c)"

section \<open>Lemmas\<close>

lemma compileConnection_Inr:
  "compileConnection kv c = Inr c' \<longleftrightarrow>
     fst kv \<noteq> '''' \<and> cn_ID (snd kv) = fst kv
     \<and> Validate (cn_ClientProfile (snd kv)) (cn_Connector (snd kv)) = Inr ()
     \<and> map_of (ct_connections c) (fst kv) = None
     \<and> c' = c\<lparr>ct_connections := AList.update (fst kv) (snd kv) (ct_connections c)\<rparr>"
  by (auto simp: compileConnection_def Let_def bindR_Inr)

lemma compileModel_Inr:
  assumes "compileModel kv c = Inr c'"
  shows "fst kv \<noteq> '''' \<and> md_CatalogID (snd kv) = fst kv
      \<and> (\<exists>conn. map_of (ct_connections c) (md_ConnectionID (snd kv)) = Some conn \<and> \<not> connDisabled conn)
      \<and> \<not> negativeOpt (md_ContextLimit (snd kv)) \<and> \<not> negativeOpt (md_OutputLimit (snd kv))
      \<and> priceProblem (md_Price (snd kv)) = None"
    and "ct_models c' = AList.update (fst kv) (snd kv) (ct_models c)"
    and "ct_modelsByConnection c' =
      AList.update (md_ConnectionID (snd kv), fst kv) (snd kv) (ct_modelsByConnection c)"
    and "ct_connections c' = ct_connections c \<and> ct_aliases c' = ct_aliases c
      \<and> ct_accountPools c' = ct_accountPools c \<and> ct_routePolicies c' = ct_routePolicies c
      \<and> ct_revision c' = ct_revision c \<and> ct_policy c' = ct_policy c"
  using assms by (auto simp: compileModel_def Let_def split: option.splits)

lemma compileAlias_Inr:
  "compileAlias kv c = Inr c' \<longleftrightarrow>
     fst kv \<noteq> '''' \<and> isOk (foldR (checkTarget c) (snd kv) [])
     \<and> c' = c\<lparr>ct_aliases := AList.update (fst kv) (snd kv) (ct_aliases c)\<rparr>"
  by (auto simp: compileAlias_def bindR_Inr isOk_iff)

lemma compilePool_Inr:
  "compilePool kv c = Inr c' \<longleftrightarrow>
     fst kv \<noteq> '''' \<and> pl_Provider (snd kv) \<noteq> '''' \<and> pl_AccountIDs (snd kv) \<noteq> []
     \<and> isOk (foldR checkAccount (pl_AccountIDs (snd kv)) [])
     \<and> c' = c\<lparr>ct_accountPools := AList.update (fst kv) (snd kv) (ct_accountPools c)\<rparr>"
  by (auto simp: compilePool_def Let_def bindR_Inr isOk_iff)

lemma compilePolicy_Inr:
  assumes "compilePolicy kv c = Inr c'"
  shows "\<exists>ts. map_of (ct_aliases c) (fst kv) = Some ts \<and> policyOk c (snd kv) ts"
    and "c' = c\<lparr>ct_routePolicies := AList.update (fst kv) (snd kv) (ct_routePolicies c)\<rparr>"
  using assms
  by (auto simp: compilePolicy_def Let_def bindR_Inr policyOk_def split: option.splits if_splits)

text \<open>The loops over targets and accounts reject duplicates: the list of what was seen is distinct.\<close>

lemma foldR_distinct:
  assumes "foldR f xs seen = Inr seen'"
    and "\<And>x s s'. f x s = Inr s' \<Longrightarrow> k x \<notin> set s \<and> s' = k x # s"
  shows "distinct (map k xs) \<and> set (map k xs) \<inter> set seen = {}"
  using assms(1)
proof (induction xs arbitrary: seen)
  case (Cons x xs)
  then obtain s1 where 1: "f x seen = Inr s1" and rest: "foldR f xs s1 = Inr seen'"
    by (auto simp: bindR_Inr)
  with Cons.IH [OF rest] assms(2) [OF 1] show ?case by auto
qed simp

lemma checkTarget_Inr:
  assumes "checkTarget c t seen = Inr seen'"
  shows "targetPair t \<notin> set seen \<and> seen' = targetPair t # seen"
    and "\<exists>m. map_of (ct_modelsByConnection c) (targetPair t) = Some m
      \<and> md_ConnectionID m = rt_ConnectionID t"
    and "\<not> connDisabled (connectionOf c (rt_ConnectionID t))" "0 \<le> rt_Priority t" "0 < rt_Weight t"
    and "rt_Region t = '''' \<or> cn_Region (connectionOf c (rt_ConnectionID t)) = ''''
      \<or> rt_Region t = cn_Region (connectionOf c (rt_ConnectionID t))"
  using assms by (auto simp: checkTarget_def Let_def split: option.splits)

lemma checkAccount_Inr: "checkAccount a seen = Inr seen' \<longleftrightarrow> a \<noteq> '''' \<and> a \<notin> set seen \<and> seen' = a # seen"
  by (auto simp: checkAccount_def)

subsection \<open>The five loops of Compile\<close>

lemma map_fst_snd: "map (\<lambda>x. (fst x, snd x)) xs = xs"
  by (simp add: map_idI)

lemma connections_loop:
  assumes "foldR compileConnection xs c = Inr c'" "distinct (map fst (ct_connections c) @ map fst xs)"
  shows "c' = c\<lparr>ct_connections := ct_connections c @ xs\<rparr>"
  by (rule foldR_field [where get = ct_connections and upd = ct_connections_update, OF assms]) (auto simp: compileConnection_Inr)

lemma aliases_loop:
  assumes "foldR compileAlias xs c = Inr c'" "distinct (map fst (ct_aliases c) @ map fst xs)"
  shows "c' = c\<lparr>ct_aliases := ct_aliases c @ xs\<rparr>"
  by (rule foldR_field [where get = ct_aliases and upd = ct_aliases_update, OF assms]) (auto simp: compileAlias_Inr)

lemma pools_loop:
  assumes "foldR compilePool xs c = Inr c'" "distinct (map fst (ct_accountPools c) @ map fst xs)"
  shows "c' = c\<lparr>ct_accountPools := ct_accountPools c @ xs\<rparr>"
  by (rule foldR_field [where get = ct_accountPools and upd = ct_accountPools_update, OF assms]) (auto simp: compilePool_Inr)

lemma policies_loop:
  assumes "foldR compilePolicy xs c = Inr c'" "distinct (map fst (ct_routePolicies c) @ map fst xs)"
  shows "c' = c\<lparr>ct_routePolicies := ct_routePolicies c @ xs\<rparr>"
  by (rule foldR_field [where get = ct_routePolicies and upd = ct_routePolicies_update, OF assms]) (auto dest: compilePolicy_Inr(2))

text \<open>The index by connection is derived from the model table; the keys of a loop are distinct.\<close>

definition modelIndex :: "(string \<times> Model) list \<Rightarrow> ((string \<times> string) \<times> Model) list" where
  "modelIndex ms = map (\<lambda>x. ((md_ConnectionID (snd x), fst x), snd x)) ms"

lemma models_loop:
  assumes "foldR compileModel xs c = Inr c'" "distinct (map fst xs)"
    and "ct_models c = []" "ct_modelsByConnection c = []"
  shows "ct_models c' = xs" "ct_modelsByConnection c' = modelIndex xs"
    and "ct_connections c' = ct_connections c \<and> ct_aliases c' = ct_aliases c
      \<and> ct_accountPools c' = ct_accountPools c \<and> ct_routePolicies c' = ct_routePolicies c
      \<and> ct_revision c' = ct_revision c \<and> ct_policy c' = ct_policy c"
proof -
  have "ct_models c' = ct_models c @ map (\<lambda>x. (fst x, snd x)) xs"
    by (rule foldR_update [OF assms(1)]) (use assms in \<open>auto dest: compileModel_Inr(2)\<close>)
  then show "ct_models c' = xs" by (simp add: assms(3) map_fst_snd)
  have "distinct (map (\<lambda>x. (md_ConnectionID (snd x), fst x)) xs)"
    by (rule distinct_map_finer [OF assms(2)]) simp
  then have "ct_modelsByConnection c' = ct_modelsByConnection c
      @ map (\<lambda>x. ((md_ConnectionID (snd x), fst x), snd x)) xs"
    by (intro foldR_update [OF assms(1)]) (auto simp: assms(4) dest: compileModel_Inr(3))
  then show "ct_modelsByConnection c' = modelIndex xs" by (simp add: assms(4) modelIndex_def)
  have "(ct_connections c', ct_aliases c', ct_accountPools c', ct_routePolicies c', ct_revision c',
      ct_policy c') = (ct_connections c, ct_aliases c, ct_accountPools c, ct_routePolicies c,
      ct_revision c, ct_policy c)"
    by (rule foldR_frame [OF assms(1)]) (simp add: compileModel_Inr(4))
  then show "ct_connections c' = ct_connections c \<and> ct_aliases c' = ct_aliases c
      \<and> ct_accountPools c' = ct_accountPools c \<and> ct_routePolicies c' = ct_routePolicies c
      \<and> ct_revision c' = ct_revision c \<and> ct_policy c' = ct_policy c" by simp
qed

lemma map_of_modelIndex:
  assumes "distinct (map fst ms)"
  shows "map_of (modelIndex ms) (x, i) = Some m \<longleftrightarrow> map_of ms i = Some m \<and> md_ConnectionID m = x"
proof -
  have "distinct (map fst (modelIndex ms))"
    unfolding modelIndex_def by (simp add: comp_def) (rule distinct_map_finer [OF assms], simp)
  with assms show ?thesis
    by (force simp: map_of_eq_Some_iff modelIndex_def image_iff)
qed

lemma Compile_loops:
  assumes "Compile s = Inr c" "snapshotKeys s"
  obtains c1 c2 where
    "0 \<le> sn_Revision s"
    "foldR compileConnection (sn_Connections s) (emptyCatalog s) = Inr c1"
    "foldR compileModel (sn_Models s) c1 = Inr c2"
    "foldR compileAlias (sn_Aliases s) c2 = Inr (c2\<lparr>ct_aliases := sn_Aliases s\<rparr>)"
    "foldR compilePool (sn_AccountPools s) (c2\<lparr>ct_aliases := sn_Aliases s\<rparr>)
       = Inr (c2\<lparr>ct_aliases := sn_Aliases s, ct_accountPools := sn_AccountPools s\<rparr>)"
    "foldR compilePolicy (sn_RoutePolicies s)
       (c2\<lparr>ct_aliases := sn_Aliases s, ct_accountPools := sn_AccountPools s\<rparr>) = Inr c"
    "c1 = (emptyCatalog s)\<lparr>ct_connections := sn_Connections s\<rparr>"
    "ct_models c2 = sn_Models s" "ct_modelsByConnection c2 = modelIndex (sn_Models s)"
    "ct_connections c2 = sn_Connections s" "ct_revision c2 = sn_Revision s"
    "ct_policy c2 = sn_Policy s"
    "c = c2\<lparr>ct_aliases := sn_Aliases s, ct_accountPools := sn_AccountPools s,
       ct_routePolicies := sn_RoutePolicies s\<rparr>"
proof -
  from assms(1) obtain c1 c2 c3 c4 where rev: "0 \<le> sn_Revision s"
    and 1: "foldR compileConnection (sn_Connections s) (emptyCatalog s) = Inr c1"
    and 2: "foldR compileModel (sn_Models s) c1 = Inr c2"
    and 3: "foldR compileAlias (sn_Aliases s) c2 = Inr c3"
    and 4: "foldR compilePool (sn_AccountPools s) c3 = Inr c4"
    and 5: "foldR compilePolicy (sn_RoutePolicies s) c4 = Inr c"
    by (auto simp: Compile_def bindR_Inr)
  note keys = assms(2) [unfolded snapshotKeys_def tbl_ok_def]
  have c1: "c1 = (emptyCatalog s)\<lparr>ct_connections := sn_Connections s\<rparr>"
    using connections_loop [OF 1] keys by (simp add: emptyCatalog_def)
  note m = models_loop [OF 2, unfolded c1, simplified]
  have c2: "ct_models c2 = sn_Models s" "ct_modelsByConnection c2 = modelIndex (sn_Models s)"
    "ct_connections c2 = sn_Connections s" "ct_aliases c2 = []" "ct_accountPools c2 = []"
    "ct_routePolicies c2 = []" "ct_revision c2 = sn_Revision s" "ct_policy c2 = sn_Policy s"
    using m keys by (simp_all add: emptyCatalog_def)
  have c3: "c3 = c2\<lparr>ct_aliases := sn_Aliases s\<rparr>" using aliases_loop [OF 3] keys c2 by simp
  have c4: "c4 = c3\<lparr>ct_accountPools := sn_AccountPools s\<rparr>"
    using pools_loop [OF 4] keys c2 by (simp add: c3)
  have c: "c = c4\<lparr>ct_routePolicies := sn_RoutePolicies s\<rparr>"
    using policies_loop [OF 5] keys c2 by (simp add: c4 c3)
  show thesis
    by (rule that [of c1 c2]) (use rev 1 2 3 4 5 c1 c2 c3 c4 c in simp_all)
qed

text \<open>The checks read only the tables of the earlier loops.\<close>

lemma connectionOf_aliases: "connectionOf (c\<lparr>ct_aliases := a\<rparr>) = connectionOf c"
  unfolding connectionOf_def by simp

lemma checkTarget_aliases: "checkTarget (c\<lparr>ct_aliases := a\<rparr>) = checkTarget c"
  unfolding checkTarget_def connectionOf_aliases by simp

lemma policyOk_policies: "policyOk (c\<lparr>ct_routePolicies := a\<rparr>) = policyOk c"
  unfolding policyOk_def targetRegion_def connectionOf_def by simp

lemma compilePolicy_checked:
  assumes "compilePolicy x c = Inr c'"
  shows "c'\<lparr>ct_routePolicies := []\<rparr> = c\<lparr>ct_routePolicies := []\<rparr>
    \<and> (\<lambda>c x. \<exists>ts. map_of (ct_aliases c) (fst x) = Some ts \<and> policyOk c (snd x) ts)
        (c\<lparr>ct_routePolicies := []\<rparr>) x"
  using compilePolicy_Inr(1) [OF assms] unfolding compilePolicy_Inr(2) [OF assms]
  by (simp add: policyOk_policies)

lemma targets_ok:
  assumes "foldR (checkTarget c2) ts [] = Inr seen" "ct_modelsByConnection c2 = modelIndex (ct_models c2)"
    "distinct (map fst (ct_models c2))"
    "\<forall>(i, m)\<in>set (ct_models c2). map_of (ct_connections c2) (md_ConnectionID m) \<noteq> None"
  shows "list_all (targetOk c2) ts \<and> distinct (map targetPair ts)"
proof
  show "distinct (map targetPair ts)"
    using foldR_distinct [OF assms(1), of targetPair] checkTarget_Inr(1) by blast
  have "\<exists>seen seen'. checkTarget c2 t seen = Inr seen'" if "t \<in> set ts" for t
    using foldR_checked [OF assms(1), where h = "\<lambda>_. ()" and Q = "\<lambda>_ t. \<exists>s s'. checkTarget c2 t s = Inr s'"]
      that by blast
  moreover have "targetOk c2 t" if t: "checkTarget c2 t seen = Inr seen'" for t seen seen'
  proof -
    note ck = checkTarget_Inr [OF t]
    from ck(2) obtain m where m: "map_of (ct_models c2) (rt_ModelID t) = Some m"
      "md_ConnectionID m = rt_ConnectionID t"
      by (auto simp: assms(2) targetPair_def map_of_modelIndex [OF assms(3)])
    with assms(4) obtain conn where "map_of (ct_connections c2) (rt_ConnectionID t) = Some conn"
      by (force dest: map_of_SomeD)
    with m ck show ?thesis by (auto simp: targetOk_def connectionOf_def)
  qed
  ultimately show "list_all (targetOk c2) ts" by (fastforce simp: list_all_iff)
qed

text \<open>What each loop has checked of its elements, against the catalog it started from.\<close>

lemma connections_checked:
  assumes "foldR compileConnection xs c = Inr c'"
  shows "\<forall>x\<in>set xs. fst x \<noteq> '''' \<and> cn_ID (snd x) = fst x
    \<and> Validate (cn_ClientProfile (snd x)) (cn_Connector (snd x)) = Inr ()"
  by (rule foldR_checked [OF assms, where h = "\<lambda>_. ()"]) (auto simp: compileConnection_Inr)

lemma models_checked:
  assumes "foldR compileModel xs c = Inr c'"
  shows "\<forall>x\<in>set xs. fst x \<noteq> '''' \<and> md_CatalogID (snd x) = fst x
    \<and> (\<exists>conn. map_of (ct_connections c) (md_ConnectionID (snd x)) = Some conn \<and> \<not> connDisabled conn)
    \<and> \<not> negativeOpt (md_ContextLimit (snd x)) \<and> \<not> negativeOpt (md_OutputLimit (snd x))
    \<and> priceProblem (md_Price (snd x)) = None"
  by (rule foldR_checked [OF assms, where h = ct_connections]) (use compileModel_Inr(1,4) in blast)

lemma aliases_checked:
  assumes "foldR compileAlias xs c = Inr c'"
  shows "\<forall>x\<in>set xs. fst x \<noteq> '''' \<and> isOk (foldR (checkTarget c) (snd x) [])"
proof -
  have "\<forall>x\<in>set xs. fst x \<noteq> '''' \<and> isOk (foldR (checkTarget (c\<lparr>ct_aliases := []\<rparr>)) (snd x) [])"
    by (rule foldR_checked [OF assms, where h = "\<lambda>c. c\<lparr>ct_aliases := []\<rparr>"])
      (auto simp: compileAlias_Inr checkTarget_aliases)
  then show ?thesis by (simp add: checkTarget_aliases)
qed

lemma pools_checked:
  assumes "foldR compilePool xs c = Inr c'"
  shows "\<forall>x\<in>set xs. pl_AccountIDs (snd x) \<noteq> [] \<and> distinct (pl_AccountIDs (snd x))"
  by (rule foldR_checked [OF assms, where h = "\<lambda>_. ()"])
    (auto simp: compilePool_Inr isOk_iff checkAccount_Inr
      dest!: foldR_distinct [where k = "\<lambda>x. x" and f = checkAccount])

lemma policies_checked:
  assumes "foldR compilePolicy xs c = Inr c'"
  shows "\<forall>x\<in>set xs. \<exists>ts. map_of (ct_aliases c) (fst x) = Some ts \<and> policyOk c (snd x) ts"
proof -
  have "\<forall>x\<in>set xs. (\<lambda>c x. \<exists>ts. map_of (ct_aliases c) (fst x) = Some ts \<and> policyOk c (snd x) ts)
      (c\<lparr>ct_routePolicies := []\<rparr>) x"
    by (rule foldR_checked [OF assms, where h = "\<lambda>c. c\<lparr>ct_routePolicies := []\<rparr>"])
      (rule compilePolicy_checked)
  then show ?thesis by (simp add: policyOk_policies)
qed

lemma targetOk_frame:
  "targetOk (c\<lparr>ct_aliases := a, ct_accountPools := b, ct_routePolicies := d\<rparr>) = targetOk c"
  unfolding targetOk_def by simp

lemma Compile_catalogOk:
  assumes "Compile s = Inr c" "snapshotKeys s"
  shows "catalogOk c"
  using assms
proof (rule Compile_loops)
  fix c1 c2 :: Catalog
  let ?c4 = "c2\<lparr>ct_aliases := sn_Aliases s, ct_accountPools := sn_AccountPools s\<rparr>"
  assume rev: "0 \<le> sn_Revision s"
    and 1: "foldR compileConnection (sn_Connections s) (emptyCatalog s) = Inr c1"
    and 2: "foldR compileModel (sn_Models s) c1 = Inr c2"
    and 3: "foldR compileAlias (sn_Aliases s) c2 = Inr (c2\<lparr>ct_aliases := sn_Aliases s\<rparr>)"
    and 4: "foldR compilePool (sn_AccountPools s) (c2\<lparr>ct_aliases := sn_Aliases s\<rparr>) = Inr ?c4"
    and 5: "foldR compilePolicy (sn_RoutePolicies s) ?c4 = Inr c"
    and c1: "c1 = (emptyCatalog s)\<lparr>ct_connections := sn_Connections s\<rparr>"
    and c2: "ct_models c2 = sn_Models s" "ct_modelsByConnection c2 = modelIndex (sn_Models s)"
      "ct_connections c2 = sn_Connections s" "ct_revision c2 = sn_Revision s"
    and c: "c = c2\<lparr>ct_aliases := sn_Aliases s, ct_accountPools := sn_AccountPools s,
       ct_routePolicies := sn_RoutePolicies s\<rparr>"
  have "list_all (targetOk c2) (snd x) \<and> distinct (map targetPair (snd x))"
    if "x \<in> set (sn_Aliases s)" for x
  proof -
    from aliases_checked [OF 3] that obtain seen
      where "foldR (checkTarget c2) (snd x) [] = Inr seen" by (auto simp: isOk_iff)
    then show ?thesis
      using models_checked [OF 2] assms(2)
      by (intro targets_ok) (fastforce simp: c1 c2 snapshotKeys_def tbl_ok_def)+
  qed
  moreover have "targetOk c = targetOk c2" unfolding c by (rule targetOk_frame)
  moreover have "policyOk c = policyOk ?c4" unfolding c by (rule policyOk_policies)
  ultimately show ?thesis
    using rev connections_checked [OF 1] models_checked [OF 2] aliases_checked [OF 3]
      pools_checked [OF 4] policies_checked [OF 5]
    unfolding catalogOk_def by (simp add: c c1 c2 list_all_iff split_beta)
qed

lemma Compile_Snapshot_eq:
  assumes "Compile s = Inr c" "snapshotKeys s"
  shows "Catalog_Snapshot c = s"
  using assms
proof (rule Compile_loops)
  fix c1 c2 :: Catalog
  assume "ct_models c2 = sn_Models s" "ct_connections c2 = sn_Connections s"
    "ct_revision c2 = sn_Revision s" "ct_policy c2 = sn_Policy s"
    "c = c2\<lparr>ct_aliases := sn_Aliases s, ct_accountPools := sn_AccountPools s,
       ct_routePolicies := sn_RoutePolicies s\<rparr>"
  then show ?thesis by (cases s) (simp add: Catalog_Snapshot_def)
qed

lemma Compile_index:
  assumes "Compile s = Inr c" "snapshotKeys s"
  shows "ct_modelsByConnection c = modelIndex (sn_Models s)"
  using assms by (rule Compile_loops) simp

text \<open>The table of unambiguous identifiers never answers for a model the catalog does not hold.\<close>

lemma compileModel_unique:
  assumes "compileModel kv c = Inr c'"
    and "fst ` set (ct_uniqueModels c) \<subseteq> fst ` set (ct_models c)"
  shows "fst ` set (ct_uniqueModels c') \<subseteq> fst ` set (ct_models c')"
proof -
  have "md_CatalogID (snd kv) = fst kv" using compileModel_Inr(1) [OF assms(1)] by simp
  then have "ct_uniqueModels c' = AList.delete (fst kv) (ct_uniqueModels c)
      \<or> ct_uniqueModels c' = AList.update (fst kv) (snd kv) (ct_uniqueModels c)
      \<or> ct_uniqueModels c' = ct_uniqueModels c"
    using assms(1) by (auto simp: compileModel_def Let_def split: option.splits)
  then have "fst ` set (ct_uniqueModels c') \<subseteq> insert (fst kv) (fst ` set (ct_uniqueModels c))"
  proof (elim disjE)
    assume "ct_uniqueModels c' = AList.delete (fst kv) (ct_uniqueModels c)"
    then show ?thesis by (auto simp: AList.delete_eq)
  qed (simp_all add: dom_update subset_insertI)
  with assms(2) show ?thesis
    unfolding compileModel_Inr(2) [OF assms(1)] dom_update by blast
qed

lemma Compile_unique:
  assumes "Compile s = Inr c" "snapshotKeys s"
  shows "Catalog_Model c i = map_of (sn_Models s) i"
  using assms
proof (rule Compile_loops)
  fix c1 c2 :: Catalog
  assume 2: "foldR compileModel (sn_Models s) c1 = Inr c2"
    and c1: "c1 = (emptyCatalog s)\<lparr>ct_connections := sn_Connections s\<rparr>"
    and c2: "ct_models c2 = sn_Models s"
    and c: "c = c2\<lparr>ct_aliases := sn_Aliases s, ct_accountPools := sn_AccountPools s,
       ct_routePolicies := sn_RoutePolicies s\<rparr>"
  have "fst ` set (ct_uniqueModels c2) \<subseteq> fst ` set (ct_models c2)"
    by (rule foldR_invariant [OF 2]) (simp_all add: c1 emptyCatalog_def compileModel_unique)
  then have "map_of (ct_uniqueModels c2) i = None" if "map_of (ct_models c2) i = None"
    using that by (auto simp: map_of_eq_None_iff)
  then show ?thesis by (auto simp: Catalog_Model_def c c2 split: option.splits)
qed

section \<open>Properties\<close>

text \<open>
  C8: compilation is faithful.  When \<open>Compile\<close> accepts a snapshot, whose tables are maps, \<open>Snapshot\<close> of the
  catalog returns the very same snapshot and compiling it again gives the same catalog; the lookups of
  connections and of alias targets read the snapshot's tables, the lookup by connection and catalog
  identifier finds exactly the models of that connection, and the lookup by identifier alone finds
  exactly the snapshot's models.
\<close>

theorem Compile_roundtrip:
  assumes "Compile s = Inr c" "snapshotKeys s"
  shows "Catalog_Snapshot c = s \<and> Compile (Catalog_Snapshot c) = Inr c
    \<and> (\<forall>i. Catalog_Connection c i = map_of (sn_Connections s) i)
    \<and> (\<forall>a. Catalog_Targets c a = (case map_of (sn_Aliases s) a of None \<Rightarrow> [] | Some ts \<Rightarrow> ts))
    \<and> (\<forall>x i m. Catalog_ModelFor c x i = Some m \<longleftrightarrow>
         map_of (sn_Models s) i = Some m \<and> md_ConnectionID m = x)
    \<and> (\<forall>i. Catalog_Model c i = map_of (sn_Models s) i)"
proof -
  have "distinct (map fst (sn_Models s))" using assms(2) by (simp add: snapshotKeys_def tbl_ok_def)
  moreover have "ct_connections c = sn_Connections s" "ct_aliases c = sn_Aliases s"
    using Compile_Snapshot_eq [OF assms] by (auto simp: Catalog_Snapshot_def)
  ultimately show ?thesis
    using assms by (simp add: Compile_Snapshot_eq Catalog_ModelFor_def Compile_index map_of_modelIndex
        Compile_unique Catalog_Connection_def Catalog_Targets_def)
qed

definition samplePolicy :: TenantPolicy where
  "samplePolicy = \<lparr>tp_AllowedOrigins = [], tp_MaxBodyBytes = 0, tp_MaxEventBytes = 0\<rparr>"

definition sampleConnection :: "string \<Rightarrow> Connection" where
  "sampleConnection i = \<lparr>cn_TenantID = ''t'', cn_ID = i, cn_Connector = ''openai'',
     cn_AccountID = ''acct'', cn_BaseURL = '''', cn_Region = ''eu'', cn_Project = '''', cn_Version = 1,
     cn_Dedicated = False, cn_Settings = [(''provider'', ''azure'')], cn_ClientProfile = None\<rparr>"

definition sampleModel :: "string \<Rightarrow> string \<Rightarrow> Model" where
  "sampleModel i conn = \<lparr>md_ID = ''gpt'', md_CatalogID = i, md_ConnectionID = conn,
     md_Operations = [''chat''], md_InputModalities = [], md_OutputModalities = [],
     md_Features = [(''tools'', Supported)], md_ContextLimit = Some 1000, md_OutputLimit = Some 100,
     md_Provenance = '''', md_Version = 1, md_Price = None\<rparr>"

definition sampleTarget :: "string \<Rightarrow> string \<Rightarrow> int64 \<Rightarrow> int64 \<Rightarrow> RouteTarget" where
  "sampleTarget conn i prio weight = \<lparr>rt_ConnectionID = conn, rt_ModelID = i, rt_Priority = prio,
     rt_Weight = weight, rt_Region = ''''\<rparr>"

definition sampleSnapshot :: "string \<Rightarrow> RuntimeSnapshot" where
  "sampleSnapshot provider = \<lparr>sn_Revision = 7,
     sn_Connections = [(''c1'', sampleConnection ''c1''), (''c2'', sampleConnection ''c2'')],
     sn_Models = [(''m1'', sampleModel ''m1'' ''c1''), (''m2'', sampleModel ''m2'' ''c2'')],
     sn_Aliases = [(''fast'', [sampleTarget ''c1'' ''m1'' 0 3, sampleTarget ''c2'' ''m2'' 1 1])],
     sn_RoutePolicies = [(''fast'', \<lparr>rp_Residency = [''eu''], rp_Fallback = True,
        rp_AccountPoolID = ''pool'', rp_Affinity = True\<rparr>)],
     sn_AccountPools = [(''pool'', \<lparr>pl_Provider = provider, pl_AccountIDs = [''acct'']\<rparr>)],
     sn_Policy = samplePolicy\<rparr>"

lemmas snapshot_eval = sampleSnapshot_def sampleTarget_def sampleModel_def sampleConnection_def
  samplePolicy_def

lemmas compile_eval = snapshot_eval Compile_def compileConnection_def compileModel_def
  compileAlias_def compilePool_def compilePolicy_def emptyCatalog_def Let_def Validate_def
  connDisabled_def goIndex_def negativeOpt_def priceProblem_def checkTarget_def targetPair_def
  connectionOf_def checkAccount_def poolAccepts_def targetRegion_def Supported_def

lemma sampleSnapshot_compiles:
  "provider = ''openai'' \<or> provider = ''azure'' \<Longrightarrow> isOk (Compile (sampleSnapshot provider))"
  by (auto simp: compile_eval)

lemma sampleSnapshot_keys: "snapshotKeys (sampleSnapshot provider)"
  by (simp add: snapshotKeys_def tbl_ok_def sampleSnapshot_def)

theorem Compile_roundtrip_witness:
  "\<exists>c. Compile (sampleSnapshot ''openai'') = Inr c \<and> Catalog_Snapshot c = sampleSnapshot ''openai''
     \<and> Catalog_ModelFor c ''c2'' ''m2'' = Some (sampleModel ''m2'' ''c2'')
     \<and> Catalog_Connection c ''c1'' = Some (sampleConnection ''c1'') \<and> length (Catalog_Targets c ''fast'') = 2"
proof -
  obtain c where c: "Compile (sampleSnapshot ''openai'') = Inr c"
    using sampleSnapshot_compiles [of "''openai''"] by (auto simp: isOk_iff)
  have "map_of (sn_Models (sampleSnapshot ''openai'')) ''m2'' = Some (sampleModel ''m2'' ''c2'')"
    "md_ConnectionID (sampleModel ''m2'' ''c2'') = ''c2''"
    by (simp_all add: snapshot_eval)
  moreover have "map_of (sn_Connections (sampleSnapshot ''openai'')) ''c1'' = Some (sampleConnection ''c1'')"
    "map_of (sn_Aliases (sampleSnapshot ''openai'')) ''fast'' = Some [sampleTarget ''c1'' ''m1'' 0 3, sampleTarget ''c2'' ''m2'' 1 1]"
    by (simp_all add: sampleSnapshot_def)
  ultimately show ?thesis using Compile_roundtrip [OF c sampleSnapshot_keys] c by simp
qed

text \<open>
  C7: every reference of a compiled catalog resolves.  \<open>Compile\<close> only accepts snapshots in which
  connections and models are keyed by their own identifiers with valid profiles, limits and
  prices, each alias target names a model on its own enabled connection in a compatible region
  with a valid priority and a positive weight and no target twice, and each route policy names an
  existing alias whose targets all satisfy its residency list and belong to its account pool.
\<close>

theorem Compile_wellformed:
  assumes "Compile s = Inr c" "snapshotKeys s"
  shows "catalogOk c"
  using assms by (rule Compile_catalogOk)

theorem Compile_wellformed_witness:
  "\<exists>c. Compile (sampleSnapshot ''azure'') = Inr c \<and> catalogOk c"
proof -
  obtain c where c: "Compile (sampleSnapshot ''azure'') = Inr c"
    using sampleSnapshot_compiles [of "''azure''"] by (auto simp: isOk_iff)
  from Compile_wellformed [OF c sampleSnapshot_keys] c show ?thesis by blast
qed

end
