(* ===== verification/Routing.thy ===== *)
theory Routing
  imports Policy Catalog
begin

text \<open>
  \<open>internal/routing/routing.go\<close>: the selection of compatible targets for an alias.  Health is the
  interface value the router was built with (\<open>None\<close> for nil).  \<open>ctx n\<close> is what the \<open>n\<close>-th call of
  \<open>ctx.Err()\<close> reports and \<open>rnd n\<close> the \<open>n\<close>-th call of \<open>crypto/rand.Int\<close> with the default reader,
  which returns an integer below its bound or an error (\<open>randOk\<close>).  \<open>sort.SliceStable\<close> by
  priority is \<open>sort_key\<close>, which is stable.
\<close>

section \<open>Definitions\<close>

record Requirements =
  rq_Operation :: Operation
  rq_Features :: "string list"
  rq_InputModalities :: "string list"
  rq_OutputModalities :: "string list"
  rq_InputTokens :: "int64 option"
  rq_OutputTokens :: "int64 option"
  rq_Region :: string
  rq_Preferred :: "RouteTarget option"

type_synonym health = "HealthScope \<Rightarrow> RouteTarget \<Rightarrow> bool res"

definition TargetScope :: "RuntimeSnapshot \<Rightarrow> RouteTarget \<Rightarrow> HealthScope option" where
  "TargetScope s target =
     (if sn_Revision s < 0 \<or> rt_ConnectionID target = '''' \<or> rt_ModelID target = '''' then None
      else case map_of (sn_Connections s) (rt_ConnectionID target) of
        None \<Rightarrow> None
      | Some connection \<Rightarrow>
          if cn_ID connection \<noteq> rt_ConnectionID target \<or> cn_TenantID connection = '''' then None
          else case map_of (sn_Models s) (rt_ModelID target) of
            None \<Rightarrow> None
          | Some model \<Rightarrow>
              if md_ConnectionID model \<noteq> rt_ConnectionID target then None
              else Some \<lparr>hs_TenantID = cn_TenantID connection, hs_Revision = sn_Revision s\<rparr>)"

definition supports :: "Model \<Rightarrow> Requirements \<Rightarrow> bool" where
  "supports m req =
     (if rq_Operation req \<notin> set (md_Operations m) then False
      else if list_ex (\<lambda>f. f = '''' \<or> goIndex (md_Features m) f \<noteq> Supported) (rq_Features req) then False
      else if list_ex (\<lambda>x. x = '''' \<or> x \<notin> set (md_InputModalities m)) (rq_InputModalities req) then False
      else if list_ex (\<lambda>x. x = '''' \<or> x \<notin> set (md_OutputModalities m)) (rq_OutputModalities req) then False
      else if rq_InputTokens req \<noteq> None \<or> rq_OutputTokens req \<noteq> None then
        isOk (ValidateTokens (orZero (rq_InputTokens req)) (orZero (rq_OutputTokens req))
          (md_ContextLimit m) (md_OutputLimit m))
      else True)"

definition same :: "RouteTarget \<Rightarrow> RouteTarget \<Rightarrow> bool" where
  "same a b = (rt_ConnectionID a = rt_ConnectionID b \<and> rt_ModelID a = rt_ModelID b
     \<and> rt_Region a = rt_Region b)"

text \<open>The guards of the first loop of \<open>Order\<close> that lead to \<open>continue\<close>, before the health check.\<close>

definition compatible :: "RuntimeSnapshot \<Rightarrow> RoutePolicy \<Rightarrow> Requirements \<Rightarrow> RouteTarget \<Rightarrow> bool" where
  "compatible s p req t =
     (case map_of (sn_Connections s) (rt_ConnectionID t) of
        None \<Rightarrow> False
      | Some c \<Rightarrow>
          if connDisabled c then False
          else case map_of (sn_Models s) (rt_ModelID t) of
            None \<Rightarrow> False
          | Some m \<Rightarrow>
              if md_ConnectionID m \<noteq> rt_ConnectionID t \<or> \<not> supports m req then False
              else let region = (if rt_Region t = '''' then cn_Region c else rt_Region t) in
              if rt_Region t \<noteq> '''' \<and> cn_Region c \<noteq> '''' \<and> rt_Region t \<noteq> cn_Region c then False
              else if rq_Region req \<noteq> '''' \<and> region \<noteq> rq_Region req then False
              else if rp_Residency p \<noteq> [] \<and> region \<notin> set (rp_Residency p) then False
              else if rp_AccountPoolID p \<noteq> '''' then
                (case map_of (sn_AccountPools s) (rp_AccountPoolID p) of
                   None \<Rightarrow> False
                 | Some pool \<Rightarrow>
                     pl_Provider pool = cn_Connector c \<and> cn_AccountID c \<in> set (pl_AccountIDs pool))
              else True)"

definition healthOf :: "health \<Rightarrow> RuntimeSnapshot \<Rightarrow> RouteTarget \<Rightarrow> bool res" where
  "healthOf h s t = (case TargetScope s t of None \<Rightarrow> Inr True | Some scope \<Rightarrow> h scope t)"

fun eligibleLoop ::
  "RuntimeSnapshot \<Rightarrow> RoutePolicy \<Rightarrow> Requirements \<Rightarrow> health option \<Rightarrow> (nat \<Rightarrow> go_error option) \<Rightarrow> nat
   \<Rightarrow> RouteTarget list \<Rightarrow> RouteTarget list \<Rightarrow> RouteTarget list res" where
  "eligibleLoop s p req health ctx n [] eligible = Inr eligible"
| "eligibleLoop s p req health ctx n (t # ts) eligible =
     (if \<not> compatible s p req t then eligibleLoop s p req health ctx n ts eligible
      else if rt_Priority t < 0 \<or> rt_Weight t \<le> 0 then
        Inl (GoErr ''invalid route priority or weight'')
      else case health of
        None \<Rightarrow> eligibleLoop s p req health ctx n ts (eligible @ [t])
      | Some h \<Rightarrow>
          (let healthy = healthOf h s t in
           case ctx n of
             Some e \<Rightarrow> Inl e
           | None \<Rightarrow>
               if healthy = Inr False then eligibleLoop s p req health ctx (Suc n) ts eligible
               else eligibleLoop s p req health ctx (Suc n) ts (eligible @ [t])))"

text \<open>\<open>weightedIndex\<close>: the overflow-checked total, one random draw and the walk to the index.\<close>

fun weightTotal :: "RouteTarget list \<Rightarrow> int64 \<Rightarrow> int64 res" where
  "weightTotal [] tot = Inr tot"
| "weightTotal (x # xs) tot =
     (if rt_Weight x \<le> 0 \<or> rt_Weight x > wrap64 (maxInt64 - tot) then
        Inl (GoErr ''route weight overflow'')
      else weightTotal xs (wrap64 (tot + rt_Weight x)))"

fun pickIndex :: "RouteTarget list \<Rightarrow> int64 \<Rightarrow> nat option" where
  "pickIndex [] pick = None"
| "pickIndex (x # xs) pick =
     (if pick < rt_Weight x then Some 0
      else map_option Suc (pickIndex xs (wrap64 (pick - rt_Weight x))))"

definition weightedIndex :: "(int64 \<Rightarrow> int64 res) \<Rightarrow> RouteTarget list \<Rightarrow> nat res" where
  "weightedIndex rand xs =
     bindR (weightTotal xs 0) (\<lambda>tot.
     case rand tot of
       Inl e \<Rightarrow> Inl (GoErr ''weighted selection'')
     | Inr pick \<Rightarrow>
         (case pickIndex xs pick of
            None \<Rightarrow> Inl (GoErr ''weighted selection exhausted'')
          | Some i \<Rightarrow> Inr i))"

definition removeAt :: "nat \<Rightarrow> 'a list \<Rightarrow> 'a list" where
  "removeAt i xs = take i xs @ drop (Suc i) xs"

lemma pickIndex_less: "pickIndex xs pick = Some i \<Longrightarrow> i < length xs"
  by (induction xs pick arbitrary: i rule: pickIndex.induct) (auto split: if_splits)

lemma weightedIndex_less: "weightedIndex rand xs = Inr i \<Longrightarrow> i < length xs"
  by (auto simp: weightedIndex_def bindR_Inr pickIndex_less split: sum.splits option.splits)

text \<open>
  The inner loop over one tier: the targets ordered so far, the number of draws made, and whether
  the loop returned from \<open>Order\<close>.
\<close>

function tierLoop ::
  "bool \<Rightarrow> (nat \<Rightarrow> int64 \<Rightarrow> int64 res) \<Rightarrow> nat \<Rightarrow> RouteTarget list \<Rightarrow> RouteTarget list
   \<Rightarrow> (RouteTarget list \<times> nat \<times> bool) res" where
  "tierLoop fallback rnd n ordered tier =
     (if tier = [] then Inr (ordered, n, False)
      else if ordered \<noteq> [] \<and> \<not> fallback then Inr (take 1 ordered, n, True)
      else case weightedIndex (rnd n) tier of
        Inl e \<Rightarrow> Inl e
      | Inr i \<Rightarrow> tierLoop fallback rnd (Suc n) (ordered @ [tier ! i]) (removeAt i tier))"
  by pat_completeness auto
termination
  by (relation "measure (\<lambda>(_, _, _, _, tier). length tier)")
    (auto simp: removeAt_def dest: weightedIndex_less)

declare tierLoop.simps [simp del]

fun preferFirst :: "RouteTarget \<Rightarrow> RouteTarget list \<Rightarrow> (RouteTarget \<times> RouteTarget list) option" where
  "preferFirst q [] = None"
| "preferFirst q (t # tier) =
     (if same t q then Some (t, tier)
      else map_option (\<lambda>(u, rest). (u, t # rest)) (preferFirst q tier))"

definition applyAffinity ::
  "RoutePolicy \<Rightarrow> Requirements \<Rightarrow> RouteTarget list \<Rightarrow> RouteTarget list
   \<Rightarrow> RouteTarget list \<times> RouteTarget list" where
  "applyAffinity p req ordered tier =
     (if ordered = [] \<and> rp_Affinity p then
        (case rq_Preferred req of
           None \<Rightarrow> (ordered, tier)
         | Some q \<Rightarrow>
             (case preferFirst q tier of
                None \<Rightarrow> (ordered, tier)
              | Some (t, rest) \<Rightarrow> (ordered @ [t], rest)))
      else (ordered, tier))"

function tiersLoop ::
  "RoutePolicy \<Rightarrow> Requirements \<Rightarrow> (nat \<Rightarrow> int64 \<Rightarrow> int64 res) \<Rightarrow> nat \<Rightarrow> RouteTarget list
   \<Rightarrow> RouteTarget list \<Rightarrow> RouteTarget list res" where
  "tiersLoop p req rnd n ordered eligible =
     (if eligible = [] then Inr ordered
      else
        let inTier = (\<lambda>t. rt_Priority t = rt_Priority (hd eligible));
            (ordered1, tier) = applyAffinity p req ordered (takeWhile inTier eligible)
        in case tierLoop (rp_Fallback p) rnd n ordered1 tier of
             Inl e \<Rightarrow> Inl e
           | Inr (ordered2, n2, returned) \<Rightarrow>
               if returned then Inr ordered2
               else if \<not> rp_Fallback p then Inr (take 1 ordered2)
               else tiersLoop p req rnd n2 ordered2 (dropWhile inTier eligible))"
  by pat_completeness auto
termination
proof (relation "measure (\<lambda>(_, _, _, _, _, eligible). length eligible)", goal_cases)
  case (2 p req rnd n ordered eligible)
  then obtain e es where e: "eligible = e # es" by (cases eligible) auto
  have "length (dropWhile (\<lambda>t. rt_Priority t = rt_Priority e) es) \<le> length es"
    by (rule length_dropWhile_le)
  then show ?case by (simp add: e 2)
qed simp

declare tiersLoop.simps [simp del]

definition routePolicy :: "RuntimeSnapshot \<Rightarrow> string \<Rightarrow> RoutePolicy" where
  "routePolicy s alias =
     (case map_of (sn_RoutePolicies s) alias of
        Some p \<Rightarrow> p
      | None \<Rightarrow> \<lparr>rp_Residency = [], rp_Fallback = False, rp_AccountPoolID = '''', rp_Affinity = False\<rparr>)"

definition aliasTargets :: "RuntimeSnapshot \<Rightarrow> string \<Rightarrow> RouteTarget list" where
  "aliasTargets s alias = (case map_of (sn_Aliases s) alias of None \<Rightarrow> [] | Some ts \<Rightarrow> ts)"

definition Order ::
  "(nat \<Rightarrow> go_error option) \<Rightarrow> (nat \<Rightarrow> int64 \<Rightarrow> int64 res) \<Rightarrow> RuntimeSnapshot \<Rightarrow> string \<Rightarrow> Requirements
   \<Rightarrow> health option \<Rightarrow> RouteTarget list res" where
  "Order ctx rnd s alias req health =
     (if alias = '''' \<or> rq_Operation req = '''' then
        Inl (GoErr ''alias and operation are required'')
      else case ctx 0 of
        Some e \<Rightarrow> Inl e
      | None \<Rightarrow>
          bindR (eligibleLoop s (routePolicy s alias) req health ctx 1 (aliasTargets s alias) [])
            (\<lambda>eligible.
             if eligible = [] then Inl (GoErr ''no healthy compatible target for alias'')
             else tiersLoop (routePolicy s alias) req rnd 0 [] (sort_key rt_Priority eligible)))"

record ModelCall =
  mc_Connection :: "Connection option"
  mc_Model :: "Model option"
  mc_Alias :: string

definition Select ::
  "Catalog \<Rightarrow> (nat \<Rightarrow> go_error option) \<Rightarrow> (nat \<Rightarrow> int64 \<Rightarrow> int64 res) \<Rightarrow> string \<Rightarrow> Requirements
   \<Rightarrow> health option \<Rightarrow> ModelCall res" where
  "Select c ctx rnd alias req health =
     (let s = Catalog_Snapshot c in
      bindR (Order ctx rnd s alias req health) (\<lambda>targets.
      let t = targets ! 0 in
      Inr \<lparr>mc_Connection = map_of (sn_Connections s) (rt_ConnectionID t),
           mc_Model = map_of (sn_Models s) (rt_ModelID t), mc_Alias = alias\<rparr>))"

section \<open>Specification vocabulary\<close>

text \<open>\<open>eligible\<close> says which targets the loop keeps; \<open>randOk\<close> is the contract of \<open>rand.Int\<close>.\<close>

definition eligible ::
  "RuntimeSnapshot \<Rightarrow> RoutePolicy \<Rightarrow> Requirements \<Rightarrow> health option \<Rightarrow> RouteTarget \<Rightarrow> bool" where
  "eligible s p req health t \<longleftrightarrow>
     compatible s p req t \<and> (case health of None \<Rightarrow> True | Some h \<Rightarrow> healthOf h s t \<noteq> Inr False)"

definition randOk :: "(nat \<Rightarrow> int64 \<Rightarrow> int64 res) \<Rightarrow> bool" where
  "randOk rnd \<longleftrightarrow> (\<forall>n m. 0 < m \<longrightarrow> (\<exists>x. rnd n m = Inr x \<and> 0 \<le> x \<and> x < m))"

definition weightSum :: "RouteTarget list \<Rightarrow> int" where
  "weightSum ts = (\<Sum>t\<leftarrow>ts. rt_Weight t)"

definition weightsOk :: "RouteTarget list \<Rightarrow> bool" where
  "weightsOk ts \<longleftrightarrow> list_all (\<lambda>t. 0 < rt_Weight t) ts \<and> weightSum ts \<le> maxInt64"

section \<open>Lemmas\<close>

subsection \<open>Eligibility\<close>

lemma eligibleLoop_Inr:
  assumes "eligibleLoop s p req health ctx n ts el = Inr el'"
  shows "el' = el @ filter (eligible s p req health) ts"
  using assms
  by (induction s p req health ctx n ts el rule: eligibleLoop.induct)
    (auto simp: eligible_def Let_def split: if_splits option.splits)

lemma eligibleLoop_ok:
  assumes "\<And>k. ctx k = None" "list_all (\<lambda>t. 0 \<le> rt_Priority t \<and> 0 < rt_Weight t) ts"
  shows "eligibleLoop s p req health ctx n ts el = Inr (el @ filter (eligible s p req health) ts)"
  using assms
  by (induction s p req health ctx n ts el rule: eligibleLoop.induct)
    (auto simp: eligible_def Let_def split: option.splits)

subsection \<open>The weighted draw\<close>

lemma weightSum_simps [simp]:
  "weightSum [] = 0" "weightSum (t # ts) = rt_Weight t + weightSum ts"
  "weightSum (ts @ us) = weightSum ts + weightSum us"
  by (simp_all add: weightSum_def)

lemma weightSum_nonneg: "list_all (\<lambda>t. 0 < rt_Weight t) ts \<Longrightarrow> 0 \<le> weightSum ts"
  by (induction ts) auto

lemma weightSum_pos: "list_all (\<lambda>t. 0 < rt_Weight t) ts \<Longrightarrow> ts \<noteq> [] \<Longrightarrow> 0 < weightSum ts"
  using weightSum_nonneg by (cases ts) (auto simp: add_pos_nonneg)

lemma weightTotal_ok:
  assumes "list_all (\<lambda>t. 0 < rt_Weight t) xs" "0 \<le> tot" "tot + weightSum xs \<le> maxInt64"
  shows "weightTotal xs tot = Inr (tot + weightSum xs)"
  using assms
proof (induction xs arbitrary: tot)
  case (Cons x xs)
  from Cons.prems(1) have s: "0 \<le> weightSum xs" "0 < rt_Weight x" by (simp_all add: weightSum_nonneg)
  with Cons.prems have "wrap64 (maxInt64 - tot) = maxInt64 - tot" "wrap64 (tot + rt_Weight x) = tot + rt_Weight x"
    by (simp_all add: wrap64_nonneg)
  with Cons s show ?case by simp
qed simp

lemma pickIndex_range:
  assumes "list_all (\<lambda>t. 0 < rt_Weight t) xs" "0 \<le> pick" "pick \<le> maxInt64"
  shows "pickIndex xs pick = Some i \<longleftrightarrow>
    i < length xs \<and> weightSum (take i xs) \<le> pick \<and> pick < weightSum (take i xs) + rt_Weight (xs ! i)"
  using assms
proof (induction xs arbitrary: pick i)
  case (Cons x xs)
  have pos: "0 \<le> weightSum (take k xs)" for k
    using Cons.prems(1) by (intro weightSum_nonneg) (auto simp: list_all_iff dest: in_set_takeD)
  show ?case
  proof (cases "pick < rt_Weight x")
    case True
    with Cons.prems(2) pos [of "i - 1"] show ?thesis by (cases i) auto
  next
    case False
    then have "wrap64 (pick - rt_Weight x) = pick - rt_Weight x"
      using Cons.prems by (intro wrap64_nonneg) auto
    moreover have "a \<le> pick - rt_Weight x \<longleftrightarrow> rt_Weight x + a \<le> pick"
      "pick - rt_Weight x < a \<longleftrightarrow> pick < rt_Weight x + a" for a by linarith+
    ultimately show ?thesis
      using False Cons.IH [of "pick - rt_Weight x"] Cons.prems by (cases i) (simp_all add: add.assoc)
  qed
qed simp

lemma pickIndex_total:
  assumes "list_all (\<lambda>t. 0 < rt_Weight t) xs" "0 \<le> pick" "pick < weightSum xs" "pick \<le> maxInt64"
  shows "pickIndex xs pick \<noteq> None"
  using assms
proof (induction xs arbitrary: pick)
  case (Cons x xs)
  show ?case
  proof (cases "pick < rt_Weight x")
    case False
    then have "wrap64 (pick - rt_Weight x) = pick - rt_Weight x"
      using Cons.prems by (intro wrap64_nonneg) auto
    with False Cons show ?thesis by simp
  qed simp
qed simp

lemma weightedIndex_ok:
  assumes "weightsOk xs" "xs \<noteq> []" "randOk rnd"
  shows "\<exists>i. weightedIndex (rnd n) xs = Inr i \<and> i < length xs"
proof -
  from assms(1) have w: "list_all (\<lambda>t. 0 < rt_Weight t) xs" "weightSum xs \<le> maxInt64"
    by (simp_all add: weightsOk_def)
  from weightSum_pos [OF w(1) assms(2)] assms(3) obtain x
    where x: "rnd n (weightSum xs) = Inr x" "0 \<le> x" "x < weightSum xs"
    by (auto simp: randOk_def)
  with pickIndex_total [OF w(1)] w(2) obtain i where "pickIndex xs x = Some i" by fastforce
  with x weightTotal_ok [OF w(1), of 0] w(2) pickIndex_less show ?thesis
    by (auto simp: weightedIndex_def)
qed

subsection \<open>Tiers\<close>

lemma mset_removeAt: "i < length xs \<Longrightarrow> add_mset (xs ! i) (mset (removeAt i xs)) = mset xs"
  unfolding removeAt_def by (subst (3) id_take_nth_drop [of i xs]) simp_all

lemma weightsOk_removeAt: "weightsOk xs \<Longrightarrow> i < length xs \<Longrightarrow> weightsOk (removeAt i xs)"
proof -
  assume a: "weightsOk xs" "i < length xs"
  have "weightSum xs = weightSum (take i xs) + rt_Weight (xs ! i) + weightSum (drop (Suc i) xs)"
    by (subst id_take_nth_drop [OF a(2)]) simp
  moreover have "0 < rt_Weight (xs ! i)" using a by (simp add: weightsOk_def list_all_length)
  ultimately have "weightSum (removeAt i xs) \<le> weightSum xs" by (simp add: removeAt_def)
  then show ?thesis
    using a by (auto simp: weightsOk_def removeAt_def list_all_iff dest: in_set_takeD in_set_dropD)
qed

lemma tierLoop_fallback:
  assumes "tierLoop True rnd n ordered tier = Inr (ordered', n', returned)"
  shows "\<not> returned \<and> (\<exists>zs. ordered' = ordered @ zs \<and> mset zs = mset tier)"
  using assms
proof (induction True rnd n ordered tier rule: tierLoop.induct)
  case (1 rnd n ordered tier)
  show ?case
  proof (cases "tier = []")
    case True
    with "1.prems" show ?thesis by (simp add: tierLoop.simps)
  next
    case False
    with "1.prems" obtain i where i: "weightedIndex (rnd n) tier = Inr i"
      and rest: "tierLoop True rnd (Suc n) (ordered @ [tier ! i]) (removeAt i tier)
        = Inr (ordered', n', returned)"
      by (subst (asm) tierLoop.simps) auto
    from "1.hyps" [OF False _ i rest] obtain zs where "\<not> returned" "ordered' = ordered @ tier ! i # zs"
      "mset zs = mset (removeAt i tier)" by auto
    with mset_removeAt [OF weightedIndex_less [OF i]] show ?thesis
      by (intro conjI exI [of _ "tier ! i # zs"]) simp_all
  qed
qed

lemma tierLoop_single:
  assumes "tierLoop False rnd n ordered tier = Inr (ordered', n', returned)"
    "ordered \<noteq> [] \<or> tier \<noteq> []"
  shows "\<exists>t. take 1 ordered' = [t] \<and> (returned \<longrightarrow> ordered' = [t])
    \<and> (if ordered = [] then t \<in> set tier else t = hd ordered)"
proof -
  have nonempty: "\<exists>t. take 1 ordered' = [t] \<and> (returned \<longrightarrow> ordered' = [t]) \<and> t = hd ordered"
    if "tierLoop False rnd n ordered tier = Inr (ordered', n', returned)" "ordered \<noteq> []" for n ordered tier
    using that by (subst (asm) tierLoop.simps) (cases ordered; auto split: if_splits)
  show ?thesis
  proof (cases "ordered = []")
    case False
    with nonempty [OF assms(1)] show ?thesis by simp
  next
    case True
    with assms obtain i where i: "weightedIndex (rnd n) tier = Inr i"
      and rest: "tierLoop False rnd (Suc n) [tier ! i] (removeAt i tier) = Inr (ordered', n', returned)"
      by (subst (asm) tierLoop.simps) auto
    from nonempty [OF rest] weightedIndex_less [OF i] True show ?thesis by auto
  qed
qed

lemma tierLoop_ok:
  assumes "weightsOk tier" "randOk rnd"
  shows "\<exists>r. tierLoop fallback rnd n ordered tier = Inr r"
  using assms
proof (induction fallback rnd n ordered tier rule: tierLoop.induct)
  case (1 fallback rnd n ordered tier)
  show ?case
  proof (cases "tier = [] \<or> ordered \<noteq> [] \<and> \<not> fallback")
    case True
    then show ?thesis by (subst tierLoop.simps) auto
  next
    case False
    with weightedIndex_ok [OF "1.prems"(1) _ "1.prems"(2)] obtain i
      where i: "weightedIndex (rnd n) tier = Inr i" "i < length tier" by blast
    with "1.IH" [of i] False "1.prems" weightsOk_removeAt show ?thesis
      by (subst tierLoop.simps) auto
  qed
qed

lemma preferFirst_Some:
  assumes "preferFirst q tier = Some (t, rest)"
  shows "same t q \<and> mset tier = add_mset t (mset rest)"
  using assms by (induction q tier arbitrary: t rest rule: preferFirst.induct) (auto split: if_splits)

lemma preferFirst_None: "preferFirst q tier = None \<longleftrightarrow> \<not> list_ex (\<lambda>t. same t q) tier"
  by (induction q tier rule: preferFirst.induct) auto

lemma applyAffinity_split:
  assumes "applyAffinity p req ordered tier = (ordered1, tier1)"
  shows "\<exists>us. ordered1 = ordered @ us \<and> mset us + mset tier1 = mset tier"
  using assms
  by (auto simp: applyAffinity_def dest!: preferFirst_Some split: if_splits option.splits)

lemma weightsOk_mset: "mset xs + mset ys = mset zs \<Longrightarrow> weightsOk zs \<Longrightarrow> weightsOk ys"
proof -
  assume a: "mset xs + mset ys = mset zs" "weightsOk zs"
  then have m: "mset (xs @ ys) = mset zs" by simp
  then have "set (xs @ ys) = set zs" by (rule mset_eq_setD)
  with a(2) have pos: "list_all (\<lambda>t. 0 < rt_Weight t) (xs @ ys)" by (auto simp: weightsOk_def list_all_iff)
  from m have "sum_list (map rt_Weight (xs @ ys)) = sum_list (map rt_Weight zs)"
    by (metis mset_map sum_mset_sum_list)
  then have "weightSum xs + weightSum ys = weightSum zs" by (simp add: weightSum_def)
  moreover have "0 \<le> weightSum xs" using pos by (intro weightSum_nonneg) simp
  ultimately show ?thesis using a(2) pos by (simp add: weightsOk_def)
qed

text \<open>One pass of the outer loop, with its tier.\<close>

definition tierOf :: "RouteTarget list \<Rightarrow> RouteTarget list" where
  "tierOf el = takeWhile (\<lambda>t. rt_Priority t = rt_Priority (hd el)) el"

definition restOf :: "RouteTarget list \<Rightarrow> RouteTarget list" where
  "restOf el = dropWhile (\<lambda>t. rt_Priority t = rt_Priority (hd el)) el"

lemma tierOf_restOf: "tierOf el @ restOf el = el"
  by (simp add: tierOf_def restOf_def)

lemma tierOf_nonempty: "el \<noteq> [] \<Longrightarrow> tierOf el \<noteq> []"
  by (cases el) (simp_all add: tierOf_def)

lemma restOf_length: "el \<noteq> [] \<Longrightarrow> length (restOf el) < length el"
  using tierOf_restOf [of el] tierOf_nonempty [of el]
  by (metis length_append length_greater_0_conv less_add_same_cancel2)

lemma tierOf_priority: "t \<in> set (tierOf el) \<Longrightarrow> rt_Priority t = rt_Priority (hd el)"
  by (auto simp: tierOf_def dest: set_takeWhileD)

lemma sorted_hd_le:
  assumes "sorted (map rt_Priority el)" "t \<in> set el"
  shows "rt_Priority (hd el) \<le> rt_Priority t"
  using assms by (cases el) auto

lemma sorted_same_key: "(\<And>t. t \<in> set xs \<Longrightarrow> f t = k) \<Longrightarrow> sorted (map f xs)"
  by (induction xs) auto

lemma sorted_tier:
  assumes "sorted (map rt_Priority el)" "t \<in> set el" "rt_Priority t = rt_Priority (hd el)"
  shows "t \<in> set (tierOf el)"
proof -
  have "t \<in> set (takeWhile (\<lambda>u. rt_Priority u = k) xs)"
    if "sorted (map rt_Priority xs)" "t \<in> set xs" "rt_Priority t = k"
      "\<And>u. u \<in> set xs \<Longrightarrow> k \<le> rt_Priority u" for k xs
    using that
  proof (induction xs)
    case (Cons x xs)
    have "rt_Priority x \<le> rt_Priority t" using Cons.prems(1,2) by auto
    with Cons.prems(3) Cons.prems(4) [of x] have "rt_Priority x = k" by simp
    with Cons show ?case by auto
  qed simp
  then show ?thesis using assms sorted_hd_le [OF assms(1)] unfolding tierOf_def by blast
qed

lemma sorted_restOf: "sorted (map rt_Priority el) \<Longrightarrow> sorted (map rt_Priority (restOf el))"
  by (metis map_append sorted_append tierOf_restOf)

lemma tiersLoop_unfold:
  "el \<noteq> [] \<Longrightarrow> tiersLoop p req rnd n ordered el =
     (case applyAffinity p req ordered (tierOf el) of (ordered1, tier) \<Rightarrow>
      case tierLoop (rp_Fallback p) rnd n ordered1 tier of
        Inl e \<Rightarrow> Inl e
      | Inr (ordered2, n2, returned) \<Rightarrow>
          if returned then Inr ordered2
          else if \<not> rp_Fallback p then Inr (take 1 ordered2)
          else tiersLoop p req rnd n2 ordered2 (restOf el))"
  unfolding tierOf_def restOf_def by (subst tiersLoop.simps) (simp add: Let_def)

lemma tiersLoop_step:
  assumes "tiersLoop p req rnd n ordered el = Inr ts" "el \<noteq> []"
  obtains us tier ordered2 n2 returned where
    "applyAffinity p req ordered (tierOf el) = (ordered @ us, tier)"
    "mset us + mset tier = mset (tierOf el)"
    "tierLoop (rp_Fallback p) rnd n (ordered @ us) tier = Inr (ordered2, n2, returned)"
    "if returned then ts = ordered2 else if rp_Fallback p
      then tiersLoop p req rnd n2 ordered2 (restOf el) = Inr ts else ts = take 1 ordered2"
proof -
  obtain ordered1 tier where af: "applyAffinity p req ordered (tierOf el) = (ordered1, tier)"
    by (meson surj_pair)
  from applyAffinity_split [OF this] obtain us
    where us: "ordered1 = ordered @ us" "mset us + mset tier = mset (tierOf el)" by blast
  from assms af obtain ordered2 n2 returned where
    "tierLoop (rp_Fallback p) rnd n ordered1 tier = Inr (ordered2, n2, returned)"
    "(if returned then Inr ordered2 else if \<not> rp_Fallback p then Inr (take 1 ordered2)
      else tiersLoop p req rnd n2 ordered2 (restOf el)) = Inr ts"
    by (auto simp: tiersLoop_unfold)
  with af us show thesis by (intro that [of us tier ordered2 n2 returned]) (auto split: if_splits)
qed

lemma tiersLoop_fallback:
  assumes "tiersLoop p req rnd n ordered el = Inr ts" "rp_Fallback p" "sorted (map rt_Priority el)"
  shows "\<exists>zs. ts = ordered @ zs \<and> mset zs = mset el \<and> sorted (map rt_Priority zs)"
  using assms
proof (induction "length el" arbitrary: n ordered el rule: less_induct)
  case less
  show ?case
  proof (cases "el = []")
    case True
    with less.prems(1) show ?thesis by (simp add: tiersLoop.simps)
  next
    case False
    from less.prems(1) False obtain us tier ordered2 n2 returned where
      us: "mset us + mset tier = mset (tierOf el)"
      and tl: "tierLoop (rp_Fallback p) rnd n (ordered @ us) tier = Inr (ordered2, n2, returned)"
      and rest: "if returned then ts = ordered2 else if rp_Fallback p
        then tiersLoop p req rnd n2 ordered2 (restOf el) = Inr ts else ts = take 1 ordered2"
      by (rule tiersLoop_step)
    from tierLoop_fallback [OF tl [unfolded less.prems(2) [THEN eqTrueI]]] obtain ws where
      ws: "\<not> returned" "ordered2 = ordered @ us @ ws" "mset ws = mset tier" by auto
    have len: "length (restOf el) < length el"
      by (rule restOf_length [OF False])
    from rest ws less.prems(2) have "tiersLoop p req rnd n2 ordered2 (restOf el) = Inr ts" by simp
    from less.hyps [OF len this less.prems(2) sorted_restOf [OF less.prems(3)]]
    obtain zs where zs: "ts = ordered2 @ zs" "mset zs = mset (restOf el)" "sorted (map rt_Priority zs)"
      by blast
    have m: "mset (us @ ws) = mset (tierOf el)" using us ws by simp
    then have tp: "t \<in> set (us @ ws) \<Longrightarrow> rt_Priority t = rt_Priority (hd el)" for t
      using tierOf_priority [of t el] by (metis mset_eq_setD)
    have zp: "t \<in> set zs \<Longrightarrow> rt_Priority (hd el) \<le> rt_Priority t" for t
      using sorted_hd_le [OF less.prems(3), of t] zs(2) tierOf_restOf [of el]
      by (metis Un_iff mset_eq_setD set_append)
    have "sorted (map rt_Priority (us @ ws @ zs))"
      using tp zp zs(3) sorted_same_key [of "us @ ws" rt_Priority "rt_Priority (hd el)"]
      by (auto simp: sorted_append)
    moreover have "mset (us @ ws @ zs) = mset el"
      using m zs(2) tierOf_restOf [of el] by (metis append.assoc mset_append)
    ultimately show ?thesis using zs(1) ws(2) by auto
  qed
qed

lemma tiersLoop_single:
  assumes "tiersLoop p req rnd n [] el = Inr ts" "\<not> rp_Fallback p" "el \<noteq> []"
  shows "\<exists>t\<in>set (tierOf el). ts = [t]"
proof -
  from assms(1,3) obtain us tier ordered2 n2 returned where
    us: "mset us + mset tier = mset (tierOf el)"
    and tl: "tierLoop (rp_Fallback p) rnd n ([] @ us) tier = Inr (ordered2, n2, returned)"
    and rest: "if returned then ts = ordered2 else if rp_Fallback p
        then tiersLoop p req rnd n2 ordered2 (restOf el) = Inr ts else ts = take 1 ordered2"
    by (rule tiersLoop_step)
  have s: "set us \<union> set tier = set (tierOf el)"
    using us by (metis mset_append mset_eq_setD set_append)
  then have "us \<noteq> [] \<or> tier \<noteq> []" using tierOf_nonempty [OF assms(3)] by auto
  with tierLoop_single [of rnd n us tier ordered2 n2 returned] tl assms(2) obtain t where
    t: "take 1 ordered2 = [t]" "returned \<longrightarrow> ordered2 = [t]"
    "if us = [] then t \<in> set tier else t = hd us" by auto
  have "t \<in> set (tierOf el)" using t(3) s by (cases us) auto
  moreover have "ts = [t]" using rest t assms(2) by (auto split: if_splits)
  ultimately show ?thesis by blast
qed

lemma tiersLoop_ok:
  assumes "weightsOk el" "randOk rnd"
  shows "\<exists>ts. tiersLoop p req rnd n ordered el = Inr ts"
  using assms
proof (induction "length el" arbitrary: n ordered el rule: less_induct)
  case less
  show ?case
  proof (cases "el = []")
    case True
    then show ?thesis by (simp add: tiersLoop.simps)
  next
    case False
    obtain ordered1 tier where af: "applyAffinity p req ordered (tierOf el) = (ordered1, tier)"
      by (meson surj_pair)
    then obtain us where "mset us + mset tier = mset (tierOf el)" by (blast dest: applyAffinity_split)
    then have "mset (us @ restOf el) + mset tier = mset el"
      using tierOf_restOf [of el] by (metis ab_semigroup_add_class.add.commute
        ab_semigroup_add_class.add.left_commute mset_append)
    from tierLoop_ok [OF weightsOk_mset [OF this less.prems(1)] less.prems(2)]
    obtain o2 n2 b where tl: "tierLoop (rp_Fallback p) rnd n ordered1 tier = Inr (o2, n2, b)"
      by (metis prod_cases3)
    have "length (restOf el) < length el"
      by (rule restOf_length [OF False])
    moreover have "mset (tierOf el) + mset (restOf el) = mset el"
      using tierOf_restOf [of el] by (metis mset_append)
    ultimately have "\<exists>ts. tiersLoop p req rnd n2 o2 (restOf el) = Inr ts"
      using less weightsOk_mset by blast
    then show ?thesis using False af tl by (simp add: tiersLoop_unfold)
  qed
qed

lemma tiersLoop_prefix:
  assumes "tiersLoop p req rnd n ordered el = Inr ts" "rp_Fallback p"
  shows "\<exists>ys. ts = ordered @ ys"
  using assms
proof (induction "length el" arbitrary: n ordered el rule: less_induct)
  case less
  show ?case
  proof (cases "el = []")
    case True
    with less.prems(1) show ?thesis by (simp add: tiersLoop.simps)
  next
    case False
    from less.prems(1) False obtain us tier o2 n2 b where
      tl: "tierLoop (rp_Fallback p) rnd n (ordered @ us) tier = Inr (o2, n2, b)"
      and rest: "if b then ts = o2 else if rp_Fallback p
        then tiersLoop p req rnd n2 o2 (restOf el) = Inr ts else ts = take 1 o2"
      by (rule tiersLoop_step)
    from tl less.prems(2) tierLoop_fallback [of rnd n "ordered @ us" tier o2 n2 b] obtain ws
      where "\<not> b" "o2 = ordered @ us @ ws" by auto
    with less.hyps [OF restOf_length [OF False]] rest less.prems(2) show ?thesis by fastforce
  qed
qed

lemma tiersLoop_affinity:
  assumes "tiersLoop p req rnd n [] el = Inr ts" "el \<noteq> []"
    and "rp_Affinity p" "rq_Preferred req = Some q" "list_ex (\<lambda>t. same t q) (tierOf el)"
  shows "ts \<noteq> [] \<and> same (hd ts) q"
proof -
  from assms(5) obtain t rest where pf: "preferFirst q (tierOf el) = Some (t, rest)"
    using preferFirst_None [of q "tierOf el"] by (cases "preferFirst q (tierOf el)") auto
  then have "same t q" by (blast dest: preferFirst_Some)
  from pf assms have af: "applyAffinity p req [] (tierOf el) = ([t], rest)"
    by (simp add: applyAffinity_def)
  from assms(1,2) af obtain o2 n2 b where tl: "tierLoop (rp_Fallback p) rnd n [t] rest = Inr (o2, n2, b)"
    and r: "(if b then Inr o2 else if \<not> rp_Fallback p then Inr (take 1 o2)
      else tiersLoop p req rnd n2 o2 (restOf el)) = Inr ts"
    by (auto simp: tiersLoop_unfold)
  have "\<exists>zs. ts = t # zs"
  proof (cases "rp_Fallback p")
    case False
    with tierLoop_single [of rnd n "[t]" rest o2 n2 b] tl
    have "take 1 o2 = [t]" "b \<longrightarrow> o2 = [t]" by auto
    with r False have "ts = [t]" by (cases b) simp_all
    then show ?thesis by simp
  next
    case True
    with tierLoop_fallback [of rnd n "[t]" rest o2 n2 b] tl obtain zs where "\<not> b" "o2 = t # zs" by auto
    then show ?thesis using r True tiersLoop_prefix by fastforce
  qed
  with \<open>same t q\<close> show ?thesis by auto
qed

lemma hd_sort_key_le:
  assumes "t \<in> set (tierOf (sort_key rt_Priority el))" "u \<in> set el"
  shows "rt_Priority t \<le> rt_Priority u"
  using tierOf_priority [OF assms(1)] sorted_hd_le [of "sort_key rt_Priority el" u] assms(2) by simp

lemma tierOf_subset: "set (tierOf el) \<subseteq> set el"
  by (auto simp: tierOf_def dest: set_takeWhileD)

lemma Order_Inr:
  assumes "Order ctx rnd s alias req health = Inr ts"
  shows "filter (eligible s (routePolicy s alias) req health) (aliasTargets s alias) \<noteq> []"
    and "tiersLoop (routePolicy s alias) req rnd 0 []
      (sort_key rt_Priority (filter (eligible s (routePolicy s alias) req health) (aliasTargets s alias)))
      = Inr ts"
  using assms by (auto simp: Order_def bindR_Inr dest!: eligibleLoop_Inr)

lemma sort_key_nonempty: "sort_key f xs \<noteq> [] \<longleftrightarrow> xs \<noteq> []"
  by (metis length_0_conv length_sort)

lemma weightsOk_filter: "weightsOk ts \<Longrightarrow> weightsOk (sort_key rt_Priority (filter P ts))"
proof -
  assume "weightsOk ts"
  moreover have "mset (filter (\<lambda>t. \<not> P t) ts) + mset (sort_key rt_Priority (filter P ts)) = mset ts"
    by (induction ts) auto
  ultimately show ?thesis using weightsOk_mset by blast
qed

section \<open>Properties\<close>

text \<open>
  C5: \<open>Order\<close> returns what its comment promises.  The result is drawn from exactly the eligible
  targets of the alias (compatible with the requirements, the region, the residency list and the
  account pool, and not reported unhealthy).  With fallback it is a permutation of them, grouped
  by ascending priority; without fallback it is one target of the lowest priority present.
\<close>

theorem Order_correct:
  assumes "Order ctx rnd s alias req health = Inr ts"
  shows "let p = routePolicy s alias; el = filter (eligible s p req health) (aliasTargets s alias) in
    if rp_Fallback p then mset ts = mset el \<and> sorted (map rt_Priority ts)
    else \<exists>t. ts = [t] \<and> t \<in> set el \<and> (\<forall>u. u \<in> set el \<longrightarrow> rt_Priority t \<le> rt_Priority u)"
proof -
  let ?p = "routePolicy s alias"
  let ?el = "filter (eligible s ?p req health) (aliasTargets s alias)"
  note o = Order_Inr [OF assms]
  have "mset ts = mset ?el \<and> sorted (map rt_Priority ts)" if "rp_Fallback ?p"
    using tiersLoop_fallback [OF o(2) that] by auto
  moreover have "\<exists>t. ts = [t] \<and> t \<in> set ?el \<and> (\<forall>u. u \<in> set ?el \<longrightarrow> rt_Priority t \<le> rt_Priority u)"
    if nf: "\<not> rp_Fallback ?p"
  proof -
    from tiersLoop_single [OF o(2) nf] o(1) obtain t
      where t: "t \<in> set (tierOf (sort_key rt_Priority ?el))" "ts = [t]"
      by (auto simp: sort_key_nonempty)
    with tierOf_subset [of "sort_key rt_Priority ?el"] hd_sort_key_le [OF t(1)] show ?thesis
      by (metis set_sort subsetD)
  qed
  ultimately show ?thesis by (simp add: Let_def)
qed

definition sampleRequirements :: Requirements where
  "sampleRequirements = \<lparr>rq_Operation = ''chat'', rq_Features = [''tools''], rq_InputModalities = [],
     rq_OutputModalities = [], rq_InputTokens = Some 10, rq_OutputTokens = Some 20,
     rq_Region = ''eu'', rq_Preferred = None\<rparr>"

lemmas order_eval = snapshot_eval sampleRequirements_def routePolicy_def aliasTargets_def
  compatible_def supports_def connDisabled_def goIndex_def Supported_def ValidateTokens_def
  orZero_def wrap64_def maxInt64_def Let_def

abbreviation lowDraw :: "nat \<Rightarrow> int64 \<Rightarrow> int64 res" where
  "lowDraw \<equiv> \<lambda>n m. Inr 0"

abbreviation running :: "nat \<Rightarrow> go_error option" where
  "running \<equiv> \<lambda>n. None"

lemma sampleOrder:
  "Order running lowDraw (sampleSnapshot ''openai'') ''fast'' sampleRequirements None
   = Inr [sampleTarget ''c1'' ''m1'' 0 3, sampleTarget ''c2'' ''m2'' 1 1]"
  by (simp add: Order_def order_eval tiersLoop.simps tierLoop.simps applyAffinity_def
      weightedIndex_def removeAt_def)

theorem Order_correct_witness:
  "\<exists>ts. Order running lowDraw (sampleSnapshot ''openai'') ''fast'' sampleRequirements None = Inr ts
     \<and> sorted (map rt_Priority ts) \<and> length ts = 2"
proof -
  have "rp_Fallback (routePolicy (sampleSnapshot ''openai'') ''fast'')"
    by (simp add: order_eval)
  with Order_correct [OF sampleOrder] have
    "sorted (map rt_Priority [sampleTarget ''c1'' ''m1'' 0 3, sampleTarget ''c2'' ''m2'' 1 1])"
    unfolding Let_def by (simp only: if_True)
  with sampleOrder show ?thesis by force
qed

text \<open>
  C6: routing over a compiled catalog never fails for a structural reason.  With a live context, a
  random source that keeps its contract, a nonempty operation, a snapshot whose tables are maps and alias weights whose sum fits an \<open>int64\<close>, \<open>Order\<close> on
  the snapshot of a compiled catalog succeeds exactly when some target of the alias is eligible:
  the errors about priorities, weights and exhausted selection cannot occur.
\<close>

theorem Order_total:
  assumes "Compile s0 = Inr c" "snapshotKeys s0"
    and "randOk rnd" "\<And>k. ctx k = None" "rq_Operation req \<noteq> ''''"
    and "weightSum (aliasTargets (Catalog_Snapshot c) alias) \<le> maxInt64"
  shows "isOk (Order ctx rnd (Catalog_Snapshot c) alias req health) \<longleftrightarrow>
    list_ex (eligible (Catalog_Snapshot c) (routePolicy (Catalog_Snapshot c) alias) req health)
      (aliasTargets (Catalog_Snapshot c) alias)"
proof -
  let ?s = "Catalog_Snapshot c"
  have ok: "catalogOk c" by (rule Compile_catalogOk [OF assms(1,2)])
  have ts: "list_all (targetOk c) (aliasTargets ?s alias) \<and> (aliasTargets ?s alias \<noteq> [] \<longrightarrow> alias \<noteq> '''')"
    using ok by (auto simp: aliasTargets_def Catalog_Snapshot_def catalogOk_def list_all_iff
        dest!: map_of_SomeD split: option.splits)
  then have pw: "list_all (\<lambda>t. 0 \<le> rt_Priority t \<and> 0 < rt_Weight t) (aliasTargets ?s alias)"
    by (auto simp: list_all_iff targetOk_def)
  then have w: "weightsOk (aliasTargets ?s alias)"
    using assms(6) by (auto simp: weightsOk_def list_all_iff)
  let ?el = "filter (eligible ?s (routePolicy ?s alias) req health) (aliasTargets ?s alias)"
  obtain ts where "tiersLoop (routePolicy ?s alias) req rnd 0 [] (sort_key rt_Priority ?el) = Inr ts"
    using tiersLoop_ok [OF weightsOk_filter [OF w] assms(3)] by blast
  then have "?el \<noteq> [] \<Longrightarrow> isOk (Order ctx rnd ?s alias req health)"
    using ts assms(4,5) by (auto simp: Order_def eligibleLoop_ok [OF assms(4) pw])
  moreover have "isOk (Order ctx rnd ?s alias req health) \<Longrightarrow> ?el \<noteq> []"
    using Order_Inr(1) by (auto simp: isOk_iff)
  ultimately show ?thesis by (auto simp: filter_empty_conv list_ex_iff)
qed

theorem Order_total_witness:
  "\<exists>c. Compile (sampleSnapshot ''openai'') = Inr c
     \<and> isOk (Order running lowDraw (Catalog_Snapshot c) ''fast'' sampleRequirements None)"
proof -
  obtain c where c: "Compile (sampleSnapshot ''openai'') = Inr c"
    using sampleSnapshot_compiles [of "''openai''"] by (auto simp: isOk_iff)
  have s: "Catalog_Snapshot c = sampleSnapshot ''openai''"
    by (rule Compile_Snapshot_eq [OF c sampleSnapshot_keys])
  have "isOk (Order running lowDraw (Catalog_Snapshot c) ''fast'' sampleRequirements None) \<longleftrightarrow>
    list_ex (eligible (Catalog_Snapshot c) (routePolicy (Catalog_Snapshot c) ''fast'')
      sampleRequirements None) (aliasTargets (Catalog_Snapshot c) ''fast'')"
    by (rule Order_total [OF c sampleSnapshot_keys])
      (simp_all add: s randOk_def order_eval)
  moreover have "list_ex (eligible (Catalog_Snapshot c) (routePolicy (Catalog_Snapshot c) ''fast'')
      sampleRequirements None) (aliasTargets (Catalog_Snapshot c) ''fast'')"
    by (simp add: s eligible_def order_eval)
  ultimately show ?thesis using c by blast
qed

text \<open>
  C17: the weighted draw is exactly proportional.  Over the \<open>weightSum\<close> equally likely integers
  that \<open>rand.Int\<close> can return, index \<open>i\<close> is chosen by as many of them as its weight.
\<close>

theorem weightedIndex_proportional:
  assumes "weightsOk xs" "i < length xs"
  shows "int (card {pick. 0 \<le> pick \<and> pick < weightSum xs
    \<and> weightedIndex (\<lambda>_. Inr pick) xs = Inr i}) = rt_Weight (xs ! i)"
proof -
  from assms(1) have w: "list_all (\<lambda>t. 0 < rt_Weight t) xs" "weightSum xs \<le> maxInt64"
    by (simp_all add: weightsOk_def)
  have split: "weightSum xs
      = weightSum (take i xs) + rt_Weight (xs ! i) + weightSum (drop (Suc i) xs)"
    by (subst id_take_nth_drop [OF assms(2)]) simp
  have nn: "0 \<le> weightSum (take i xs)" "0 \<le> weightSum (drop (Suc i) xs)" "0 < rt_Weight (xs ! i)"
    using w(1) assms(2) weightSum_nonneg [of "take i xs"] weightSum_nonneg [of "drop (Suc i) xs"]
    by (auto simp: list_all_iff dest: in_set_takeD in_set_dropD)
  have wi: "weightedIndex (\<lambda>_. Inr pick) xs = Inr i \<longleftrightarrow> pickIndex xs pick = Some i" for pick
    using weightTotal_ok [OF w(1), of 0] w(2) by (auto simp: weightedIndex_def)
  have "{pick. 0 \<le> pick \<and> pick < weightSum xs \<and> weightedIndex (\<lambda>_. Inr pick) xs = Inr i}
      = {weightSum (take i xs)..<weightSum (take i xs) + rt_Weight (xs ! i)}"
    using pickIndex_range [OF w(1)] w(2) assms(2) split nn by (auto simp: wi)
  then show ?thesis using nn by simp
qed

theorem weightedIndex_proportional_witness:
  "int (card {pick. 0 \<le> pick \<and> pick < 5 \<and> weightedIndex (\<lambda>_. Inr pick)
     [sampleTarget ''c1'' ''m1'' 0 3, sampleTarget ''c2'' ''m2'' 0 2] = Inr 1}) = (2::int64)"
  using weightedIndex_proportional [of "[sampleTarget ''c1'' ''m1'' 0 3, sampleTarget ''c2'' ''m2'' 0 2]" 1]
  by (simp add: weightsOk_def sampleTarget_def maxInt64_def)

text \<open>
  affinity is honoured within the first tier.  When the policy has affinity and the preferred
  target is among the eligible targets of lowest priority, it is returned first.
\<close>

theorem Order_affinity:
  assumes "Order ctx rnd s alias req health = Inr ts"
    and "rp_Affinity (routePolicy s alias)" "rq_Preferred req = Some q"
    and "t \<in> set (aliasTargets s alias)" "eligible s (routePolicy s alias) req health t" "same t q"
    and "\<And>u. u \<in> set (aliasTargets s alias) \<Longrightarrow> eligible s (routePolicy s alias) req health u
      \<Longrightarrow> rt_Priority t \<le> rt_Priority u"
  shows "same (hd ts) q"
proof -
  let ?el = "filter (eligible s (routePolicy s alias) req health) (aliasTargets s alias)"
  let ?so = "sort_key rt_Priority ?el"
  note o = Order_Inr [OF assms(1)]
  have ne: "?so \<noteq> []" using o(1) by (simp add: sort_key_nonempty)
  have t: "t \<in> set ?so" using assms(4,5) by simp
  have "hd ?so \<in> set ?so" by (rule hd_in_set [OF ne])
  with sorted_hd_le [OF sorted_sort_key t] assms(7) have "rt_Priority t = rt_Priority (hd ?so)"
    by (fastforce intro: order.antisym)
  then have "t \<in> set (tierOf ?so)"
    using t sorted_tier [of ?so t] by simp
  then have "list_ex (\<lambda>t. same t q) (tierOf ?so)" using assms(6) by (auto simp: list_ex_iff)
  from tiersLoop_affinity [OF o(2) ne assms(2,3) this] show ?thesis by simp
qed

theorem Order_affinity_witness:
  "\<exists>ts. Order running lowDraw (sampleSnapshot ''openai'') ''fast''
       (sampleRequirements\<lparr>rq_Preferred := Some (sampleTarget ''c1'' ''m1'' 9 9)\<rparr>) None = Inr ts
     \<and> same (hd ts) (sampleTarget ''c1'' ''m1'' 9 9)"
proof -
  let ?req = "sampleRequirements\<lparr>rq_Preferred := Some (sampleTarget ''c1'' ''m1'' 9 9)\<rparr>"
  have o: "Order running lowDraw (sampleSnapshot ''openai'') ''fast'' ?req None
     = Inr [sampleTarget ''c1'' ''m1'' 0 3, sampleTarget ''c2'' ''m2'' 1 1]"
    by (simp add: Order_def order_eval tiersLoop.simps tierLoop.simps applyAffinity_def
        weightedIndex_def removeAt_def same_def)
  have "same (hd [sampleTarget ''c1'' ''m1'' 0 3, sampleTarget ''c2'' ''m2'' 1 1])
      (sampleTarget ''c1'' ''m1'' 9 9)"
    by (rule Order_affinity [OF o, where t = "sampleTarget ''c1'' ''m1'' 0 3"])
      (auto simp: order_eval eligible_def same_def)
  with o show ?thesis by blast
qed

text \<open>
  C40: a catalog that compiles can be unroutable.  \<open>Compile\<close> accepts an account pool whose provider
  is the \<open>provider\<close> setting of a connection, but \<open>Order\<close> compares the pool's provider with the
  connector only: for such a catalog every request on the alias fails, whatever the requirements,
  the health reports and the random draws are.
\<close>

theorem pool_provider_mismatch:
  "\<exists>c. Compile (sampleSnapshot ''azure'') = Inr c
     \<and> (\<forall>rnd req health. Order running rnd (Catalog_Snapshot c) ''fast'' req health
          = Inl (GoErr (if rq_Operation req = '''' then ''alias and operation are required''
              else ''no healthy compatible target for alias'')))"
proof -
  obtain c where c: "Compile (sampleSnapshot ''azure'') = Inr c"
    using sampleSnapshot_compiles [of "''azure''"] by (auto simp: isOk_iff)
  have s: "Catalog_Snapshot c = sampleSnapshot ''azure''"
    by (rule Compile_Snapshot_eq [OF c sampleSnapshot_keys])
  have "\<not> compatible (sampleSnapshot ''azure'') (routePolicy (sampleSnapshot ''azure'') ''fast'') req t"
    for req t
    by (auto simp: compatible_def snapshot_eval routePolicy_def Let_def split: option.splits if_splits)
  then have "eligibleLoop (sampleSnapshot ''azure'') (routePolicy (sampleSnapshot ''azure'') ''fast'')
      req health running n ts [] = Inr []" for req health n ts
    by (induction ts) auto
  then have "Order running rnd (Catalog_Snapshot c) ''fast'' req health
          = Inl (GoErr (if rq_Operation req = '''' then ''alias and operation are required''
              else ''no healthy compatible target for alias''))" for rnd req health
    by (simp add: Order_def s)
  with c show ?thesis by blast
qed

end
