(* ===== verification/Go_Numbers.thy ===== *)
theory Go_Numbers
  imports Go_Strings
begin

text \<open>
  \<open>strconv.FormatInt\<close> in base ten and its inverse on digit strings, with the two facts that keys
  built from numbers rely on: formatting is injective and writes only digits and a sign.
\<close>

definition digitChar :: "nat \<Rightarrow> char" where
  "digitChar n = char_of (48 + n)"

fun formatNat :: "nat \<Rightarrow> string" where
  "formatNat n = (if n < 10 then [digitChar n] else formatNat (n div 10) @ [digitChar (n mod 10)])"

declare formatNat.simps [simp del]

definition formatInt :: "int \<Rightarrow> string" where
  "formatInt i = (if i < 0 then CHR ''-'' # formatNat (nat (- i)) else formatNat (nat i))"

definition digitValue :: "char \<Rightarrow> nat" where
  "digitValue c = byteOf c - 48"

definition parseNat :: "string \<Rightarrow> nat" where
  "parseNat s = foldl (\<lambda>a c. 10 * a + digitValue c) 0 s"

definition isDigit :: "char \<Rightarrow> bool" where
  "isDigit c = inByte 48 57 c"

text \<open>\<open>fmt.Sprintf\<close> with \<open>%0wd\<close> on a natural number.\<close>

definition zeroPad :: "nat \<Rightarrow> nat \<Rightarrow> string" where
  "zeroPad w n = replicate (w - length (formatNat n)) (CHR ''0'') @ formatNat n"

lemma byteOf_digitChar: "n < 10 \<Longrightarrow> byteOf (digitChar n) = 48 + n"
  by (simp add: digitChar_def byteOf_char_of)

lemma digitValue_digitChar [simp]: "n < 10 \<Longrightarrow> digitValue (digitChar n) = n"
  by (simp add: digitValue_def byteOf_digitChar)

lemma formatNat_digits: "list_all isDigit (formatNat n)"
proof (induction n rule: formatNat.induct)
  case (1 n)
  have d: "isDigit (digitChar k)" if "k < 10" for k
    using that by (simp add: isDigit_def inByte_def byteOf_digitChar)
  show ?case using 1 by (subst formatNat.simps) (simp add: d)
qed

lemma formatNat_nonempty [simp]: "formatNat n \<noteq> []"
  by (subst formatNat.simps) simp

lemma parseNat_formatNat [simp]: "parseNat (formatNat n) = n"
proof (induction n rule: formatNat.induct)
  case (1 n)
  show ?case
  proof (cases "n < 10")
    case True
    then show ?thesis by (simp add: formatNat.simps parseNat_def)
  next
    case False
    with 1 have "parseNat (formatNat (n div 10)) = n div 10" by simp
    with False show ?thesis by (subst formatNat.simps) (simp add: parseNat_def)
  qed
qed

lemma formatNat_inject [simp]: "formatNat m = formatNat n \<longleftrightarrow> m = n"
  by (metis parseNat_formatNat)

lemma digit_hd: "isDigit (hd (formatNat n))"
  using formatNat_digits [of n] by (cases "formatNat n") simp_all

lemma formatInt_inject [simp]: "formatInt i = formatInt j \<longleftrightarrow> i = j"
proof -
  have "formatNat n \<noteq> CHR ''-'' # s" for n s
    using digit_hd [of n] by (auto simp: isDigit_def inByte_def byteOf_def)
  then have "CHR ''-'' # s \<noteq> formatNat n" "formatNat n \<noteq> CHR ''-'' # s" for n s by metis+
  then show ?thesis by (auto simp: formatInt_def eq_nat_nat_iff)
qed

lemma formatInt_plain: "c \<in> set (formatInt i) \<Longrightarrow> c = CHR ''-'' \<or> isDigit c"
  using formatNat_digits by (auto simp: formatInt_def list_all_iff split: if_splits)

text \<open>Keys are joined with NUL bytes.  A field that has none can be cut off again.\<close>

definition nul :: char where
  "nul = char_of (0::nat)"

definition nulFree :: "string \<Rightarrow> bool" where
  "nulFree s = (nul \<notin> set s)"

lemma nulFree_simps [simp]: "nulFree []" "nulFree (c # s) \<longleftrightarrow> c \<noteq> nul \<and> nulFree s"
  by (auto simp: nulFree_def)

lemma byteOf_nul [simp]: "byteOf nul = 0"
  by (simp add: nul_def byteOf_def)

lemma eq_nul_iff: "c = nul \<longleftrightarrow> byteOf c = 0"
  by (metis byteOf_inject byteOf_nul)

lemma nulFree_formatInt [simp]: "nulFree (formatInt i)"
proof -
  have "nul \<noteq> CHR ''-''" by (simp flip: byteOf_inject) (simp add: byteOf_def)
  then show ?thesis
    by (auto simp: nulFree_def isDigit_def inByte_def dest!: formatInt_plain)
qed

lemma nul_cut:
  assumes "nulFree a" "nulFree b"
  shows "a @ nul # r = b @ nul # s \<longleftrightarrow> a = b \<and> r = s"
  using assms
proof (induction a arbitrary: b)
  case Nil
  then show ?case by (cases b) auto
next
  case (Cons c a)
  then show ?case by (cases b) auto
qed

end
