(* ===== verification/Coord.thy ===== *)
theory Coord
  imports Routing Go_Numbers
begin

text \<open>
  Disposable routing hints, from \<open>coord/coord.go\<close> and \<open>coord/redis.go\<close>: the in-process store
  \<open>Local\<close>, the store \<open>Remote\<close> over a backend, and \<open>Hybrid\<close>, which consults both.  A context
  is the error it reports (\<open>None\<close> while it is live) and the clock reading is an argument.  The
  backend is a parameter, a record of its three operations on an arbitrary world; the bytes it
  stores are represented by their two JSON decodings.  The two locales are the contract that
  \<open>core.ScopedRoutingHints\<close> documents, and the routing lemmas its clients rely on.
\<close>

section \<open>Local hints\<close>

definition ErrNotFound :: go_error where
  "ErrNotFound = Sentinel ''coordination hint not found''"

definition ErrScopeRequired :: go_error where
  "ErrScopeRequired = Sentinel ''coordination hint scope is required''"

definition MinHintTTL :: duration where
  "MinHintTTL = second"

definition MaxHintTTL :: duration where
  "MaxHintTTL = 5 * 60 * second"

definition boundTTL :: "duration \<Rightarrow> duration res" where
  "boundTTL ttl =
     (if ttl \<le> 0 then Inl (GoErr ''hint TTL must be positive'')
      else let ttl1 = (if ttl < MinHintTTL then MinHintTTL else ttl) in
           Inr (if ttl1 > MaxHintTTL then MaxHintTTL else ttl1))"

record hint =
  hi_healthy :: bool
  hi_expires :: time

record affinityHint =
  ah_target :: RouteTarget
  ah_expires :: time

record Local =
  lc_hints :: "(string, hint) table"
  lc_affinity :: "(string, affinityHint) table"

definition NewLocal :: Local where
  "NewLocal = \<lparr>lc_hints = [], lc_affinity = []\<rparr>"

definition validTarget :: "RouteTarget \<Rightarrow> bool" where
  "validTarget t = (rt_ConnectionID t \<noteq> '''' \<and> rt_ModelID t \<noteq> '''')"

definition targetKey :: "RouteTarget \<Rightarrow> string" where
  "targetKey t = rt_ConnectionID t @ nul # rt_ModelID t @ nul # rt_Region t"

definition scopedHealthKey :: "HealthScope \<Rightarrow> RouteTarget \<Rightarrow> string" where
  "scopedHealthKey scope target =
     hs_TenantID scope @ nul # formatInt (hs_Revision scope) @ nul # targetKey target"

definition scopedAffinityKey :: "HealthScope \<Rightarrow> string \<Rightarrow> string" where
  "scopedAffinityKey scope affinity =
     hs_TenantID scope @ nul # formatInt (hs_Revision scope) @ nul # affinity"

type_synonym ctx = "go_error option"

definition localSetScoped ::
  "ctx \<Rightarrow> time \<Rightarrow> HealthScope \<Rightarrow> RouteTarget \<Rightarrow> bool \<Rightarrow> duration \<Rightarrow> Local \<Rightarrow> unit res \<times> Local" where
  "localSetScoped ctx now scope target healthy ttl l =
     (case ctx of
        Some err \<Rightarrow> (Inl err, l)
      | None \<Rightarrow>
          if \<not> HealthScope_Valid scope then (Inl ErrScopeRequired, l)
          else if \<not> validTarget target then (Inl (GoErr ''target identity is required''), l)
          else case boundTTL ttl of
            Inl err \<Rightarrow> (Inl err, l)
          | Inr ttl \<Rightarrow>
              (Inr (), l\<lparr>lc_hints := AList.update (scopedHealthKey scope target)
                 \<lparr>hi_healthy = healthy, hi_expires = now + ttl\<rparr> (lc_hints l)\<rparr>))"

definition localHealthyScoped ::
  "ctx \<Rightarrow> time \<Rightarrow> HealthScope \<Rightarrow> RouteTarget \<Rightarrow> Local \<Rightarrow> bool res \<times> Local" where
  "localHealthyScoped ctx now scope target l =
     (case ctx of
        Some err \<Rightarrow> (Inl err, l)
      | None \<Rightarrow>
          if \<not> HealthScope_Valid scope \<or> \<not> validTarget target then (Inr True, l)
          else let k = scopedHealthKey scope target in
          case map_of (lc_hints l) k of
            None \<Rightarrow> (Inr True, l)
          | Some h \<Rightarrow>
              if \<not> now < hi_expires h then (Inr True, l\<lparr>lc_hints := AList.delete k (lc_hints l)\<rparr>)
              else (Inr (hi_healthy h), l))"

definition localGetAffinityScoped ::
  "ctx \<Rightarrow> time \<Rightarrow> HealthScope \<Rightarrow> string \<Rightarrow> Local \<Rightarrow> RouteTarget option res \<times> Local" where
  "localGetAffinityScoped ctx now scope affinity l =
     (case ctx of
        Some err \<Rightarrow> (Inl err, l)
      | None \<Rightarrow>
          if \<not> HealthScope_Valid scope \<or> affinity = '''' then (Inr None, l)
          else let k = scopedAffinityKey scope affinity in
          case map_of (lc_affinity l) k of
            None \<Rightarrow> (Inr None, l)
          | Some v \<Rightarrow>
              if \<not> now < ah_expires v then (Inr None, l\<lparr>lc_affinity := AList.delete k (lc_affinity l)\<rparr>)
              else (Inr (Some (ah_target v)), l))"

definition localSetAffinityScoped ::
  "ctx \<Rightarrow> time \<Rightarrow> HealthScope \<Rightarrow> string \<Rightarrow> RouteTarget \<Rightarrow> duration \<Rightarrow> Local \<Rightarrow> unit res \<times> Local" where
  "localSetAffinityScoped ctx now scope affinity target ttl l =
     (case ctx of
        Some err \<Rightarrow> (Inl err, l)
      | None \<Rightarrow>
          if \<not> HealthScope_Valid scope then (Inl ErrScopeRequired, l)
          else if affinity = '''' then (Inl (GoErr ''affinity key is required''), l)
          else if \<not> validTarget target then (Inl (GoErr ''target identity is required''), l)
          else case boundTTL ttl of
            Inl err \<Rightarrow> (Inl err, l)
          | Inr ttl \<Rightarrow>
              (Inr (), l\<lparr>lc_affinity := AList.update (scopedAffinityKey scope affinity)
                 \<lparr>ah_target = target, ah_expires = now + ttl\<rparr> (lc_affinity l)\<rparr>))"

section \<open>Remote hints\<close>

record healthPayload =
  hp_TenantID :: string
  hp_Revision :: int64
  hp_ConnectionID :: string
  hp_ModelID :: string
  hp_Region :: string
  hp_Healthy :: bool

record affinityPayload =
  af_TenantID :: string
  af_Revision :: int64
  af_Target :: RouteTarget

text \<open>
  A byte slice is represented by what the two payload types decode from it.  Both payloads are
  objects whose common fields are \<open>tenant_id\<close> and \<open>config_revision\<close>; the fields that a document
  lacks keep their zero value.
\<close>

record blob =
  bl_health :: "healthPayload option"
  bl_affinity :: "affinityPayload option"

definition zeroTarget :: RouteTarget where
  "zeroTarget = \<lparr>rt_ConnectionID = '''', rt_ModelID = '''', rt_Priority = 0, rt_Weight = 0, rt_Region = ''''\<rparr>"

definition marshalHealth :: "healthPayload \<Rightarrow> blob" where
  "marshalHealth p =
     (let q = p\<lparr>hp_TenantID := jsonText (hp_TenantID p), hp_ConnectionID := jsonText (hp_ConnectionID p),
                hp_ModelID := jsonText (hp_ModelID p), hp_Region := jsonText (hp_Region p)\<rparr> in
      \<lparr>bl_health = Some q,
       bl_affinity = Some \<lparr>af_TenantID = hp_TenantID q, af_Revision = hp_Revision q, af_Target = zeroTarget\<rparr>\<rparr>)"

definition marshalAffinity :: "affinityPayload \<Rightarrow> blob" where
  "marshalAffinity p =
     (let t = af_Target p;
          q = p\<lparr>af_TenantID := jsonText (af_TenantID p),
                af_Target := t\<lparr>rt_ConnectionID := jsonText (rt_ConnectionID t),
                               rt_ModelID := jsonText (rt_ModelID t), rt_Region := jsonText (rt_Region t)\<rparr>\<rparr> in
      \<lparr>bl_health = Some \<lparr>hp_TenantID = af_TenantID q, hp_Revision = af_Revision q, hp_ConnectionID = '''',
                        hp_ModelID = '''', hp_Region = '''', hp_Healthy = False\<rparr>,
       bl_affinity = Some q\<rparr>)"
record 'b Backend =
  be_Get :: "string \<Rightarrow> time \<Rightarrow> 'b \<Rightarrow> blob res"
  be_Set :: "string \<Rightarrow> blob \<Rightarrow> duration \<Rightarrow> time \<Rightarrow> 'b \<Rightarrow> unit res \<times> 'b"
  be_Publish :: "string \<Rightarrow> blob \<Rightarrow> 'b \<Rightarrow> unit res \<times> 'b"

record 'b Remote =
  rm_Backend :: "'b Backend option"
  rm_Prefix :: string
  rm_Channel :: string

definition remoteSetScoped ::
  "'b Remote \<Rightarrow> ctx \<Rightarrow> time \<Rightarrow> HealthScope \<Rightarrow> RouteTarget \<Rightarrow> bool \<Rightarrow> duration \<Rightarrow> 'b \<Rightarrow> unit res \<times> 'b" where
  "remoteSetScoped r ctx now scope target healthy ttl b =
     (case ctx of
        Some err \<Rightarrow> (Inl err, b)
      | None \<Rightarrow>
          if \<not> HealthScope_Valid scope then (Inl ErrScopeRequired, b)
          else if \<not> validTarget target then (Inl (GoErr ''target identity is required''), b)
          else case boundTTL ttl of
            Inl err \<Rightarrow> (Inl err, b)
          | Inr ttl \<Rightarrow>
          case rm_Backend r of
            None \<Rightarrow> (Inl (GoErr ''coordination backend is required''), b)
          | Some be \<Rightarrow>
          let payload = marshalHealth
                \<lparr>hp_TenantID = hs_TenantID scope, hp_Revision = hs_Revision scope,
                 hp_ConnectionID = rt_ConnectionID target, hp_ModelID = rt_ModelID target,
                 hp_Region = rt_Region target, hp_Healthy = healthy\<rparr> in
          case be_Set be (rm_Prefix r @ ''health/'' @ scopedHealthKey scope target) payload ttl now b of
            (Inl err, b1) \<Rightarrow> (Inl (GoErr ''store health hint''), b1)
          | (Inr _, b1) \<Rightarrow>
              if rm_Channel r \<noteq> '''' then
                (case be_Publish be (rm_Channel r) payload b1 of
                   (Inl err, b2) \<Rightarrow> (Inl (GoErr ''publish health hint''), b2)
                 | (Inr _, b2) \<Rightarrow> (Inr (), b2))
              else (Inr (), b1))"

definition remoteHealthyScoped ::
  "'b Remote \<Rightarrow> ctx \<Rightarrow> time \<Rightarrow> HealthScope \<Rightarrow> RouteTarget \<Rightarrow> 'b \<Rightarrow> bool res" where
  "remoteHealthyScoped r ctx now scope target b =
     (case rm_Backend r of
        None \<Rightarrow> Inr True
      | Some be \<Rightarrow>
      case ctx of
        Some err \<Rightarrow> Inl err
      | None \<Rightarrow>
          if \<not> HealthScope_Valid scope \<or> \<not> validTarget target then Inr True
          else case be_Get be (rm_Prefix r @ ''health/'' @ scopedHealthKey scope target) now b of
            Inl err \<Rightarrow> Inr True
          | Inr payload \<Rightarrow>
          case bl_health payload of
            None \<Rightarrow> Inr True
          | Some v \<Rightarrow>
              if hp_TenantID v \<noteq> hs_TenantID scope \<or> hp_Revision v \<noteq> hs_Revision scope
                 \<or> hp_ConnectionID v \<noteq> rt_ConnectionID target \<or> hp_ModelID v \<noteq> rt_ModelID target
                 \<or> hp_Region v \<noteq> rt_Region target then Inr True
              else Inr (hp_Healthy v))"

definition remoteGetAffinityScoped ::
  "'b Remote \<Rightarrow> ctx \<Rightarrow> time \<Rightarrow> HealthScope \<Rightarrow> string \<Rightarrow> 'b \<Rightarrow> RouteTarget option res" where
  "remoteGetAffinityScoped r ctx now scope affinity b =
     (case ctx of
        Some err \<Rightarrow> Inl err
      | None \<Rightarrow>
          if \<not> HealthScope_Valid scope \<or> affinity = '''' then Inr None
          else case rm_Backend r of
            None \<Rightarrow> Inr None
          | Some be \<Rightarrow>
          case be_Get be (rm_Prefix r @ ''affinity/'' @ scopedAffinityKey scope affinity) now b of
            Inl err \<Rightarrow> Inr None
          | Inr payload \<Rightarrow>
          case bl_affinity payload of
            None \<Rightarrow> Inr None
          | Some v \<Rightarrow>
              if af_TenantID v \<noteq> hs_TenantID scope \<or> af_Revision v \<noteq> hs_Revision scope
                 \<or> \<not> validTarget (af_Target v) then Inr None
              else Inr (Some (af_Target v)))"

definition remoteSetAffinityScoped ::
  "'b Remote \<Rightarrow> ctx \<Rightarrow> time \<Rightarrow> HealthScope \<Rightarrow> string \<Rightarrow> RouteTarget \<Rightarrow> duration \<Rightarrow> 'b \<Rightarrow> unit res \<times> 'b" where
  "remoteSetAffinityScoped r ctx now scope affinity target ttl b =
     (case ctx of
        Some err \<Rightarrow> (Inl err, b)
      | None \<Rightarrow>
          if \<not> HealthScope_Valid scope then (Inl ErrScopeRequired, b)
          else if affinity = '''' then (Inl (GoErr ''affinity key is required''), b)
          else if \<not> validTarget target then (Inl (GoErr ''target identity is required''), b)
          else case boundTTL ttl of
            Inl err \<Rightarrow> (Inl err, b)
          | Inr ttl \<Rightarrow>
          case rm_Backend r of
            None \<Rightarrow> (Inl (GoErr ''coordination backend is required''), b)
          | Some be \<Rightarrow>
              be_Set be (rm_Prefix r @ ''affinity/'' @ scopedAffinityKey scope affinity)
                (marshalAffinity \<lparr>af_TenantID = hs_TenantID scope, af_Revision = hs_Revision scope,
                                  af_Target = target\<rparr>) ttl now b)"

definition remotePublish :: "'b Remote \<Rightarrow> ctx \<Rightarrow> string \<Rightarrow> blob \<Rightarrow> 'b \<Rightarrow> unit res \<times> 'b" where
  "remotePublish r ctx channel value b =
     (case rm_Backend r of
        None \<Rightarrow> (Inl ErrNotFound, b)
      | Some be \<Rightarrow>
          if channel = '''' then (Inl (GoErr ''coordination channel is required''), b)
          else case ctx of
            Some err \<Rightarrow> (Inl err, b)
          | None \<Rightarrow> be_Publish be channel value b)"

text \<open>
  \<open>RedisBackend\<close> adapts a Redis client, which is third-party code: a parameter with the three
  commands.  \<open>redisNil\<close> is the client's answer for a missing key.
\<close>

record 'b UniversalClient =
  uc_Get :: "string \<Rightarrow> time \<Rightarrow> 'b \<Rightarrow> blob res"
  uc_Set :: "string \<Rightarrow> blob \<Rightarrow> duration \<Rightarrow> time \<Rightarrow> 'b \<Rightarrow> unit res \<times> 'b"
  uc_Publish :: "string \<Rightarrow> blob \<Rightarrow> 'b \<Rightarrow> unit res \<times> 'b"

definition redisNil :: go_error where
  "redisNil = Sentinel ''redis: nil''"

definition RedisBackend :: "'b UniversalClient option \<Rightarrow> 'b Backend" where
  "RedisBackend client =
     \<lparr>be_Get = (\<lambda>key now b. case client of
          None \<Rightarrow> Inl ErrNotFound
        | Some uc \<Rightarrow> (case uc_Get uc key now b of
            Inl err \<Rightarrow> Inl (if err = redisNil then ErrNotFound else err)
          | Inr v \<Rightarrow> Inr v)),
      be_Set = (\<lambda>key value ttl now b. case client of
          None \<Rightarrow> (Inl ErrNotFound, b)
        | Some uc \<Rightarrow> uc_Set uc key value ttl now b),
      be_Publish = (\<lambda>channel value b. case client of
          None \<Rightarrow> (Inl ErrNotFound, b)
        | Some uc \<Rightarrow> uc_Publish uc channel value b)\<rparr>"

section \<open>Hybrid hints\<close>

text \<open>
  The state of a \<open>Hybrid\<close> is the local store, which may be nil, and the world of the remote
  backend.  \<open>rctx\<close> is the state of the context derived with the remote timeout.
\<close>

type_synonym 'b hybrid = "Local option \<times> 'b"

definition hybridHealthyScoped ::
  "'b Remote option \<Rightarrow> ctx \<Rightarrow> ctx \<Rightarrow> time \<Rightarrow> HealthScope \<Rightarrow> RouteTarget \<Rightarrow> 'b hybrid \<Rightarrow> bool res \<times> 'b hybrid" where
  "hybridHealthyScoped remote rctx ctx now scope target st =
     (let (loc, b) = st;
          remoteRead = (case remote of
              None \<Rightarrow> Inr True
            | Some r \<Rightarrow> (case remoteHealthyScoped r rctx now scope target b of
                Inl err \<Rightarrow> Inr True
              | Inr healthy \<Rightarrow> Inr healthy)) in
      case loc of
        None \<Rightarrow> (remoteRead, st)
      | Some l \<Rightarrow>
          (case localHealthyScoped ctx now scope target l of
             (Inl err, l1) \<Rightarrow> (Inl err, (Some l1, b))
           | (Inr healthy, l1) \<Rightarrow>
               if \<not> healthy then (Inr False, (Some l1, b)) else (remoteRead, (Some l1, b))))"

definition hybridSetScoped ::
  "'b Remote option \<Rightarrow> ctx \<Rightarrow> ctx \<Rightarrow> time \<Rightarrow> HealthScope \<Rightarrow> RouteTarget \<Rightarrow> bool \<Rightarrow> duration \<Rightarrow> 'b hybrid
   \<Rightarrow> unit res \<times> 'b hybrid" where
  "hybridSetScoped remote rctx ctx now scope target healthy ttl st =
     (let (loc, b) = st in
      if \<not> HealthScope_Valid scope then (Inl ErrScopeRequired, st)
      else case loc of
        None \<Rightarrow> (Inl (GoErr ''local hint store is required''), st)
      | Some l \<Rightarrow>
          (case localSetScoped ctx now scope target healthy ttl l of
             (Inl err, l1) \<Rightarrow> (Inl err, (Some l1, b))
           | (Inr _, l1) \<Rightarrow>
               (Inr (), (Some l1, case remote of
                  None \<Rightarrow> b
                | Some r \<Rightarrow> snd (remoteSetScoped r rctx now scope target healthy ttl b)))))"

definition hybridGetAffinityScoped ::
  "'b Remote option \<Rightarrow> ctx \<Rightarrow> ctx \<Rightarrow> time \<Rightarrow> HealthScope \<Rightarrow> string \<Rightarrow> 'b hybrid
   \<Rightarrow> RouteTarget option res \<times> 'b hybrid" where
  "hybridGetAffinityScoped remote rctx ctx now scope affinity st =
     (let (loc, b) = st;
          remoteRead = (case remote of
              None \<Rightarrow> Inr None
            | Some r \<Rightarrow> (case remoteGetAffinityScoped r rctx now scope affinity b of
                Inl err \<Rightarrow> Inr None
              | Inr found \<Rightarrow> Inr found)) in
      case loc of
        None \<Rightarrow> (remoteRead, st)
      | Some l \<Rightarrow>
          (case localGetAffinityScoped ctx now scope affinity l of
             (Inl err, l1) \<Rightarrow> (Inl err, (Some l1, b))
           | (Inr (Some target), l1) \<Rightarrow> (Inr (Some target), (Some l1, b))
           | (Inr None, l1) \<Rightarrow> (remoteRead, (Some l1, b))))"

definition hybridSetAffinityScoped ::
  "'b Remote option \<Rightarrow> ctx \<Rightarrow> ctx \<Rightarrow> time \<Rightarrow> HealthScope \<Rightarrow> string \<Rightarrow> RouteTarget \<Rightarrow> duration \<Rightarrow> 'b hybrid
   \<Rightarrow> unit res \<times> 'b hybrid" where
  "hybridSetAffinityScoped remote rctx ctx now scope affinity target ttl st =
     (let (loc, b) = st in
      if \<not> HealthScope_Valid scope then (Inl ErrScopeRequired, st)
      else case loc of
        None \<Rightarrow> (Inl (GoErr ''local hint store is required''), st)
      | Some l \<Rightarrow>
          (case localSetAffinityScoped ctx now scope affinity target ttl l of
             (Inl err, l1) \<Rightarrow> (Inl err, (Some l1, b))
           | (Inr _, l1) \<Rightarrow>
               (Inr (), (Some l1, case remote of
                  None \<Rightarrow> b
                | Some r \<Rightarrow> snd (remoteSetAffinityScoped r rctx now scope affinity target ttl b)))))"

section \<open>The contract of routing hints\<close>

text \<open>
  \<open>core.ScopedRoutingHints\<close> asks implementations to fail open on invalid or unavailable reads, to
  reject writes whose scope is invalid and never to write an unscoped hint.  \<open>read_stable\<close> adds
  that reading is not observable, which is what lets the router take health as a function.
\<close>

locale scoped_hints =
  fixes healthy :: "ctx \<Rightarrow> time \<Rightarrow> HealthScope \<Rightarrow> RouteTarget \<Rightarrow> 's \<Rightarrow> bool res \<times> 's"
    and setHealth :: "ctx \<Rightarrow> time \<Rightarrow> HealthScope \<Rightarrow> RouteTarget \<Rightarrow> bool \<Rightarrow> duration \<Rightarrow> 's \<Rightarrow> unit res \<times> 's"
    and getAffinity :: "ctx \<Rightarrow> time \<Rightarrow> HealthScope \<Rightarrow> string \<Rightarrow> 's \<Rightarrow> RouteTarget option res \<times> 's"
    and setAffinity :: "ctx \<Rightarrow> time \<Rightarrow> HealthScope \<Rightarrow> string \<Rightarrow> RouteTarget \<Rightarrow> duration \<Rightarrow> 's \<Rightarrow> unit res \<times> 's"
  assumes healthy_open: "isOk (fst (healthy None now sc t s))"
    and affinity_open: "isOk (fst (getAffinity None now sc a s))"
    and healthy_unscoped: "\<not> HealthScope_Valid sc \<Longrightarrow> fst (healthy None now sc t s) = Inr True"
    and affinity_unscoped: "\<not> HealthScope_Valid sc \<Longrightarrow> fst (getAffinity None now sc a s) = Inr None"
    and setHealth_unscoped: "\<not> HealthScope_Valid sc \<Longrightarrow>
      \<not> isOk (fst (setHealth c now sc t h ttl s)) \<and> snd (setHealth c now sc t h ttl s) = s"
    and setAffinity_unscoped: "\<not> HealthScope_Valid sc \<Longrightarrow>
      \<not> isOk (fst (setAffinity c now sc a t ttl s)) \<and> snd (setAffinity c now sc a t ttl s) = s"
    and read_stable: "now \<le> now' \<Longrightarrow>
      fst (healthy c' now' sc' t' (snd (healthy c now sc t s))) = fst (healthy c' now' sc' t' s)"

text \<open>
  Isolation: a hint written under one tenant and revision is invisible under every other, and
  affinity writes are invisible to health reads.
\<close>

locale isolated_hints = scoped_hints +
  assumes setHealth_apart: "nulFree (hs_TenantID sc) \<Longrightarrow> nulFree (hs_TenantID sc') \<Longrightarrow> sc \<noteq> sc' \<Longrightarrow>
      fst (healthy c' now' sc' t' (snd (setHealth c now sc t h ttl s))) = fst (healthy c' now' sc' t' s)"
    and setAffinity_apart: "nulFree (hs_TenantID sc) \<Longrightarrow> nulFree (hs_TenantID sc') \<Longrightarrow> sc \<noteq> sc' \<Longrightarrow>
      fst (getAffinity c' now' sc' a' (snd (setAffinity c now sc a t ttl s))) = fst (getAffinity c' now' sc' a' s)"
    and setAffinity_health: "
      fst (healthy c' now' sc' t' (snd (setAffinity c now sc a t ttl s))) = fst (healthy c' now' sc' t' s)"

section \<open>Clients of the contract\<close>

lemma TargetScope_valid: "TargetScope s t = Some sc \<Longrightarrow> HealthScope_Valid sc \<and> validTarget t"
  by (auto simp: TargetScope_def HealthScope_Valid_def validTarget_def split: if_splits option.splits)

lemma TargetScope_tenant:
  "TargetScope s t = Some sc \<Longrightarrow>
    \<exists>c. (rt_ConnectionID t, c) \<in> set (sn_Connections s) \<and> hs_TenantID sc = cn_TenantID c"
  by (auto simp: TargetScope_def dest!: map_of_SomeD split: if_splits option.splits)

lemma eligibleLoop_health_cong:
  assumes "\<And>t. t \<in> set ts \<Longrightarrow> healthOf h s t = healthOf h' s t"
  shows "eligibleLoop s p req (Some h) ctx n ts el = eligibleLoop s p req (Some h') ctx n ts el"
  using assms
  by (induction ts arbitrary: n el) (auto simp: Let_def split: option.splits)

lemma Order_health_cong:
  assumes "\<And>t. t \<in> set (aliasTargets s alias) \<Longrightarrow> healthOf h s t = healthOf h' s t"
  shows "Order ctx rnd s alias req (Some h) = Order ctx rnd s alias req (Some h')"
proof -
  have "eligibleLoop s (routePolicy s alias) req (Some h) ctx 1 (aliasTargets s alias) []
    = eligibleLoop s (routePolicy s alias) req (Some h') ctx 1 (aliasTargets s alias) []"
    by (rule eligibleLoop_health_cong) (rule assms)
  then show ?thesis by (simp only: Order_def)
qed

definition tenantsNulFree :: "RuntimeSnapshot \<Rightarrow> bool" where
  "tenantsNulFree s = list_all (\<lambda>(k, c). nulFree (cn_TenantID c)) (sn_Connections s)"

context isolated_hints
begin

lemma routing_apart:
  assumes "tenantsNulFree s" "nulFree (hs_TenantID sc)"
    and "\<And>t. t \<in> set (aliasTargets s alias) \<Longrightarrow> TargetScope s t \<noteq> Some sc"
  shows "Order ctx rnd s alias req
      (Some (\<lambda>sc' t'. fst (healthy c' now' sc' t' (snd (setHealth c now sc t h ttl st)))))
    = Order ctx rnd s alias req (Some (\<lambda>sc' t'. fst (healthy c' now' sc' t' st)))"
proof (rule Order_health_cong)
  fix u
  assume u: "u \<in> set (aliasTargets s alias)"
  have "nulFree (hs_TenantID sc')" if "TargetScope s u = Some sc'" for sc'
    using TargetScope_tenant [OF that] assms(1) by (auto simp: tenantsNulFree_def list_all_iff)
  with assms(2) assms(3) [OF u]
  show "healthOf (\<lambda>sc' t'. fst (healthy c' now' sc' t' (snd (setHealth c now sc t h ttl st)))) s u
    = healthOf (\<lambda>sc' t'. fst (healthy c' now' sc' t' st)) s u"
    by (auto simp: healthOf_def setHealth_apart split: option.splits)
qed

lemma routing_affinity:
  "Order ctx rnd s alias req
      (Some (\<lambda>sc' t'. fst (healthy c' now' sc' t' (snd (setAffinity c now sc a t ttl st)))))
    = Order ctx rnd s alias req (Some (\<lambda>sc' t'. fst (healthy c' now' sc' t' st)))"
  by (simp add: setAffinity_health)

end

section \<open>Keys\<close>

lemma scopedHealthKey_scope:
  assumes "nulFree (hs_TenantID sc)" "nulFree (hs_TenantID sc')"
  shows "scopedHealthKey sc t = scopedHealthKey sc' t' \<longleftrightarrow> sc = sc' \<and> targetKey t = targetKey t'"
  using assms by (cases sc; cases sc') (simp add: scopedHealthKey_def nul_cut)

lemma scopedAffinityKey_scope:
  assumes "nulFree (hs_TenantID sc)" "nulFree (hs_TenantID sc')"
  shows "scopedAffinityKey sc a = scopedAffinityKey sc' a' \<longleftrightarrow> sc = sc' \<and> a = a'"
  using assms by (cases sc; cases sc') (simp add: scopedAffinityKey_def nul_cut)

lemma targetKey_inject:
  assumes "nulFree (rt_ConnectionID t)" "nulFree (rt_ConnectionID t')"
    "nulFree (rt_ModelID t)" "nulFree (rt_ModelID t')"
  shows "targetKey t = targetKey t' \<longleftrightarrow> same t t'"
  using assms by (auto simp: targetKey_def nul_cut same_def)

section \<open>Local hints keep the contract\<close>

lemma localHealthyScoped_value:
  "fst (localHealthyScoped ctx now sc t l) =
     (case ctx of Some e \<Rightarrow> Inl e
      | None \<Rightarrow> if \<not> HealthScope_Valid sc \<or> \<not> validTarget t then Inr True
          else case map_of (lc_hints l) (scopedHealthKey sc t) of
            None \<Rightarrow> Inr True
          | Some h \<Rightarrow> Inr (hi_healthy h \<or> hi_expires h \<le> now))"
  by (auto simp: localHealthyScoped_def Let_def split: option.splits)

lemma localGetAffinityScoped_value:
  "fst (localGetAffinityScoped ctx now sc a l) =
     (case ctx of Some e \<Rightarrow> Inl e
      | None \<Rightarrow> if \<not> HealthScope_Valid sc \<or> a = '''' then Inr None
          else case map_of (lc_affinity l) (scopedAffinityKey sc a) of
            None \<Rightarrow> Inr None
          | Some v \<Rightarrow> Inr (if ah_expires v \<le> now then None else Some (ah_target v)))"
  by (auto simp: localGetAffinityScoped_def Let_def split: option.splits)

lemma localHealthyScoped_state:
  "snd (localHealthyScoped ctx now sc t l) = l \<or>
   (\<exists>h. map_of (lc_hints l) (scopedHealthKey sc t) = Some h \<and> hi_expires h \<le> now
      \<and> snd (localHealthyScoped ctx now sc t l) = l\<lparr>lc_hints := AList.delete (scopedHealthKey sc t) (lc_hints l)\<rparr>)"
  by (auto simp: localHealthyScoped_def Let_def split: option.splits)

lemma localHealthyScoped_stable:
  assumes "now \<le> now'"
  shows "fst (localHealthyScoped c' now' sc' t' (snd (localHealthyScoped c now sc t l)))
    = fst (localHealthyScoped c' now' sc' t' l)"
  using localHealthyScoped_state [of c now sc t l] assms
  by (auto simp: localHealthyScoped_value split: option.splits if_splits)

lemma localSetScoped_cases:
  "(\<not> isOk (fst (localSetScoped c now sc t h ttl l)) \<and> snd (localSetScoped c now sc t h ttl l) = l) \<or>
   (\<exists>d. c = None \<and> HealthScope_Valid sc \<and> validTarget t \<and> boundTTL ttl = Inr d \<and>
      localSetScoped c now sc t h ttl l =
        (Inr (), l\<lparr>lc_hints := AList.update (scopedHealthKey sc t) \<lparr>hi_healthy = h, hi_expires = now + d\<rparr> (lc_hints l)\<rparr>))"
  by (auto simp: localSetScoped_def split: option.splits sum.splits)

lemma localSetAffinityScoped_cases:
  "(\<not> isOk (fst (localSetAffinityScoped c now sc a t ttl l)) \<and> snd (localSetAffinityScoped c now sc a t ttl l) = l) \<or>
   (\<exists>d. c = None \<and> HealthScope_Valid sc \<and> a \<noteq> '''' \<and> validTarget t \<and> boundTTL ttl = Inr d \<and>
      localSetAffinityScoped c now sc a t ttl l =
        (Inr (), l\<lparr>lc_affinity := AList.update (scopedAffinityKey sc a) \<lparr>ah_target = t, ah_expires = now + d\<rparr> (lc_affinity l)\<rparr>))"
  by (auto simp: localSetAffinityScoped_def split: option.splits sum.splits)

lemma localSetScoped_apart:
  assumes "nulFree (hs_TenantID sc)" "nulFree (hs_TenantID sc')" "sc \<noteq> sc'"
  shows "fst (localHealthyScoped c' now' sc' t' (snd (localSetScoped c now sc t h ttl l)))
    = fst (localHealthyScoped c' now' sc' t' l)"
  using localSetScoped_cases [of c now sc t h ttl l] scopedHealthKey_scope [OF assms(1,2), of t t'] assms(3)
  by (auto simp: localHealthyScoped_value split: option.splits)

lemma localSetAffinityScoped_apart:
  assumes "nulFree (hs_TenantID sc)" "nulFree (hs_TenantID sc')" "sc \<noteq> sc'"
  shows "fst (localGetAffinityScoped c' now' sc' a' (snd (localSetAffinityScoped c now sc a t ttl l)))
    = fst (localGetAffinityScoped c' now' sc' a' l)"
  using localSetAffinityScoped_cases [of c now sc a t ttl l] scopedAffinityKey_scope [OF assms(1,2), of a a'] assms(3)
  by (auto simp: localGetAffinityScoped_value split: option.splits)

lemma localSetAffinityScoped_health:
  "fst (localHealthyScoped c' now' sc' t' (snd (localSetAffinityScoped c now sc a t ttl l)))
    = fst (localHealthyScoped c' now' sc' t' l)"
  using localSetAffinityScoped_cases [of c now sc a t ttl l]
  by (auto simp: localHealthyScoped_value split: option.splits)

interpretation lh: isolated_hints localHealthyScoped localSetScoped localGetAffinityScoped localSetAffinityScoped
proof unfold_locales
  show "\<not> HealthScope_Valid sc \<Longrightarrow> \<not> isOk (fst (localSetScoped c now sc t h ttl l))
      \<and> snd (localSetScoped c now sc t h ttl l) = l" for c now sc t h ttl l
    using localSetScoped_cases [of c now sc t h ttl l] by auto
  show "\<not> HealthScope_Valid sc \<Longrightarrow> \<not> isOk (fst (localSetAffinityScoped c now sc a t ttl l))
      \<and> snd (localSetAffinityScoped c now sc a t ttl l) = l" for c now sc a t ttl l
    using localSetAffinityScoped_cases [of c now sc a t ttl l] by auto
qed (simp_all add: localHealthyScoped_stable localSetScoped_apart localSetAffinityScoped_apart
    localSetAffinityScoped_health, simp_all add: localHealthyScoped_value localGetAffinityScoped_value split: option.splits)

section \<open>Remote and hybrid hints keep the contract\<close>

lemma remoteHealthyScoped_open: "isOk (remoteHealthyScoped r None now sc t b)"
  by (auto simp: remoteHealthyScoped_def split: option.splits sum.splits)

lemma remoteHealthyScoped_unscoped:
  "\<not> HealthScope_Valid sc \<Longrightarrow> remoteHealthyScoped r None now sc t b = Inr True"
  by (auto simp: remoteHealthyScoped_def split: option.splits)

lemma remoteGetAffinityScoped_open: "isOk (remoteGetAffinityScoped r None now sc a b)"
  by (auto simp: remoteGetAffinityScoped_def split: option.splits sum.splits)

lemma remoteGetAffinityScoped_unscoped:
  "\<not> HealthScope_Valid sc \<Longrightarrow> remoteGetAffinityScoped r None now sc a b = Inr None"
  by (auto simp: remoteGetAffinityScoped_def split: option.splits)

lemma remoteSetScoped_unscoped:
  "\<not> HealthScope_Valid sc \<Longrightarrow> \<not> isOk (fst (remoteSetScoped r c now sc t h ttl b))
     \<and> snd (remoteSetScoped r c now sc t h ttl b) = b"
  by (auto simp: remoteSetScoped_def split: option.splits)

lemma remoteSetAffinityScoped_unscoped:
  "\<not> HealthScope_Valid sc \<Longrightarrow> \<not> isOk (fst (remoteSetAffinityScoped r c now sc a t ttl b))
     \<and> snd (remoteSetAffinityScoped r c now sc a t ttl b) = b"
  by (auto simp: remoteSetAffinityScoped_def split: option.splits)

interpretation rh: scoped_hints
    "\<lambda>c now sc t b. (remoteHealthyScoped r c now sc t b, b)" "remoteSetScoped r"
    "\<lambda>c now sc a b. (remoteGetAffinityScoped r c now sc a b, b)" "remoteSetAffinityScoped r"
  for r :: "'b Remote"
  by unfold_locales (simp_all add: remoteHealthyScoped_open remoteHealthyScoped_unscoped
      remoteGetAffinityScoped_open remoteGetAffinityScoped_unscoped remoteSetScoped_unscoped
      remoteSetAffinityScoped_unscoped)

text \<open>
  What a \<open>Hybrid\<close> read returns, with the local state it leaves; the remote world is only read.
\<close>

definition remoteHealth :: "'b Remote option \<Rightarrow> ctx \<Rightarrow> time \<Rightarrow> HealthScope \<Rightarrow> RouteTarget \<Rightarrow> 'b \<Rightarrow> bool" where
  "remoteHealth remote rctx now sc t b =
     (case remote of None \<Rightarrow> True
      | Some r \<Rightarrow> (case remoteHealthyScoped r rctx now sc t b of Inl _ \<Rightarrow> True | Inr v \<Rightarrow> v))"

lemma hybridHealthyScoped_value:
  "fst (hybridHealthyScoped remote rctx c now sc t (loc, b)) =
     (case loc of None \<Rightarrow> Inr (remoteHealth remote rctx now sc t b)
      | Some l \<Rightarrow> (case fst (localHealthyScoped c now sc t l) of Inl e \<Rightarrow> Inl e
          | Inr v \<Rightarrow> Inr (v \<and> remoteHealth remote rctx now sc t b)))"
  by (auto simp: hybridHealthyScoped_def remoteHealth_def Let_def split: option.splits sum.splits prod.splits)

lemma hybridHealthyScoped_state:
  "snd (hybridHealthyScoped remote rctx c now sc t (loc, b)) =
     (map_option (\<lambda>l. snd (localHealthyScoped c now sc t l)) loc, b)"
  by (auto simp: hybridHealthyScoped_def Let_def split: option.splits sum.splits prod.splits)

lemma hybridSetScoped_state:
  "snd (hybridSetScoped remote rctx c now sc t h ttl (loc, b)) =
     (map_option (\<lambda>l. snd (localSetScoped c now sc t h ttl l)) loc,
      if loc \<noteq> None \<and> isOk (fst (hybridSetScoped remote rctx c now sc t h ttl (loc, b))) then
        (case remote of None \<Rightarrow> b | Some r \<Rightarrow> snd (remoteSetScoped r rctx now sc t h ttl b))
      else b)"
  by (auto simp: hybridSetScoped_def localSetScoped_def Let_def split: option.splits sum.splits prod.splits)

lemma hybridSetAffinityScoped_state:
  "snd (hybridSetAffinityScoped remote rctx c now sc a t ttl (loc, b)) =
     (map_option (\<lambda>l. snd (localSetAffinityScoped c now sc a t ttl l)) loc,
      if loc \<noteq> None \<and> isOk (fst (hybridSetAffinityScoped remote rctx c now sc a t ttl (loc, b))) then
        (case remote of None \<Rightarrow> b | Some r \<Rightarrow> snd (remoteSetAffinityScoped r rctx now sc a t ttl b))
      else b)"
  by (auto simp: hybridSetAffinityScoped_def localSetAffinityScoped_def Let_def
      split: option.splits sum.splits prod.splits)

definition remoteAffinity ::
  "'b Remote option \<Rightarrow> ctx \<Rightarrow> time \<Rightarrow> HealthScope \<Rightarrow> string \<Rightarrow> 'b \<Rightarrow> RouteTarget option" where
  "remoteAffinity remote rctx now sc a b =
     (case remote of None \<Rightarrow> None
      | Some r \<Rightarrow> (case remoteGetAffinityScoped r rctx now sc a b of Inl _ \<Rightarrow> None | Inr v \<Rightarrow> v))"

lemma hybridGetAffinityScoped_value:
  "fst (hybridGetAffinityScoped remote rctx c now sc a (loc, b)) =
     (case loc of None \<Rightarrow> Inr (remoteAffinity remote rctx now sc a b)
      | Some l \<Rightarrow> (case fst (localGetAffinityScoped c now sc a l) of Inl e \<Rightarrow> Inl e
          | Inr None \<Rightarrow> Inr (remoteAffinity remote rctx now sc a b)
          | Inr (Some t) \<Rightarrow> Inr (Some t)))"
  by (auto simp: hybridGetAffinityScoped_def remoteAffinity_def Let_def split: option.splits sum.splits prod.splits)

lemma remoteHealth_unscoped: "\<not> HealthScope_Valid sc \<Longrightarrow> remoteHealth remote rctx now sc t b"
  by (auto simp: remoteHealth_def remoteHealthyScoped_def split: option.splits sum.splits)

lemma remoteAffinity_unscoped: "\<not> HealthScope_Valid sc \<Longrightarrow> remoteAffinity remote rctx now sc a b = None"
  by (auto simp: remoteAffinity_def remoteGetAffinityScoped_def split: option.splits sum.splits)

interpretation hh: scoped_hints
    "hybridHealthyScoped remote rctx" "hybridSetScoped remote rctx"
    "hybridGetAffinityScoped remote rctx" "hybridSetAffinityScoped remote rctx"
  for remote :: "'b Remote option" and rctx :: ctx
proof unfold_locales
  fix now now' :: time and sc sc' :: HealthScope and t t' :: RouteTarget and a :: string
    and c c' :: ctx and h :: bool and ttl :: duration and s :: "'b hybrid"
  obtain loc b where s: "s = (loc, b)" by (cases s)
  show "isOk (fst (hybridHealthyScoped remote rctx None now sc t s))"
    by (simp add: s hybridHealthyScoped_value localHealthyScoped_value split: option.splits)
  show "isOk (fst (hybridGetAffinityScoped remote rctx None now sc a s))"
    by (simp add: s hybridGetAffinityScoped_value localGetAffinityScoped_value split: option.splits)
  show "fst (hybridHealthyScoped remote rctx c' now' sc' t' (snd (hybridHealthyScoped remote rctx c now sc t s)))
      = fst (hybridHealthyScoped remote rctx c' now' sc' t' s)" if "now \<le> now'"
    using localHealthyScoped_stable [OF that]
    by (simp add: s hybridHealthyScoped_state hybridHealthyScoped_value split: option.splits)
  assume v: "\<not> HealthScope_Valid sc"
  show "fst (hybridHealthyScoped remote rctx None now sc t s) = Inr True"
    using v by (simp add: s hybridHealthyScoped_value localHealthyScoped_value remoteHealth_unscoped split: option.splits)
  show "fst (hybridGetAffinityScoped remote rctx None now sc a s) = Inr None"
    using v by (simp add: s hybridGetAffinityScoped_value localGetAffinityScoped_value remoteAffinity_unscoped split: option.splits)
  show "\<not> isOk (fst (hybridSetScoped remote rctx c now sc t h ttl s)) \<and> snd (hybridSetScoped remote rctx c now sc t h ttl s) = s"
    using v by (simp add: s hybridSetScoped_def)
  show "\<not> isOk (fst (hybridSetAffinityScoped remote rctx c now sc a t ttl s))
      \<and> snd (hybridSetAffinityScoped remote rctx c now sc a t ttl s) = s"
    using v by (simp add: s hybridSetAffinityScoped_def)
qed

section \<open>Hypotheses on the backend\<close>

text \<open>
  \<open>backendFrame\<close>: storing a key and publishing leave the other keys alone.  \<open>backendStores\<close>: a
  value stored with success is returned until its time to live has passed.
\<close>

definition backendFrame :: "'b Backend \<Rightarrow> bool" where
  "backendFrame be \<longleftrightarrow>
     (\<forall>k k' v ttl now now' b. k \<noteq> k' \<longrightarrow> be_Get be k' now' (snd (be_Set be k v ttl now b)) = be_Get be k' now' b) \<and>
     (\<forall>ch v k now b. be_Get be k now (snd (be_Publish be ch v b)) = be_Get be k now b)"

definition backendStores :: "'b Backend \<Rightarrow> bool" where
  "backendStores be \<longleftrightarrow>
     (\<forall>k v ttl now now' b. isOk (fst (be_Set be k v ttl now b)) \<longrightarrow> now \<le> now' \<longrightarrow> now' < now + ttl \<longrightarrow>
        be_Get be k now' (snd (be_Set be k v ttl now b)) = Inr v)"

definition remoteFrame :: "'b Remote option \<Rightarrow> bool" where
  "remoteFrame remote =
     (case remote of None \<Rightarrow> True
      | Some r \<Rightarrow> (case rm_Backend r of None \<Rightarrow> True | Some be \<Rightarrow> backendFrame be))"

lemma RedisBackend_frame:
  assumes "case client of None \<Rightarrow> True
    | Some uc \<Rightarrow> backendFrame \<lparr>be_Get = uc_Get uc, be_Set = uc_Set uc, be_Publish = uc_Publish uc\<rparr>"
  shows "backendFrame (RedisBackend client)"
  using assms by (auto simp: backendFrame_def RedisBackend_def split: option.splits)

lemma RedisBackend_stores:
  assumes "backendStores \<lparr>be_Get = uc_Get uc, be_Set = uc_Set uc, be_Publish = uc_Publish uc\<rparr>"
  shows "backendStores (RedisBackend (Some uc))"
  using assms by (auto simp: backendStores_def RedisBackend_def split: option.splits)

text \<open>A remote write touches one key of the backend, a health key or an affinity key.\<close>

lemma remoteSetScoped_frame:
  assumes "rm_Backend r = Some be" "backendFrame be"
    and "k \<noteq> rm_Prefix r @ ''health/'' @ scopedHealthKey sc t"
  shows "be_Get be k now' (snd (remoteSetScoped r c now sc t h ttl b)) = be_Get be k now' b"
  using assms by (auto simp: remoteSetScoped_def backendFrame_def Let_def split: option.splits sum.splits prod.splits)
    (metis snd_conv)+

lemma remoteSetAffinityScoped_frame:
  assumes "rm_Backend r = Some be" "backendFrame be"
    and "k \<noteq> rm_Prefix r @ ''affinity/'' @ scopedAffinityKey sc a"
  shows "be_Get be k now' (snd (remoteSetAffinityScoped r c now sc a t ttl b)) = be_Get be k now' b"
  using assms by (auto simp: remoteSetAffinityScoped_def backendFrame_def split: option.splits sum.splits)

lemma remoteHealth_frame:
  assumes "\<And>r be. remote = Some r \<Longrightarrow> rm_Backend r = Some be \<Longrightarrow>
    be_Get be (rm_Prefix r @ ''health/'' @ scopedHealthKey sc t) now b'
    = be_Get be (rm_Prefix r @ ''health/'' @ scopedHealthKey sc t) now b"
  shows "remoteHealth remote rctx now sc t b' = remoteHealth remote rctx now sc t b"
  using assms by (auto simp: remoteHealth_def remoteHealthyScoped_def split: option.splits)

lemma remoteAffinity_frame:
  assumes "\<And>r be. remote = Some r \<Longrightarrow> rm_Backend r = Some be \<Longrightarrow>
    be_Get be (rm_Prefix r @ ''affinity/'' @ scopedAffinityKey sc a) now b'
    = be_Get be (rm_Prefix r @ ''affinity/'' @ scopedAffinityKey sc a) now b"
  shows "remoteAffinity remote rctx now sc a b' = remoteAffinity remote rctx now sc a b"
  using assms by (auto simp: remoteAffinity_def remoteGetAffinityScoped_def split: option.splits)

lemma hybrid_isolated:
  assumes "remoteFrame remote"
  shows "isolated_hints (hybridHealthyScoped remote rctx) (hybridSetScoped remote rctx)
    (hybridGetAffinityScoped remote rctx) (hybridSetAffinityScoped remote rctx)"
proof unfold_locales
  fix now now' :: time and sc sc' :: HealthScope and t t' :: RouteTarget and a a' :: string
    and c c' :: ctx and h :: bool and ttl :: duration and s :: "'a hybrid"
  obtain loc b where s: "s = (loc, b)" by (cases s)
  have f: "backendFrame be" if "remote = Some r" "rm_Backend r = Some be" for r be
    using assms that by (simp add: remoteFrame_def)
  have hl: "remoteHealth remote rctx now' sc' t' (case remote of None \<Rightarrow> b
      | Some r \<Rightarrow> snd (remoteSetAffinityScoped r rctx now sc a t ttl b)) = remoteHealth remote rctx now' sc' t' b"
    by (rule remoteHealth_frame) (simp add: f remoteSetAffinityScoped_frame)
  show "fst (hybridHealthyScoped remote rctx c' now' sc' t' (snd (hybridSetAffinityScoped remote rctx c now sc a t ttl s)))
      = fst (hybridHealthyScoped remote rctx c' now' sc' t' s)"
    using hl by (cases remote; cases loc) (simp_all add: s hybridSetAffinityScoped_state hybridHealthyScoped_value
        localSetAffinityScoped_health split: sum.splits)
  assume n: "nulFree (hs_TenantID sc)" "nulFree (hs_TenantID sc')" "sc \<noteq> sc'"
  have hs: "remoteHealth remote rctx now' sc' t' (case remote of None \<Rightarrow> b
      | Some r \<Rightarrow> snd (remoteSetScoped r rctx now sc t h ttl b)) = remoteHealth remote rctx now' sc' t' b"
    using n by (intro remoteHealth_frame) (simp add: f remoteSetScoped_frame scopedHealthKey_scope)
  show "fst (hybridHealthyScoped remote rctx c' now' sc' t' (snd (hybridSetScoped remote rctx c now sc t h ttl s)))
      = fst (hybridHealthyScoped remote rctx c' now' sc' t' s)"
    using hs by (cases remote; cases loc)
      (simp_all add: s hybridSetScoped_state hybridHealthyScoped_value localSetScoped_apart [OF n]
        split: sum.splits)
  have ha: "remoteAffinity remote rctx now' sc' a' (case remote of None \<Rightarrow> b
      | Some r \<Rightarrow> snd (remoteSetAffinityScoped r rctx now sc a t ttl b)) = remoteAffinity remote rctx now' sc' a' b"
    using n by (intro remoteAffinity_frame) (simp add: f remoteSetAffinityScoped_frame scopedAffinityKey_scope)
  show "fst (hybridGetAffinityScoped remote rctx c' now' sc' a' (snd (hybridSetAffinityScoped remote rctx c now sc a t ttl s)))
      = fst (hybridGetAffinityScoped remote rctx c' now' sc' a' s)"
    using ha by (cases remote; cases loc) (simp_all add: s hybridSetAffinityScoped_state
        hybridGetAffinityScoped_value localSetAffinityScoped_apart [OF n]
        split: sum.splits option.splits)
qed

section \<open>Reading a hint back\<close>

lemma boundTTL_Inr: "boundTTL ttl = Inr d \<Longrightarrow> 0 < ttl \<and> d = max MinHintTTL (min MaxHintTTL ttl)"
  by (auto simp: boundTTL_def Let_def MinHintTTL_def MaxHintTTL_def second_def)

lemma hybridSetScoped_ok:
  assumes "fst (hybridSetScoped remote rctx c now sc t h ttl (loc, b)) = Inr ()"
  shows "\<exists>l d. loc = Some l \<and> c = None \<and> HealthScope_Valid sc \<and> validTarget t \<and> boundTTL ttl = Inr d
    \<and> snd (hybridSetScoped remote rctx c now sc t h ttl (loc, b)) =
       (Some (l\<lparr>lc_hints := AList.update (scopedHealthKey sc t) \<lparr>hi_healthy = h, hi_expires = now + d\<rparr> (lc_hints l)\<rparr>),
        case remote of None \<Rightarrow> b | Some r \<Rightarrow> snd (remoteSetScoped r rctx now sc t h ttl b))"
  using assms
  by (auto simp: hybridSetScoped_def localSetScoped_def Let_def split: if_splits option.splits sum.splits prod.splits)

lemma remoteSetScoped_ok:
  assumes "isOk (fst (remoteSetScoped r c now sc t h ttl b))"
  shows "\<exists>be d b1. rm_Backend r = Some be \<and> boundTTL ttl = Inr d \<and>
    be_Set be (rm_Prefix r @ ''health/'' @ scopedHealthKey sc t)
      (marshalHealth \<lparr>hp_TenantID = hs_TenantID sc, hp_Revision = hs_Revision sc,
         hp_ConnectionID = rt_ConnectionID t, hp_ModelID = rt_ModelID t, hp_Region = rt_Region t,
         hp_Healthy = h\<rparr>) d now b = (Inr (), b1)
    \<and> (snd (remoteSetScoped r c now sc t h ttl b) = b1
       \<or> (\<exists>ch v. snd (remoteSetScoped r c now sc t h ttl b) = snd (be_Publish be ch v b1)))"
proof -
  from assms obtain be d where 1: "rm_Backend r = Some be" "boundTTL ttl = Inr d" "c = None"
    "HealthScope_Valid sc" "validTarget t"
    by (auto simp: remoteSetScoped_def split: option.splits if_splits sum.splits)
  with assms show ?thesis
    by (auto simp: remoteSetScoped_def Let_def split: if_splits sum.splits prod.splits)
      (metis snd_conv)+
qed

text \<open>
  routing hints fail open and are never written unscoped.  With a live context both reads of a
  \<open>Hybrid\<close> store return a value whatever the remote backend does; an invalid scope reads as healthy
  and without affinity, and every write with an invalid scope fails and changes nothing.
\<close>

theorem hybrid_fail_open:
  "isOk (fst (hybridHealthyScoped remote rctx None now sc t st))
   \<and> isOk (fst (hybridGetAffinityScoped remote rctx None now sc a st))
   \<and> (\<not> HealthScope_Valid sc \<longrightarrow>
        fst (hybridHealthyScoped remote rctx None now sc t st) = Inr True
        \<and> fst (hybridGetAffinityScoped remote rctx None now sc a st) = Inr None
        \<and> \<not> isOk (fst (hybridSetScoped remote rctx c now sc t h ttl st))
        \<and> snd (hybridSetScoped remote rctx c now sc t h ttl st) = st
        \<and> \<not> isOk (fst (hybridSetAffinityScoped remote rctx c now sc a t ttl st))
        \<and> snd (hybridSetAffinityScoped remote rctx c now sc a t ttl st) = st)"
  by (simp add: hh.healthy_open hh.affinity_open hh.healthy_unscoped hh.affinity_unscoped
      hh.setHealth_unscoped hh.setAffinity_unscoped)

theorem hybrid_fail_open_witness:
  "snd (hybridSetScoped (None :: unit Remote option) None None 0 \<lparr>hs_TenantID = '''', hs_Revision = 1\<rparr>
     (sampleTarget ''c1'' ''m1'' 0 3) False second (Some NewLocal, ())) = (Some NewLocal, ())"
  using hybrid_fail_open [of "None :: unit Remote option" None 0 "\<lparr>hs_TenantID = '''', hs_Revision = 1\<rparr>"
      "sampleTarget ''c1'' ''m1'' 0 3" "(Some NewLocal, ())" "''''" None False second]
  by (simp add: HealthScope_Valid_def)

text \<open>
  C18: hints are isolated.  A health hint written under a tenant and configuration revision that no
  target of the alias belongs to leaves the whole routing decision of a \<open>Hybrid\<close> store unchanged,
  provided tenant identifiers have no NUL byte and the backend keeps its keys apart.
\<close>

theorem hybrid_routing_apart:
  assumes "remoteFrame remote" "tenantsNulFree s" "nulFree (hs_TenantID sc)"
    and "list_all (\<lambda>t. TargetScope s t \<noteq> Some sc) (aliasTargets s alias)"
  shows "Order ctx rnd s alias req (Some (\<lambda>sc' t'. fst (hybridHealthyScoped remote rctx c' now' sc' t'
           (snd (hybridSetScoped remote rctx c now sc t h ttl st)))))
       = Order ctx rnd s alias req (Some (\<lambda>sc' t'. fst (hybridHealthyScoped remote rctx c' now' sc' t' st)))"
  using assms(4)
  by (intro isolated_hints.routing_apart [OF hybrid_isolated [OF assms(1)] assms(2,3)])
    (simp add: list_all_iff)

text \<open>
  a negative hint takes effect and expires.  After a successful \<open>SetScoped\<close> the local store of a
  \<open>Hybrid\<close> answers with the written value until a time to live between one second and five
  minutes has passed, and from then on only the remote store can report the target unhealthy; no
  failure of the remote backend hides a fresh negative hint.
\<close>

theorem hybrid_hint_lifetime:
  assumes "hybridSetScoped remote rctx None now sc t h ttl st = (Inr (), st')"
  shows "\<exists>d. MinHintTTL \<le> d \<and> d \<le> MaxHintTTL \<and> (d = ttl \<or> ttl < MinHintTTL \<or> MaxHintTTL < ttl)
    \<and> (\<forall>now' rctx'. fst (hybridHealthyScoped remote rctx' None now' sc t st')
         = Inr ((h \<or> now + d \<le> now') \<and> remoteHealth remote rctx' now' sc t (snd st')))"
proof -
  obtain loc b where st: "st = (loc, b)" by (cases st)
  from assms have "fst (hybridSetScoped remote rctx None now sc t h ttl (loc, b)) = Inr ()"
    by (simp add: st)
  from hybridSetScoped_ok [OF this] assms obtain l d where
    d: "boundTTL ttl = Inr d" "HealthScope_Valid sc" "validTarget t"
    and st': "fst st' = Some (l\<lparr>lc_hints := AList.update (scopedHealthKey sc t)
        \<lparr>hi_healthy = h, hi_expires = now + d\<rparr> (lc_hints l)\<rparr>)"
    by (auto simp: st)
  have "fst (hybridHealthyScoped remote rctx' None now' sc t st')
      = Inr ((h \<or> now + d \<le> now') \<and> remoteHealth remote rctx' now' sc t (snd st'))" for now' rctx'
    using d st' by (cases st') (simp add: hybridHealthyScoped_value localHealthyScoped_value)
  moreover have "MinHintTTL \<le> d \<and> d \<le> MaxHintTTL \<and> (d = ttl \<or> ttl < MinHintTTL \<or> MaxHintTTL < ttl)"
    using boundTTL_Inr [OF d(1)] by (auto simp: MinHintTTL_def MaxHintTTL_def second_def)
  ultimately show ?thesis by blast
qed

text \<open>
  hints are shared.  When the remote write of a negative hint succeeds, another gateway process
  with its own local store reads the target as unhealthy from the shared backend for as long as
  the hint lives, if the backend stores what it is given and the identifiers are UTF-8.
\<close>

theorem remote_hint_shared:
  assumes "rm_Backend r = Some be" "backendStores be" "backendFrame be"
    and "isOk (fst (remoteSetScoped r None now sc t False ttl b))" "boundTTL ttl = Inr d"
    and "list_all validString [hs_TenantID sc, rt_ConnectionID t, rt_ModelID t, rt_Region t]"
    and "HealthScope_Valid sc" "validTarget t" "now \<le> now'" "now' < now + d"
  shows "fst (hybridHealthyScoped (Some r) None None now' sc t
    (other, snd (remoteSetScoped r None now sc t False ttl b))) = Inr False"
proof -
  let ?k = "rm_Prefix r @ ''health/'' @ scopedHealthKey sc t"
  let ?v = "marshalHealth \<lparr>hp_TenantID = hs_TenantID sc, hp_Revision = hs_Revision sc,
    hp_ConnectionID = rt_ConnectionID t, hp_ModelID = rt_ModelID t, hp_Region = rt_Region t, hp_Healthy = False\<rparr>"
  let ?b = "snd (remoteSetScoped r None now sc t False ttl b)"
  from remoteSetScoped_ok [OF assms(4)] assms(1,5) obtain b1 where
    set: "be_Set be ?k ?v d now b = (Inr (), b1)"
    and b: "?b = b1 \<or> (\<exists>ch v. ?b = snd (be_Publish be ch v b1))" by auto
  have "be_Get be ?k now' b1 = Inr ?v"
    using assms(2,9,10) set unfolding backendStores_def by (metis fst_conv snd_conv isOk_simps(1))
  moreover have "be_Get be ?k now' ?b = be_Get be ?k now' b1"
    using b assms(3) by (auto simp: backendFrame_def)
  ultimately have "remoteHealthyScoped r None now' sc t ?b = Inr False"
    using assms(1,6,7,8) by (simp add: remoteHealthyScoped_def marshalHealth_def jsonText_valid)
  then show ?thesis
    by (auto simp: hybridHealthyScoped_value remoteHealth_def localHealthyScoped_value split: option.splits)
qed

section \<open>Witnesses\<close>

text \<open>A backend over an association list of values with their expiry, for concrete inputs.\<close>

definition sampleBackend :: "(string, blob \<times> time) table Backend" where
  "sampleBackend =
     \<lparr>be_Get = (\<lambda>k now b. case map_of b k of
          None \<Rightarrow> Inl ErrNotFound
        | Some (v, e) \<Rightarrow> if now < e then Inr v else Inl ErrNotFound),
      be_Set = (\<lambda>k v ttl now b. (Inr (), AList.update k (v, now + ttl) b)),
      be_Publish = (\<lambda>ch v b. (Inr (), b))\<rparr>"

definition sampleRemote :: "(string, blob \<times> time) table Remote" where
  "sampleRemote = \<lparr>rm_Backend = Some sampleBackend, rm_Prefix = ''hoorific/'', rm_Channel = ''''\<rparr>"

lemma sampleBackend_frame: "backendFrame sampleBackend"
  by (simp add: backendFrame_def sampleBackend_def)

lemma sampleBackend_stores: "backendStores sampleBackend"
  by (simp add: backendStores_def sampleBackend_def)

theorem hybrid_routing_apart_witness:
  "isOk (Order running lowDraw (sampleSnapshot ''openai'') ''fast'' sampleRequirements
     (Some (\<lambda>sc' t'. fst (hybridHealthyScoped (Some sampleRemote) None None second sc' t'
        (snd (hybridSetScoped (Some sampleRemote) None None 0 \<lparr>hs_TenantID = ''other'', hs_Revision = 1\<rparr>
           (sampleTarget ''c1'' ''m1'' 0 3) False (60 * second) (Some NewLocal, []))))))) =
   isOk (Order running lowDraw (sampleSnapshot ''openai'') ''fast'' sampleRequirements
     (Some (\<lambda>sc' t'. fst (hybridHealthyScoped (Some sampleRemote) None None second sc' t' (Some NewLocal, [])))))"
proof -
  have "remoteFrame (Some sampleRemote)"
    by (simp add: remoteFrame_def sampleRemote_def sampleBackend_frame)
  moreover have "tenantsNulFree (sampleSnapshot ''openai'')"
    by (simp add: tenantsNulFree_def sampleSnapshot_def sampleConnection_def eq_nul_iff str_eval)
  moreover have "nulFree ''other''" by (simp add: eq_nul_iff str_eval)
  moreover have "list_all (\<lambda>t. TargetScope (sampleSnapshot ''openai'') t \<noteq> Some \<lparr>hs_TenantID = ''other'', hs_Revision = 1\<rparr>)
      (aliasTargets (sampleSnapshot ''openai'') ''fast'')"
    by (simp add: aliasTargets_def sampleSnapshot_def sampleTarget_def sampleConnection_def sampleModel_def TargetScope_def)
  ultimately show ?thesis by (subst hybrid_routing_apart) simp_all
qed

theorem hybrid_hint_lifetime_witness:
  "fst (hybridHealthyScoped (Some sampleRemote) (Some CtxErr) None second \<lparr>hs_TenantID = ''t1'', hs_Revision = 1\<rparr>
     (sampleTarget ''c1'' ''m1'' 0 3)
     (snd (hybridSetScoped (Some sampleRemote) (Some CtxErr) None 0 \<lparr>hs_TenantID = ''t1'', hs_Revision = 1\<rparr>
        (sampleTarget ''c1'' ''m1'' 0 3) False (60 * second) (Some NewLocal, [])))) = Inr False"
proof -
  let ?sc = "\<lparr>hs_TenantID = ''t1'', hs_Revision = 1\<rparr>" and ?t = "sampleTarget ''c1'' ''m1'' 0 3"
  let ?r = "hybridSetScoped (Some sampleRemote) (Some CtxErr) None 0 ?sc ?t False (60 * second) (Some NewLocal, [])"
  have "?r = (Inr (), snd ?r)"
    by (simp add: hybridSetScoped_def localSetScoped_def HealthScope_Valid_def validTarget_def
        sampleTarget_def boundTTL_def MinHintTTL_def MaxHintTTL_def second_def)
  from hybrid_hint_lifetime [OF this] obtain d where d: "d = 60 * second"
    "fst (hybridHealthyScoped (Some sampleRemote) (Some CtxErr) None second ?sc ?t (snd ?r))
       = Inr ((False \<or> 0 + d \<le> second) \<and> remoteHealth (Some sampleRemote) (Some CtxErr) second ?sc ?t (snd (snd ?r)))"
    by (auto simp: MinHintTTL_def MaxHintTTL_def second_def)
  then show ?thesis by (simp add: second_def)
qed

theorem remote_hint_shared_witness:
  "fst (hybridHealthyScoped (Some sampleRemote) None None second \<lparr>hs_TenantID = ''t1'', hs_Revision = 1\<rparr>
     (sampleTarget ''c1'' ''m1'' 0 3)
     (Some NewLocal, snd (remoteSetScoped sampleRemote None 0 \<lparr>hs_TenantID = ''t1'', hs_Revision = 1\<rparr>
        (sampleTarget ''c1'' ''m1'' 0 3) False (60 * second) []))) = Inr False"
proof (rule remote_hint_shared [where be = sampleBackend and d = "60 * second"])
  show "isOk (fst (remoteSetScoped sampleRemote None 0 \<lparr>hs_TenantID = ''t1'', hs_Revision = 1\<rparr>
      (sampleTarget ''c1'' ''m1'' 0 3) False (60 * second) []))"
    by (simp add: remoteSetScoped_def sampleRemote_def sampleBackend_def HealthScope_Valid_def
        validTarget_def sampleTarget_def boundTTL_def MinHintTTL_def MaxHintTTL_def second_def Let_def)
qed (simp_all add: sampleBackend_frame sampleBackend_stores sampleRemote_def sampleTarget_def boundTTL_def
    HealthScope_Valid_def validTarget_def MinHintTTL_def MaxHintTTL_def second_def str_eval)

end
