(* ===== verification/Windows.thy ===== *)
theory Windows
  imports Go_Numbers
begin

text \<open>
  Quota windows, from \<open>currentWindowID\<close> of \<open>store/policy_plan.go\<close> and \<open>windowBounds\<close> of
  \<open>store/policy_sync.go\<close>, with the part of the proleptic Gregorian calendar that \<open>time.Unix(now,
  0).UTC()\<close> and \<open>time.Date\<close> provide.  Days are counted from 1970-01-01.
\<close>

section \<open>The calendar\<close>

definition leapYear :: "int \<Rightarrow> bool" where
  "leapYear y = (y mod 4 = 0 \<and> (y mod 100 \<noteq> 0 \<or> y mod 400 = 0))"

text \<open>The day number of January 1 of year \<open>y\<close>.\<close>

definition yearStart :: "int \<Rightarrow> int" where
  "yearStart y = 365 * (y - 1970) + ((y - 1) div 4 - (y - 1) div 100 + (y - 1) div 400 - 477)"

lemma div_pred: "1 < k \<Longrightarrow> y div k = (y - 1) div k + (if y mod k = 0 then 1 else 0)" for k y :: int
proof -
  assume k: "1 < k"
  have y: "y = k * (y div k) + y mod k" "0 \<le> y mod k" "y mod k < k" using k by simp_all
  show ?thesis
  proof (cases "y mod k = 0")
    case True
    then have "(y - 1) div k = y div k - 1"
      using k y(1) by (intro int_div_pos_eq [where r = "k - 1"]) (simp_all add: algebra_simps)
    with True show ?thesis by simp
  next
    case False
    then have "(y - 1) div k = y div k"
      using k y by (intro int_div_pos_eq [where r = "y mod k - 1"]) simp_all
    with False show ?thesis by simp
  qed
qed

lemma yearStart_sum:
  "365 * (y + 1 - 1970) + (a + p - (b + q) + (c + r) - 477)
    = 365 * (y - 1970) + (a - b + c - 477) + 365 + p - q + r" for y a b c p q r :: int
  by simp

lemma yearStart_Suc: "yearStart (y + 1) = yearStart y + (if leapYear y then 366 else 365)"
proof -
  have m: "y mod 100 = 0" if "y mod 400 = 0"
    by (rule dvd_imp_mod_0, rule dvd_trans [OF _ mod_0_imp_dvd [OF that]]) simp
  have m': "y mod 4 = 0" if "y mod 100 = 0"
    by (rule dvd_imp_mod_0, rule dvd_trans [OF _ mod_0_imp_dvd [OF that]]) simp
  define c where "c k = (if y mod k = 0 then 1 else 0 :: int)" for k :: int
  have e: "y div 4 = (y - 1) div 4 + c 4" "y div 100 = (y - 1) div 100 + c 100"
    "y div 400 = (y - 1) div 400 + c 400"
    unfolding c_def by (rule div_pred, simp)+
  have "yearStart (y + 1) = yearStart y + 365 + c 4 - c 100 + c 400"
    unfolding yearStart_def add_diff_cancel_right' e by (rule yearStart_sum)
  moreover have "c 4 - c 100 + c 400 = (if leapYear y then 1 else 0)"
  proof (cases "y mod 100 = 0")
    case True
    then show ?thesis using m' by (simp add: c_def leapYear_def)
  next
    case False
    then have "y mod 400 \<noteq> 0" by (rule contrapos_nn) (rule m)
    with False show ?thesis by (simp add: c_def leapYear_def)
  qed
  ultimately show ?thesis by (cases "leapYear y") simp_all
qed

text \<open>The year of a day: the last one that starts no later, searched upwards from a year that does.\<close>

function yearFrom :: "int \<Rightarrow> int \<Rightarrow> int" where
  "yearFrom y d = (if d < yearStart (y + 1) then y else yearFrom (y + 1) d)"
  by pat_completeness auto
termination
  by (relation "measure (\<lambda>(y, d). nat (d + 1 - yearStart y))")
    (auto simp: yearStart_Suc split: if_splits)

declare yearFrom.simps [simp del]

definition yearOf :: "int \<Rightarrow> int" where
  "yearOf d = yearFrom (1969 + (if d < 0 then d div 365 else d div 366)) d"

text \<open>Days of the year before month \<open>m\<close>, with January as 1.\<close>

definition daysBefore :: "int \<Rightarrow> nat \<Rightarrow> int" where
  "daysBefore y m =
     [0, 31, 59, 90, 120, 151, 181, 212, 243, 273, 304, 334] ! (m - 1)
     + (if leapYear y \<and> 2 < m then 1 else 0)"

definition yearDay :: "int \<Rightarrow> int" where
  "yearDay d = d - yearStart (yearOf d) + 1"

definition monthOf :: "int \<Rightarrow> nat" where
  "monthOf d = length (filter (\<lambda>m. daysBefore (yearOf d) m < yearDay d) [1..<Suc 12])"

definition dayOf :: "int \<Rightarrow> int" where
  "dayOf d = yearDay d - daysBefore (yearOf d) (monthOf d)"

text \<open>\<open>time.Date(y, m, d, 0, 0, 0, 0, time.UTC).Unix()\<close>, where month 13 is January of the next year.\<close>

definition dateUnix :: "int \<Rightarrow> nat \<Rightarrow> int \<Rightarrow> int" where
  "dateUnix y m d =
     (let y' = y + int ((m - 1) div 12); m' = (m - 1) mod 12 + 1 in
      86400 * (yearStart y' + daysBefore y' m' + d - 1))"

definition unixDay :: "int64 \<Rightarrow> int" where
  "unixDay now = now div 86400"

section \<open>Windows\<close>

definition windowBounds :: "int64 \<Rightarrow> string \<Rightarrow> int64 \<times> int64" where
  "windowBounds now kind =
     (if kind = ''60'' then
        (let start = tquo now 60 * 60 in (start, start + 60))
      else if kind = ''daily'' then
        (let t = unixDay now; start = dateUnix (yearOf t) (monthOf t) (dayOf t) in (start, start + 86400))
      else if kind = ''monthly'' then
        (let t = unixDay now in
         (dateUnix (yearOf t) (monthOf t) 1, dateUnix (yearOf t) (monthOf t + 1) 1))
      else (0, 0))"

definition currentWindowID :: "int64 \<Rightarrow> string \<Rightarrow> string" where
  "currentWindowID now prefix =
     (if prefix = ''60'' then ''60:'' @ formatInt (tquo now 60 * 60)
      else if prefix = ''daily'' then
        (let t = unixDay now in
         ''daily:'' @ zeroPad 4 (nat (yearOf t)) @ ''-'' @ zeroPad 3 (nat (yearDay t)))
      else if prefix = ''monthly'' then
        (let t = unixDay now in
         ''monthly:'' @ zeroPad 4 (nat (yearOf t)) @ ''-'' @ zeroPad 2 (monthOf t))
      else '''')"

section \<open>Lemmas\<close>

lemma yearFrom_spec: "yearStart y \<le> d \<Longrightarrow> yearStart (yearFrom y d) \<le> d \<and> d < yearStart (yearFrom y d + 1)"
proof (induction y d rule: yearFrom.induct)
  case (1 y d)
  then show ?case by (subst (1 2) yearFrom.simps) auto
qed

lemma yearStart_low: "yearStart (1969 + (if d < 0 then d div 365 else d div 366)) \<le> d"
proof -
  define k where "k = (if d < 0 then d div 365 else d div 366)"
  have k: "365 * k \<le> d \<and> (0 \<le> k \<longrightarrow> 366 * k \<le> d)"
    by (auto simp: k_def pos_imp_zdiv_nonneg_iff)
  define m where "m = 1968 + k"
  have "4 * (m div 4) \<le> m" "m < 100 * (m div 100) + 100" "400 * (m div 400) \<le> m" by simp_all
  then have "m div 4 - m div 100 + m div 400 - 477 \<le> 1 + (if 0 \<le> k then k else 0)"
    unfolding m_def by simp
  with k show ?thesis
    by (simp add: yearStart_def m_def flip: k_def split: if_splits)
qed

lemma yearOf_spec: "yearStart (yearOf d) \<le> d" "d < yearStart (yearOf d + 1)"
  using yearFrom_spec [OF yearStart_low] by (simp_all add: yearOf_def)

lemma yearDay_range: "1 \<le> yearDay d" "yearDay d \<le> (if leapYear (yearOf d) then 366 else 365)"
  using yearOf_spec [of d] by (simp_all add: yearDay_def yearStart_Suc)

text \<open>Counting the values below a bound finds the last one of an increasing sequence.\<close>

lemma count_below:
  fixes f :: "nat \<Rightarrow> int"
  assumes "\<And>m. 1 \<le> m \<Longrightarrow> m < N \<Longrightarrow> f m < f (Suc m)"
  shows "length (filter (\<lambda>m. f m < n) [1..<Suc N]) \<le> N \<and>
    (\<forall>m. 1 \<le> m \<longrightarrow> m \<le> N \<longrightarrow> (f m < n \<longleftrightarrow> m \<le> length (filter (\<lambda>m. f m < n) [1..<Suc N])))"
  using assms
proof (induction N)
  case (Suc N)
  define k where "k = length (filter (\<lambda>m. f m < n) [1..<Suc N])"
  have p: "f m < f (Suc m)" if "1 \<le> m" "m < N" for m
    by (rule Suc.prems) (use that in simp_all)
  have IH: "k \<le> N" "\<And>m. 1 \<le> m \<Longrightarrow> m \<le> N \<Longrightarrow> f m < n \<longleftrightarrow> m \<le> k"
    using Suc.IH [OF p] unfolding k_def by blast+
  have len: "length (filter (\<lambda>m. f m < n) [1..<Suc (Suc N)]) = (if f (Suc N) < n then Suc k else k)"
    by (simp add: k_def)
  show ?case
  proof (cases "f (Suc N) < n")
    case True
    have "k = N" if "1 \<le> N"
      using Suc.prems [of N] IH(1) IH(2) [of N] that True by simp
    then have "k = N" using IH(1) by (cases N) simp_all
    then have "f m < n" if "1 \<le> m" "m \<le> Suc N" for m
      using that True IH(2) [of m] by (cases "m = Suc N") simp_all
    with True \<open>k = N\<close> show ?thesis unfolding len by simp
  next
    case False
    have "f m < n \<longleftrightarrow> m \<le> k" if "1 \<le> m" "m \<le> Suc N" for m
      using that False IH(1) IH(2) [of m] by (cases "m = Suc N") simp_all
    with False IH(1) show ?thesis unfolding len by simp
  qed
qed simp

lemma daysBefore_less:
  assumes "1 \<le> m" "m < 12"
  shows "daysBefore y m < daysBefore y (Suc m)"
proof -
  have "m = 1 \<or> m = 2 \<or> m = 3 \<or> m = 4 \<or> m = 5 \<or> m = 6 \<or> m = 7 \<or> m = 8 \<or> m = 9 \<or> m = 10 \<or> m = 11"
    using assms by presburger
  then show ?thesis by (elim disjE) (simp_all add: daysBefore_def)
qed

text \<open>The month found by counting is the one whose days contain the day of the year.\<close>

definition monthDays :: "int \<Rightarrow> nat \<Rightarrow> int" where
  "monthDays y m = (if m = 12 then (if leapYear y then 366 else 365) else daysBefore y (m + 1)) - daysBefore y m"

lemma monthOf_spec:
  "1 \<le> monthOf d" "monthOf d \<le> 12"
  "daysBefore (yearOf d) (monthOf d) < yearDay d"
  "yearDay d \<le> daysBefore (yearOf d) (monthOf d) + monthDays (yearOf d) (monthOf d)"
proof -
  let ?y = "yearOf d" and ?n = "yearDay d"
  have *: "monthOf d \<le> 12 \<and> (\<forall>m. 1 \<le> m \<and> m \<le> 12 \<longrightarrow> (daysBefore ?y m < ?n \<longleftrightarrow> m \<le> monthOf d))"
    unfolding monthOf_def using count_below [of 12 "daysBefore ?y" ?n, OF daysBefore_less] by blast
  have "daysBefore ?y 1 < ?n" using yearDay_range [of d] by (simp add: daysBefore_def)
  with * show 1: "1 \<le> monthOf d" "monthOf d \<le> 12" by auto
  with * show "daysBefore ?y (monthOf d) < ?n" by auto
  show "?n \<le> daysBefore ?y (monthOf d) + monthDays ?y (monthOf d)"
  proof (cases "monthOf d = 12")
    case True
    then show ?thesis using yearDay_range [of d] by (simp add: monthDays_def)
  next
    case False
    then have "\<not> daysBefore ?y (Suc (monthOf d)) < ?n" using * 1
      by (metis Suc_leI Suc_n_not_le_n le_SucI le_neq_implies_less)
    then show ?thesis using False by (simp add: monthDays_def)
  qed
qed

subsection \<open>Windows contain their time\<close>

lemma unixDay_bounds: "86400 * unixDay now \<le> now" "now < 86400 * unixDay now + 86400"
  by (simp_all add: unixDay_def)

lemma dateUnix_day: "dateUnix (yearOf t) (monthOf t) (dayOf t) = 86400 * t"
proof -
  have "(monthOf t - 1) div 12 = 0" "(monthOf t - 1) mod 12 + 1 = monthOf t"
    using monthOf_spec [of t] by auto
  then show ?thesis by (simp add: dateUnix_def dayOf_def yearDay_def Let_def)
qed

lemma dateUnix_month:
  "dateUnix (yearOf t) (monthOf t) 1 \<le> 86400 * t"
  "dateUnix (yearOf t) (monthOf t + 1) 1 = 86400 * (yearStart (yearOf t)
     + daysBefore (yearOf t) (monthOf t) + monthDays (yearOf t) (monthOf t))"
proof -
  note m = monthOf_spec [of t]
  have "(monthOf t - 1) div 12 = 0" "(monthOf t - 1) mod 12 + 1 = monthOf t" using m by auto
  then show "dateUnix (yearOf t) (monthOf t) 1 \<le> 86400 * t"
    using m(3) by (simp add: dateUnix_def yearDay_def Let_def)
  show "dateUnix (yearOf t) (monthOf t + 1) 1 = 86400 * (yearStart (yearOf t)
     + daysBefore (yearOf t) (monthOf t) + monthDays (yearOf t) (monthOf t))"
  proof (cases "monthOf t = 12")
    case True
    then show ?thesis by (simp add: dateUnix_def Let_def yearStart_Suc monthDays_def daysBefore_def)
  next
    case False
    then have "monthOf t div 12 = 0" "monthOf t mod 12 + 1 = monthOf t + 1" using m by auto
    with False show ?thesis by (simp add: dateUnix_def Let_def monthDays_def)
  qed
qed

lemma window_contains_day:
  "fst (windowBounds now ''daily'') \<le> now" "now < snd (windowBounds now ''daily'')"
  using unixDay_bounds [of now] by (simp_all add: windowBounds_def Let_def dateUnix_day)

lemma window_contains_month:
  "fst (windowBounds now ''monthly'') \<le> now" "now < snd (windowBounds now ''monthly'')"
proof -
  let ?t = "unixDay now"
  show "fst (windowBounds now ''monthly'') \<le> now"
    using unixDay_bounds(1) [of now] dateUnix_month(1) [of ?t] by (simp add: windowBounds_def Let_def)
  have "?t < yearStart (yearOf ?t) + daysBefore (yearOf ?t) (monthOf ?t) + monthDays (yearOf ?t) (monthOf ?t)"
    using monthOf_spec(4) [of ?t] by (simp add: yearDay_def)
  then show "now < snd (windowBounds now ''monthly'')"
    using unixDay_bounds(2) [of now] dateUnix_month(2) [of ?t]
    by (simp add: windowBounds_def Let_def)
qed

lemma window_contains_minute:
  "0 \<le> now \<Longrightarrow> fst (windowBounds now ''60'') \<le> now \<and> now < snd (windowBounds now ''60'')"
proof -
  assume "0 \<le> now"
  moreover have "now div 60 * 60 = now - now mod 60" "0 \<le> now mod 60" "now mod 60 < 60"
    by (simp_all add: minus_mod_eq_div_mult)
  ultimately show ?thesis by (simp add: windowBounds_def Let_def tquo_nonneg)
qed

subsection \<open>Window identifiers name the window\<close>

lemma parseNat_zeroes: "parseNat (replicate k (CHR ''0'') @ s) = parseNat s"
  by (induction k) (simp_all add: parseNat_def digitValue_def byteOf_def)

lemma parseNat_zeroPad [simp]: "parseNat (zeroPad w n) = n"
  by (simp add: zeroPad_def parseNat_zeroes)

lemma zeroPad_digits: "list_all isDigit (zeroPad w n)"
proof -
  have "isDigit (CHR ''0'')" by (simp add: isDigit_def inByte_def byteOf_def)
  then show ?thesis using formatNat_digits [of n] by (auto simp: zeroPad_def list_all_iff)
qed

lemma zeroPad_inject [simp]: "zeroPad w m = zeroPad w n \<longleftrightarrow> m = n"
  by (metis parseNat_zeroPad)

lemma digits_cut:
  assumes "list_all isDigit a" "list_all isDigit b" "a @ CHR ''-'' # r = b @ CHR ''-'' # s"
  shows "a = b \<and> r = s"
  using assms
proof (induction a arbitrary: b)
  case Nil
  then show ?case by (cases b) (auto simp: isDigit_def inByte_def byteOf_def)
next
  case (Cons c a)
  then show ?case by (cases b) (auto simp: isDigit_def inByte_def byteOf_def)
qed

lemma dated_inject:
  "zeroPad w y @ ''-'' @ zeroPad v n = zeroPad w y' @ ''-'' @ zeroPad v n' \<longleftrightarrow> y = y' \<and> n = n'"
  using digits_cut [OF zeroPad_digits zeroPad_digits, of w y "zeroPad v n" w y' "zeroPad v n'"]
  by auto

lemma yearOf_nonneg: "0 \<le> d \<Longrightarrow> 1969 \<le> yearOf d"
proof -
  have le: "y \<le> yearFrom y d" for y
    by (induction y d rule: yearFrom.induct) (subst yearFrom.simps, auto)
  assume "0 \<le> d"
  then have "0 \<le> d div 366" by (simp add: pos_imp_zdiv_nonneg_iff)
  with le [of "1969 + d div 366"] \<open>0 \<le> d\<close> show ?thesis by (simp add: yearOf_def)
qed

lemma yearStart_mono: "y \<le> y' \<Longrightarrow> yearStart y \<le> yearStart y'"
proof (induction y' rule: int_ge_induct)
  case (step i)
  then show ?case by (simp add: yearStart_Suc)
qed simp

lemma yearOf_unique: "yearStart y \<le> d \<Longrightarrow> d < yearStart (y + 1) \<Longrightarrow> yearOf d = y"
proof -
  assume y: "yearStart y \<le> d" "d < yearStart (y + 1)"
  have "\<not> y + 1 \<le> yearOf d" using yearStart_mono [of "y + 1" "yearOf d"] y yearOf_spec [of d] by linarith
  moreover have "\<not> yearOf d + 1 \<le> y" using yearStart_mono [of "yearOf d + 1" y] y yearOf_spec [of d] by linarith
  ultimately show ?thesis by linarith
qed

lemma daysBefore_mono:
  assumes "1 \<le> m" "m \<le> m'" "m' \<le> 12"
  shows "daysBefore y m \<le> daysBefore y m'"
  using assms(2,3)
proof (induction m' rule: dec_induct)
  case (step n)
  then show ?case using daysBefore_less [of n y] assms(1) by simp
qed simp

lemma monthOf_unique:
  assumes "1 \<le> m" "m \<le> 12" "daysBefore (yearOf d) m < yearDay d"
    "yearDay d \<le> daysBefore (yearOf d) m + monthDays (yearOf d) m"
  shows "monthOf d = m"
proof -
  let ?y = "yearOf d" and ?k = "monthOf d"
  note k = monthOf_spec [of d]
  have adj: "daysBefore ?y n + monthDays ?y n = daysBefore ?y (Suc n)" if "n < 12" for n
    using that by (simp add: monthDays_def)
  have "\<not> m < ?k"
  proof
    assume "m < ?k"
    then have "daysBefore ?y (Suc m) \<le> daysBefore ?y ?k" using k by (intro daysBefore_mono) simp_all
    with adj [of m] assms(4) k(2,3) \<open>m < ?k\<close> show False by simp
  qed
  moreover have "\<not> ?k < m"
  proof
    assume "?k < m"
    then have "daysBefore ?y (Suc ?k) \<le> daysBefore ?y m" using assms(2) by (intro daysBefore_mono) simp_all
    with adj [of ?k] assms(2,3) k(4) \<open>?k < m\<close> show False by simp
  qed
  ultimately show ?thesis by simp
qed

lemma month_window:
  "fst (windowBounds now ''monthly'') \<le> now' \<and> now' < snd (windowBounds now ''monthly'') \<longleftrightarrow>
   yearOf (unixDay now') = yearOf (unixDay now) \<and> monthOf (unixDay now') = monthOf (unixDay now)"
  (is "?in \<longleftrightarrow> ?same")
proof
  let ?t = "unixDay now" and ?u = "unixDay now'"
  let ?y = "yearOf ?t" and ?m = "monthOf ?t"
  note m = monthOf_spec [of ?t]
  have b: "windowBounds now ''monthly'' = (86400 * (yearStart ?y + daysBefore ?y ?m),
      86400 * (yearStart ?y + daysBefore ?y ?m + monthDays ?y ?m))"
  proof -
    have "(?m - 1) div 12 = 0" "(?m - 1) mod 12 + 1 = ?m" using m by auto
    then show ?thesis using dateUnix_month(2) [of ?t] by (simp add: windowBounds_def Let_def dateUnix_def)
  qed
  have u: "86400 * ?u \<le> now'" "now' < 86400 * ?u + 86400" by (rule unixDay_bounds)+
  show ?same if ?in
  proof -
    have d: "yearStart ?y + daysBefore ?y ?m \<le> ?u" "?u < yearStart ?y + daysBefore ?y ?m + monthDays ?y ?m"
      using that u unfolding b by simp_all
    have y: "yearOf ?u = ?y"
    proof (rule yearOf_unique)
      have "0 \<le> daysBefore ?y ?m" using daysBefore_mono [of 1 ?m ?y] m by (simp add: daysBefore_def)
      then show "yearStart ?y \<le> ?u" using d(1) by simp
      have "daysBefore ?y ?m + monthDays ?y ?m \<le> (if leapYear ?y then 366 else 365)"
      proof (cases "?m = 12")
        case False
        then have "daysBefore ?y (Suc ?m) \<le> daysBefore ?y 12" using m by (intro daysBefore_mono) simp_all
        moreover have "daysBefore ?y 12 \<le> 335" by (simp add: daysBefore_def)
        ultimately show ?thesis using False by (simp add: monthDays_def)
      qed (simp add: monthDays_def)
      then show "?u < yearStart (?y + 1)" using d(2) by (simp add: yearStart_Suc)
    qed
    then have "monthOf ?u = ?m" using d m by (intro monthOf_unique) (simp_all add: yearDay_def)
    with y show ?thesis by simp
  qed
  show ?in if ?same
  proof -
    have "fst (windowBounds now' ''monthly'') \<le> now' \<and> now' < snd (windowBounds now' ''monthly'')"
      using window_contains_month by blast
    moreover have "windowBounds now' ''monthly'' = windowBounds now ''monthly''"
      using that by (simp add: windowBounds_def Let_def)
    ultimately show ?thesis by simp
  qed
qed

lemma day_window:
  "fst (windowBounds now ''daily'') \<le> now' \<and> now' < snd (windowBounds now ''daily'') \<longleftrightarrow> unixDay now' = unixDay now"
  using unixDay_bounds [of now'] by (auto simp: windowBounds_def Let_def dateUnix_day)

lemma same_day: "yearOf t = yearOf t' \<and> yearDay t = yearDay t' \<longleftrightarrow> t = t'"
  by (auto simp: yearDay_def)

lemma minute_window:
  assumes "0 \<le> now" "0 \<le> now'"
  shows "fst (windowBounds now ''60'') \<le> now' \<and> now' < snd (windowBounds now ''60'') \<longleftrightarrow> now' div 60 = now div 60"
proof -
  have "60 * (now' div 60) \<le> now'" "now' < 60 * (now' div 60) + 60" by simp_all
  then show ?thesis using assms by (auto simp: windowBounds_def Let_def tquo_nonneg)
qed

section \<open>Windows partition time\<close>

text \<open>
  C22: quota windows partition time.  For the minute, daily and monthly windows, two times have the
  same window identifier exactly when the second lies within the bounds computed for the first;
  in particular every time lies within its own window, and rewriting the bounds of a known
  identifier never changes them.
\<close>

theorem window_partition:
  assumes "0 \<le> now" "0 \<le> now'" "prefix \<in> {''60'', ''daily'', ''monthly''}"
  shows "fst (windowBounds now prefix) \<le> now' \<and> now' < snd (windowBounds now prefix)
    \<longleftrightarrow> currentWindowID now' prefix = currentWindowID now prefix"
proof -
  have y: "0 \<le> yearOf (unixDay n)" if "0 \<le> n" for n
    using yearOf_nonneg [of "unixDay n"] that by (simp add: unixDay_def pos_imp_zdiv_nonneg_iff)
  have d: "0 \<le> yearDay t" for t using yearDay_range [of t] by simp
  from assms(3) consider "prefix = ''60''" | "prefix = ''daily''" | "prefix = ''monthly''" by blast
  then show ?thesis
  proof cases
    case 1
    then show ?thesis using assms minute_window [OF assms(1,2)]
      by (simp add: currentWindowID_def tquo_nonneg)
  next
    case 2
    have "currentWindowID now' prefix = currentWindowID now prefix \<longleftrightarrow>
        yearOf (unixDay now') = yearOf (unixDay now) \<and> yearDay (unixDay now') = yearDay (unixDay now)"
      using 2 y [OF assms(1)] y [OF assms(2)] d
      by (simp add: currentWindowID_def Let_def dated_inject [simplified] eq_nat_nat_iff)
    then show ?thesis using 2 day_window [of now now'] by (simp add: same_day)
  next
    case 3
    then show ?thesis using month_window [of now now'] y [OF assms(1)] y [OF assms(2)]
      by (simp add: currentWindowID_def Let_def dated_inject [simplified] eq_nat_nat_iff)
  qed
qed

theorem window_partition_witness:
  "currentWindowID 90000 ''daily'' = currentWindowID 86400 ''daily''"
  using window_partition [of 86400 90000 "''daily''"]
  by (simp add: windowBounds_def Let_def dateUnix_day unixDay_def)

end
