(* ===== verification/Go_Encoding.thy ===== *)
theory Go_Encoding
  imports Go_Numbers
begin

text \<open>
  The text encodings of the standard library that identifiers and tokens pass through:
  \<open>base64.RawURLEncoding\<close> with its strict decoder, \<open>json.Marshal\<close> of strings and \<open>strings.SplitN\<close>
  with a one-byte separator.
\<close>

section \<open>Base64\<close>

definition sextetChar :: "nat \<Rightarrow> char" where
  "sextetChar n =
     (if n < 26 then char_of (65 + n)
      else if n < 52 then char_of (97 + (n - 26))
      else if n < 62 then char_of (48 + (n - 52))
      else if n = 62 then CHR ''-'' else CHR ''_'')"

definition charSextet :: "char \<Rightarrow> nat option" where
  "charSextet c =
     (if inByte 65 90 c then Some (byteOf c - 65)
      else if inByte 97 122 c then Some (byteOf c - 97 + 26)
      else if inByte 48 57 c then Some (byteOf c - 48 + 52)
      else if c = CHR ''-'' then Some 62
      else if c = CHR ''_'' then Some 63
      else None)"

fun b64encode :: "string \<Rightarrow> string" where
  "b64encode [] = []"
| "b64encode [a] = [sextetChar (byteOf a div 4), sextetChar (byteOf a mod 4 * 16)]"
| "b64encode [a, b] =
     [sextetChar (byteOf a div 4), sextetChar (byteOf a mod 4 * 16 + byteOf b div 16),
      sextetChar (byteOf b mod 16 * 4)]"
| "b64encode (a # b # c # s) =
     [sextetChar (byteOf a div 4), sextetChar (byteOf a mod 4 * 16 + byteOf b div 16),
      sextetChar (byteOf b mod 16 * 4 + byteOf c div 64), sextetChar (byteOf c mod 64)] @ b64encode s"

text \<open>The strict decoder: unused bits of the last sextet must be zero.\<close>

fun b64sextets :: "nat list \<Rightarrow> string option" where
  "b64sextets [] = Some []"
| "b64sextets [w] = None"
| "b64sextets [w, x] = (if x mod 16 = 0 then Some [char_of (w * 4 + x div 16)] else None)"
| "b64sextets [w, x, y] =
     (if y mod 4 = 0 then Some [char_of (w * 4 + x div 16), char_of (x mod 16 * 16 + y div 4)] else None)"
| "b64sextets (w # x # y # z # s) =
     (case b64sextets s of
        None \<Rightarrow> None
      | Some r \<Rightarrow> Some (char_of (w * 4 + x div 16) # char_of (x mod 16 * 16 + y div 4)
          # char_of (y mod 4 * 64 + z) # r))"

fun allSome :: "'a option list \<Rightarrow> 'a list option" where
  "allSome [] = Some []"
| "allSome (None # xs) = None"
| "allSome (Some x # xs) = map_option (Cons x) (allSome xs)"

text \<open>\<open>DecodeString\<close> skips carriage returns and line feeds.\<close>

definition b64decode :: "string \<Rightarrow> string option" where
  "b64decode s =
     (case allSome (map charSextet (filter (\<lambda>c. byteOf c \<noteq> 13 \<and> byteOf c \<noteq> 10) s)) of
        None \<Rightarrow> None
      | Some ns \<Rightarrow> b64sextets ns)"

section \<open>JSON strings\<close>

definition hexLower :: "nat \<Rightarrow> char" where
  "hexLower n = (if n < 10 then char_of (48 + n) else char_of (97 + (n - 10)))"

definition jsonRune :: "nat \<times> string \<Rightarrow> string" where
  "jsonRune rb =
     (let r = fst rb in
      if r = 34 \<or> r = 92 then [char_of (92::nat), char_of r]
      else if r = 8 then [char_of (92::nat), CHR ''b'']
      else if r = 12 then [char_of (92::nat), CHR ''f'']
      else if r = 10 then [char_of (92::nat), CHR ''n'']
      else if r = 13 then [char_of (92::nat), CHR ''r'']
      else if r = 9 then [char_of (92::nat), CHR ''t'']
      else if r < 32 \<or> r = 60 \<or> r = 62 \<or> r = 38 then
        char_of (92::nat) # ''u00'' @ [hexLower (r div 16), hexLower (r mod 16)]
      else if r = 0x2028 then char_of (92::nat) # ''u2028''
      else if r = 0x2029 then char_of (92::nat) # ''u2029''
      else if r = runeError \<and> length (snd rb) = 1 then char_of (92::nat) # ''ufffd''
      else snd rb)"

definition jsonString :: "string \<Rightarrow> string" where
  "jsonString s = char_of (34::nat) # concat (map jsonRune (runes s)) @ [char_of (34::nat)]"

fun joinWith :: "string \<Rightarrow> string list \<Rightarrow> string" where
  "joinWith sep [] = []"
| "joinWith sep [x] = x"
| "joinWith sep (x # y # xs) = x @ sep @ joinWith sep (y # xs)"

definition jsonStrings :: "string list \<Rightarrow> string" where
  "jsonStrings xs = ''['' @ joinWith '','' (map jsonString xs) @ '']''"

section \<open>Splitting\<close>

text \<open>\<open>strings.SplitN(s, sep, n)\<close> for a positive \<open>n\<close>.\<close>

fun splitN :: "char \<Rightarrow> nat \<Rightarrow> string \<Rightarrow> string list" where
  "splitN sep (Suc 0) s = [s]"
| "splitN sep 0 s = []"
| "splitN sep (Suc (Suc n)) s =
     (if sep \<in> set s then takeWhile (\<lambda>c. c \<noteq> sep) s # splitN sep (Suc n) (tl (dropWhile (\<lambda>c. c \<noteq> sep) s))
      else [s])"

section \<open>Lemmas\<close>

lemma byteOf_less [simp]: "byteOf c < 256"
  by (simp add: byteOf_def of_char_def)

lemma char_of_byteOf [simp]: "char_of (byteOf c) = c"
  by (simp add: byteOf_def)

lemma byteOf_literals [simp]: "byteOf (CHR ''-'') = 45" "byteOf (CHR ''_'') = 95" "byteOf (CHR ''.'') = 46"
  by (simp_all add: byteOf_def)

lemma byteOf_sextetChar:
  "n < 64 \<Longrightarrow> byteOf (sextetChar n) =
     (if n < 26 then 65 + n else if n < 52 then 71 + n else if n < 62 then n - 4 else if n = 62 then 45 else 95)"
  by (simp add: sextetChar_def byteOf_char_of)

lemma charSextet_sextetChar [simp]: "n < 64 \<Longrightarrow> charSextet (sextetChar n) = Some n"
  unfolding charSextet_def inByte_def
  by (simp add: byteOf_sextetChar flip: byteOf_inject) linarith

text \<open>Encoded text uses letters, digits, the hyphen and the underscore.\<close>

definition b64char :: "char \<Rightarrow> bool" where
  "b64char c = (charSextet c \<noteq> None)"

lemma sextets_less:
  "byteOf a div 4 < 64" "byteOf a mod 4 * 16 + byteOf b div 16 < 64" "byteOf b mod 16 * 4 + byteOf c div 64 < 64"
  "byteOf c mod 64 < 64" "byteOf a mod 4 * 16 < 64" "byteOf b mod 16 * 4 < 64"
proof -
  show a: "byteOf a div 4 < 64" by (rule less_mult_imp_div_less) simp
  have b: "byteOf b div 16 < 16" by (rule less_mult_imp_div_less) simp
  have c: "byteOf c div 64 < 4" by (rule less_mult_imp_div_less) simp
  have m: "byteOf a mod 4 < 4" "byteOf b mod 16 < 16" "byteOf c mod 64 < 64" by simp_all
  show "byteOf c mod 64 < 64" by simp
  show "byteOf a mod 4 * 16 + byteOf b div 16 < 64" "byteOf a mod 4 * 16 < 64" using m(1) b by linarith+
  show "byteOf b mod 16 * 4 + byteOf c div 64 < 64" "byteOf b mod 16 * 4 < 64" using m(2) c by linarith+
qed

lemma b64encode_chars: "c \<in> set (b64encode s) \<Longrightarrow> \<exists>n < 64. c = sextetChar n"
  by (induction s rule: b64encode.induct) (auto intro: sextets_less)

lemma b64encode_plain:
  "c \<in> set (b64encode s) \<Longrightarrow> byteOf c \<noteq> 46 \<and> byteOf c \<noteq> 10 \<and> byteOf c \<noteq> 13"
  by (drule b64encode_chars) (auto simp: byteOf_sextetChar split: if_splits)

lemma regroup:
  "(byteOf a div 4) * 4 + (byteOf a mod 4 * 16 + byteOf b div 16) div 16 = byteOf a"
  "(byteOf a mod 4 * 16 + byteOf b div 16) mod 16 * 16 + (byteOf b mod 16 * 4 + byteOf c div 64) div 4 = byteOf b"
  "(byteOf b mod 16 * 4 + byteOf c div 64) mod 4 * 64 + byteOf c mod 64 = byteOf c"
proof -
  have b: "byteOf b div 16 < 16" by (rule less_mult_imp_div_less) simp
  have c: "byteOf c div 64 < 4" by (rule less_mult_imp_div_less) simp
  have 1: "(byteOf a mod 4 * 16 + byteOf b div 16) div 16 = byteOf a mod 4"
    "(byteOf a mod 4 * 16 + byteOf b div 16) mod 16 = byteOf b div 16" using b by simp_all
  have 2: "(byteOf b mod 16 * 4 + byteOf c div 64) div 4 = byteOf b mod 16"
    "(byteOf b mod 16 * 4 + byteOf c div 64) mod 4 = byteOf c div 64" using c by simp_all
  show "(byteOf a div 4) * 4 + (byteOf a mod 4 * 16 + byteOf b div 16) div 16 = byteOf a"
    "(byteOf a mod 4 * 16 + byteOf b div 16) mod 16 * 16 + (byteOf b mod 16 * 4 + byteOf c div 64) div 4 = byteOf b"
    "(byteOf b mod 16 * 4 + byteOf c div 64) mod 4 * 64 + byteOf c mod 64 = byteOf c"
    unfolding 1 2 by simp_all
qed

text \<open>The sextets of an encoding decode to the bytes that were encoded.\<close>

fun sextetsOf :: "string \<Rightarrow> nat list" where
  "sextetsOf [] = []"
| "sextetsOf [a] = [byteOf a div 4, byteOf a mod 4 * 16]"
| "sextetsOf [a, b] = [byteOf a div 4, byteOf a mod 4 * 16 + byteOf b div 16, byteOf b mod 16 * 4]"
| "sextetsOf (a # b # c # s) =
     [byteOf a div 4, byteOf a mod 4 * 16 + byteOf b div 16, byteOf b mod 16 * 4 + byteOf c div 64,
      byteOf c mod 64] @ sextetsOf s"

lemma b64encode_sextets: "b64encode s = map sextetChar (sextetsOf s)"
  by (induction s rule: sextetsOf.induct) simp_all

lemma sextetsOf_less: "list_all (\<lambda>n. n < 64) (sextetsOf s)"
  by (induction s rule: sextetsOf.induct) (simp_all add: sextets_less)

lemma b64sextets_sextetsOf: "b64sextets (sextetsOf s) = Some s"
proof (induction s rule: sextetsOf.induct)
  case (2 a)
  then show ?case using regroup(1) [of a "char_of (0::nat)"] by (simp add: byteOf_char_of)
next
  case (3 a b)
  then show ?case using regroup(1) [of a b] regroup(2) [of a b "char_of (0::nat)"] by (simp add: byteOf_char_of)
next
  case (4 a b c s)
  then show ?case using regroup(1) [of a b] regroup(2) [of a b c] regroup(3) [of b c] by simp
qed simp

lemma allSome_map: "list_all (\<lambda>n. n < 64) ns \<Longrightarrow> allSome (map charSextet (map sextetChar ns)) = Some ns"
  by (induction ns) simp_all

theorem b64decode_b64encode [simp]: "b64decode (b64encode s) = Some s"
proof -
  have "filter (\<lambda>c. byteOf c \<noteq> 13 \<and> byteOf c \<noteq> 10) (b64encode s) = b64encode s"
    using b64encode_plain by (auto simp: filter_id_conv)
  then show ?thesis
    using allSome_map [OF sextetsOf_less, of s]
    by (simp add: b64decode_def b64encode_sextets b64sextets_sextetsOf)
qed

lemma b64encode_inject [simp]: "b64encode s = b64encode t \<longleftrightarrow> s = t"
  by (metis b64decode_b64encode option.inject)

lemma splitByte_none: "sep \<notin> set s \<Longrightarrow> splitByte sep s = [s]"
  by (induction s) auto

lemma splitByte_two: "sep \<notin> set a \<Longrightarrow> sep \<notin> set b \<Longrightarrow> splitByte sep (a @ sep # b) = [a, b]"
  by (induction a) (auto simp: splitByte_none)

lemma splitN_three:
  assumes "sep \<notin> set a" "sep \<notin> set b"
  shows "splitN sep (Suc (Suc (Suc 0))) (a @ sep # b @ sep # c) = [a, b, c]"
proof -
  have t: "takeWhile (\<lambda>c. c \<noteq> sep) (x @ sep # y) = x" "dropWhile (\<lambda>c. c \<noteq> sep) (x @ sep # y) = sep # y"
    if "sep \<notin> set x" for x y
    using that by (induction x) auto
  show ?thesis using t [OF assms(1)] t [OF assms(2)] by simp
qed

end
