(* ===== verification/Bytes.thy ===== *)
theory Bytes
  imports Go_Numbers Go_Encoding Client_Profile
begin

text \<open>
  Byte sequences as the code frames them: \<open>encoding/binary\<close>'s big-endian integers, slices taken from
  the front of a buffer, and \<open>strings.ContainsAny\<close> over bytes.
\<close>

fun bigEndian :: "nat \<Rightarrow> nat \<Rightarrow> string" where
  "bigEndian 0 v = []"
| "bigEndian (Suc n) v = char_of (v div 256 ^ n) # bigEndian n v"

definition readBE :: "string \<Rightarrow> nat" where
  "readBE bs = foldl (\<lambda>acc b. 256 * acc + byteOf b) 0 bs"

definition takeBytes :: "nat \<Rightarrow> string \<Rightarrow> (string \<times> string) option" where
  "takeBytes n plain = (if n > length plain then None else Some (take n plain, drop n plain))"

definition takeBE :: "nat \<Rightarrow> string \<Rightarrow> (nat \<times> string) option" where
  "takeBE n plain = (case takeBytes n plain of None \<Rightarrow> None | Some (b, rest) \<Rightarrow> Some (readBE b, rest))"

definition hasControl :: "string \<Rightarrow> bool" where
  "hasControl s = list_ex (\<lambda>c. byteOf c \<in> {0, 10, 13}) s"

lemma byteOf_char_mod [simp]: "byteOf (char_of n) = n mod 256"
  by (simp add: byteOf_def)

lemma byteOf_inj: "byteOf a = byteOf b \<longleftrightarrow> a = b"
  by (simp add: byteOf_def)

lemma length_bigEndian [simp]: "length (bigEndian n v) = n"
  by (induction n) simp_all

lemma readBE_foldl: "foldl (\<lambda>acc b. 256 * acc + byteOf b) a (bigEndian n v) = a * 256 ^ n + v mod 256 ^ n"
proof (induction n arbitrary: a)
  case (Suc n)
  have "v mod 256 ^ Suc n = (v div 256 ^ n mod 256) * 256 ^ n + v mod 256 ^ n"
    using mod_mult2_eq [of v "256 ^ n" 256] by (simp add: algebra_simps)
  then show ?case by (simp add: Suc) (simp add: algebra_simps)
qed simp

lemma readBE_bigEndian [simp]: "readBE (bigEndian n v) = v mod 256 ^ n"
  by (simp add: readBE_def readBE_foldl)

lemma takeBytes_append [simp]: "n = length xs \<Longrightarrow> takeBytes n (xs @ ys) = Some (xs, ys)"
  by (simp add: takeBytes_def)

lemma takeBE_append [simp]: "v < 256 ^ n \<Longrightarrow> takeBE n (bigEndian n v @ ys) = Some (v, ys)"
  by (simp add: takeBE_def)

lemma bigEndian_inj: "v < 256 ^ n \<Longrightarrow> w < 256 ^ n \<Longrightarrow> bigEndian n v = bigEndian n w \<Longrightarrow> v = w"
  by (metis readBE_bigEndian mod_less)

text \<open>A frame: the length of the data as a 4 or 8 byte integer, then the data.  Frames are uniquely read.\<close>

lemma framed_inj:
  assumes "bigEndian n (length a) @ a @ xs = bigEndian n (length b) @ b @ ys"
    and "length a < 256 ^ n" "length b < 256 ^ n"
  shows "a = b \<and> xs = ys"
proof -
  have "length (bigEndian n (length a)) = length (bigEndian n (length b))" by simp
  then have "bigEndian n (length a) = bigEndian n (length b)" and rest: "a @ xs = b @ ys"
    using assms(1) append_eq_append_conv by blast+
  then have "length a = length b" using bigEndian_inj assms(2,3) by blast
  with rest show ?thesis by simp
qed

section \<open>Trimming\<close>

lemma dropWhile_infix: "\<exists>pre. xs = pre @ dropWhile P xs"
  by (metis takeWhile_dropWhile_id)

lemma trimSpace_infix: "\<exists>a b. s = a @ trimSpace s @ b"
proof -
  let ?P = "isSpaceRune \<circ> fst"
  obtain a where a: "runes s = a @ dropWhile ?P (runes s)" using dropWhile_infix by blast
  obtain b where b: "rev (dropWhile ?P (runes s)) = b @ dropWhile ?P (rev (dropWhile ?P (runes s)))" using dropWhile_infix by blast
  then have "dropWhile ?P (runes s) = rev (dropWhile ?P (rev (dropWhile ?P (runes s)))) @ rev b"
    by (metis rev_append rev_rev_ident)
  with a have "runes s = a @ rev (dropWhile ?P (rev (dropWhile ?P (runes s)))) @ rev b" by simp
  then have "concat (map snd (runes s)) = concat (map snd a) @ trimSpace s @ concat (map snd (rev b))"
    unfolding trimSpace_def by (metis concat_append map_append)
  then show ?thesis by (metis concat_runes)
qed

lemma trimSpace_length:
  assumes "length (trimSpace s) = length s"
  shows "trimSpace s = s"
proof -
  obtain a b where s: "s = a @ trimSpace s @ b" using trimSpace_infix by blast
  then have "length s = length a + length (trimSpace s) + length b" by (metis add.assoc length_append)
  with assms have "a = []" "b = []" by auto
  with s show ?thesis by simp
qed

lemma length_canonicalBytes: "length (canonicalBytes up s) = length s"
  by (induction s arbitrary: up) (simp_all add: Let_def)

text \<open>A header name that its canonical form equals up to white space is canonical already.\<close>

lemma canonical_trimmed: "canonicalMIMEHeaderKey s = trimSpace s \<Longrightarrow> canonicalMIMEHeaderKey s = s"
  by (metis canonicalMIMEHeaderKey_def length_canonicalBytes trimSpace_length)

end
