(* ===== verification/Credential_Envelope.thy ===== *)
theory Credential_Envelope
  imports Bytes Core_Types
begin

text \<open>
  \<open>internal/credential/types.go\<close> and \<open>internal/credential/envelope.go\<close>: the encrypted envelopes of
  upstream secrets, the key rings that seal and open them, and the leases that put a secret into an
  outbound request.  AES-GCM is the argument \<open>gcm\<close>: \<open>gcm_Seal\<close> and \<open>gcm_Open\<close> take the key, the nonce,
  the document and the additional data.  A JSON document that is sealed is its value.
\<close>

section \<open>Types\<close>

record Identity =
  id_TenantID :: string
  id_ConnectionID :: string
  id_CredentialID :: string
  id_AccountID :: string
  id_Provider :: string
  id_Version :: int64

record APIKey =
  ak_Value :: string
  ak_Header :: string
  ak_Prefix :: string

record OAuthToken =
  ot_AccessToken :: string
  ot_RefreshToken :: string
  ot_TokenType :: string
  ot_ExpiresAt :: time
  ot_Scopes :: "string list"

record Secret =
  sc_APIKey :: "APIKey option"
  sc_OAuth :: "OAuthToken option"

record Envelope =
  en_KeyID :: string
  en_Nonce :: string
  en_Ciphertext :: string

record Metadata =
  mt_CredentialID :: string
  mt_Provider :: string
  mt_AccountID :: string
  mt_Status :: string
  mt_Version :: int64
  mt_RotatedAt :: time
  mt_ExpiresAt :: "time option"

record CredentialRecord =
  cr_Identity :: Identity
  cr_Envelope :: Envelope
  cr_Status :: string
  cr_RotatedAt :: time

record RefreshIntent =
  ri_Identity :: Identity
  ri_AttemptID :: string
  ri_Fence :: string
  ri_LeaseUntil :: time

record LoginSession =
  lo_StateHash :: string
  lo_TenantID :: string
  lo_AdminSessionID :: string
  lo_Connector :: string
  lo_ConnectionID :: string
  lo_AccountID :: string
  lo_Nonce :: string
  lo_RedirectURI :: string
  lo_Verifier :: string
  lo_VerifierEnvelope :: Envelope
  lo_ConnectionVersion :: int64
  lo_ExpiresAt :: time

definition ErrReauthRequired :: go_error where
  "ErrReauthRequired = Sentinel ''credential requires reauthentication''"

definition ErrInvalidEnvelope :: go_error where
  "ErrInvalidEnvelope = Sentinel ''invalid credential envelope''"

definition ErrInvalidCredential :: go_error where
  "ErrInvalidCredential = Sentinel ''invalid credential''"

section \<open>Key rings\<close>

record Keyring =
  kr_Current :: "(string \<times> string) res"
  kr_ByID :: "string \<Rightarrow> string res"

record StaticKeyring =
  kg_ID :: string
  kg_Key :: string
  kg_Previous :: "(string \<times> string) list"

definition staticCurrent :: "StaticKeyring \<Rightarrow> (string \<times> string) res" where
  "staticCurrent k =
     (if length (kg_Key k) \<noteq> 32 \<or> kg_ID k = '''' then Inl ErrInvalidCredential else Inr (kg_ID k, kg_Key k))"

definition staticByID :: "StaticKeyring \<Rightarrow> string \<Rightarrow> string res" where
  "staticByID k rid =
     (if rid = kg_ID k then Inr (kg_Key k)
      else case map_of (kg_Previous k) rid of
        Some v \<Rightarrow> if length v = 32 then Inr v else Inl ErrInvalidEnvelope
      | None \<Rightarrow> Inl ErrInvalidEnvelope)"

definition staticKeyring :: "StaticKeyring \<Rightarrow> Keyring" where
  "staticKeyring k = \<lparr>kr_Current = staticCurrent k, kr_ByID = staticByID k\<rparr>"

definition NewKeyring :: "string \<Rightarrow> string \<Rightarrow> (string \<times> string) list \<Rightarrow> StaticKeyring res" where
  "NewKeyring rid key previous =
     (if rid = '''' \<or> length key \<noteq> 32 then Inl (GoErr ''master key must be exactly 32 bytes'')
      else Inr \<lparr>kg_ID = rid, kg_Key = key, kg_Previous = previous\<rparr>)"

section \<open>Sealing and opening\<close>

record ('p, 'a) aead =
  gcm_Seal :: "string \<Rightarrow> string \<Rightarrow> 'p \<Rightarrow> 'a \<Rightarrow> string"
  gcm_Open :: "string \<Rightarrow> string \<Rightarrow> string \<Rightarrow> 'a \<Rightarrow> 'p option"

definition nonceSize :: nat where
  "nonceSize = 12"

definition overhead :: nat where
  "overhead = 16"

text \<open>\<open>aes.NewCipher\<close>: whether the key has a size of AES.\<close>

definition aesKey :: "string \<Rightarrow> bool" where
  "aesKey key = (length key \<in> {16, 24, 32})"

definition keySizeError :: go_error where
  "keySizeError = GoErr ''crypto/aes: invalid key size''"

definition validateSecret :: "Secret \<Rightarrow> unit res" where
  "validateSecret s =
     (if (sc_APIKey s = None) = (sc_OAuth s = None) then Inl ErrInvalidCredential
      else if (case sc_APIKey s of None \<Rightarrow> False | Some k \<Rightarrow> trimSpace (ak_Value k) = '''') then Inl ErrInvalidCredential
      else if (case sc_OAuth s of None \<Rightarrow> False | Some t \<Rightarrow> trimSpace (ot_AccessToken t) = '''') then Inl ErrInvalidCredential
      else Inr ())"

text \<open>\<open>nonce\<close> is what the random source delivered.\<close>

definition Seal :: "(Secret, Identity) aead \<Rightarrow> string res \<Rightarrow> Keyring \<Rightarrow> Identity \<Rightarrow> Secret \<Rightarrow> Envelope res" where
  "Seal gcm nonce keyring i secret =
     bindR (kr_Current keyring) (\<lambda>(rid, key).
     bindR (validateSecret secret) (\<lambda>_.
     if \<not> aesKey key then Inl keySizeError
     else bindR nonce (\<lambda>n. Inr \<lparr>en_KeyID = rid, en_Nonce = n, en_Ciphertext = gcm_Seal gcm key n secret i\<rparr>)))"

definition OpenEnvelope :: "(Secret, Identity) aead \<Rightarrow> Keyring \<Rightarrow> Identity \<Rightarrow> Envelope \<Rightarrow> Secret res" where
  "OpenEnvelope gcm keyring i e =
     (if en_KeyID e = '''' then Inl ErrInvalidEnvelope
      else case kr_ByID keyring (en_KeyID e) of
        Inl _ \<Rightarrow> Inl ErrInvalidEnvelope
      | Inr key \<Rightarrow>
          if \<not> aesKey key then Inl ErrInvalidEnvelope
          else if length (en_Nonce e) \<noteq> nonceSize then Inl ErrInvalidEnvelope
          else (case gcm_Open gcm key (en_Nonce e) (en_Ciphertext e) i of
            None \<Rightarrow> Inl ErrInvalidEnvelope
          | Some s \<Rightarrow> (case validateSecret s of Inl _ \<Rightarrow> Inl ErrInvalidEnvelope | Inr _ \<Rightarrow> Inr s)))"

definition Masked :: "CredentialRecord \<Rightarrow> Metadata" where
  "Masked r =
     \<lparr>mt_CredentialID = id_CredentialID (cr_Identity r), mt_Provider = id_Provider (cr_Identity r),
      mt_AccountID = id_AccountID (cr_Identity r), mt_Status = cr_Status r, mt_Version = id_Version (cr_Identity r),
      mt_RotatedAt = cr_RotatedAt r, mt_ExpiresAt = None\<rparr>"

definition maskedSecret :: "CredentialRecord \<Rightarrow> Secret \<Rightarrow> Metadata" where
  "maskedSecret r s =
     (case sc_OAuth s of
        None \<Rightarrow> Masked r
      | Some t \<Rightarrow> if isZeroTime (ot_ExpiresAt t) then Masked r else (Masked r)\<lparr>mt_ExpiresAt := Some (ot_ExpiresAt t)\<rparr>)"

section \<open>Authorizing a request\<close>

definition delHeader :: "string \<Rightarrow> header \<Rightarrow> header" where
  "delHeader key h = AList.delete (canonicalMIMEHeaderKey key) h"

definition headerValues :: "string \<Rightarrow> header \<Rightarrow> string list" where
  "headerValues key h = (case map_of h (canonicalMIMEHeaderKey key) of None \<Rightarrow> [] | Some vs \<Rightarrow> vs)"

definition headerGet :: "string \<Rightarrow> header \<Rightarrow> string" where
  "headerGet key h = (case headerValues key h of [] \<Rightarrow> '''' | v # _ \<Rightarrow> v)"

definition validClaudeSubscriptionToken :: "string \<Rightarrow> bool" where
  "validClaudeSubscriptionToken val = (val \<noteq> '''' \<and> list_all tokenByte val)"

definition invalidClaudeSubscriptionHeader :: "string \<Rightarrow> go_error" where
  "invalidClaudeSubscriptionHeader msg = Problem ''invalid_request'' 400 msg"

definition claudeSubscriptionOAuthBeta :: string where
  "claudeSubscriptionOAuthBeta = ''oauth-2025-04-20''"

text \<open>The tokens collected so far are the seen ones, in the order of their first occurrence.\<close>

definition betaToken :: "string \<Rightarrow> string list \<Rightarrow> string list res" where
  "betaToken raw tokens =
     (let token = trimSpace raw in
      if \<not> validClaudeSubscriptionToken token then
        Inl (invalidClaudeSubscriptionHeader ''Claude subscription anthropic-beta contains an invalid capability value'')
      else if token \<in> set tokens then Inr tokens
      else Inr (tokens @ [token]))"

definition betaValue :: "string \<Rightarrow> string list \<Rightarrow> string list res" where
  "betaValue val tokens =
     (if val = '''' \<or> hasControl val then
        Inl (invalidClaudeSubscriptionHeader ''Claude subscription anthropic-beta must contain capability values'')
      else foldR betaToken (splitByte (CHR '','') val) tokens)"

definition mergeClaudeSubscriptionBeta :: "header \<Rightarrow> header res" where
  "mergeClaudeSubscriptionBeta h =
     bindR (foldR betaValue (headerValues ''anthropic-beta'' h) []) (\<lambda>tokens.
     let all = (if claudeSubscriptionOAuthBeta \<in> set tokens then tokens else tokens @ [claudeSubscriptionOAuthBeta]) in
     Inr (setHeader ''anthropic-beta'' (joinWith '','' all) h))"

definition keylessAuthorize :: "header \<Rightarrow> header" where
  "keylessAuthorize h = delHeader ''x-goog-api-key'' (delHeader ''x-api-key'' (delHeader ''Authorization'' h))"

record lease =
  le_record :: CredentialRecord
  le_secret :: Secret
  le_closed :: bool

definition emptySecret :: Secret where
  "emptySecret = \<lparr>sc_APIKey = None, sc_OAuth = None\<rparr>"

definition closeLease :: "lease \<Rightarrow> lease" where
  "closeLease l = l\<lparr>le_closed := True, le_secret := emptySecret\<rparr>"

definition authorizeAPIKey :: "APIKey \<Rightarrow> header \<Rightarrow> header" where
  "authorizeAPIKey k h =
     (let name = (if ak_Header k = '''' then ''Authorization'' else ak_Header k) in
      if equalFold name ''authorization'' then
        setHeader ''Authorization'' (trimSpace (ak_Prefix k @ '' '' @ ak_Value k)) (delHeader ''Authorization'' h)
      else setHeader name (ak_Prefix k @ ak_Value k) (delHeader name h))"

definition authorizeOAuth :: "OAuthToken \<Rightarrow> string \<Rightarrow> header \<Rightarrow> header" where
  "authorizeOAuth t claudeBeta h =
     (let typ = (if ot_TokenType t = '''' then ''Bearer'' else ot_TokenType t);
          h1 = setHeader ''Authorization'' (typ @ '' '' @ ot_AccessToken t) (keylessAuthorize h)
      in if claudeBeta = '''' then h1 else setHeader ''anthropic-beta'' claudeBeta h1)"

text \<open>
  \<open>lease.Authorize\<close>: a nil request is \<open>None\<close>, its header map may be nil; a nil OAuth token that is
  reached is Go's nil dereference.
\<close>

definition Authorize :: "lease \<Rightarrow> header option option \<Rightarrow> header res" where
  "Authorize l r =
     (if le_closed l then Inl ErrInvalidCredential
      else case r of
        None \<Rightarrow> Inl ErrInvalidCredential
      | Some h0 \<Rightarrow>
          let h = (case h0 of None \<Rightarrow> [] | Some x \<Rightarrow> x);
              s = le_secret l;
              claude = (id_Provider (cr_Identity (le_record l)) = ''claude-subscription'' \<and> sc_OAuth s \<noteq> None)
          in bindR (if claude then mergeClaudeSubscriptionBeta h else Inr h) (\<lambda>h1.
             let claudeBeta = (if claude then headerGet ''anthropic-beta'' h1 else '''') in
             case sc_APIKey s of
               Some k \<Rightarrow> Inr (authorizeAPIKey k h1)
             | None \<Rightarrow>
                 (case sc_OAuth s of
                    None \<Rightarrow> Inl (GoErr ''runtime error: nil pointer dereference'')
                  | Some t \<Rightarrow> Inr (authorizeOAuth t claudeBeta h1))))"

definition leaseSecret :: "CredentialRecord \<Rightarrow> Secret \<Rightarrow> lease res" where
  "leaseSecret r s = bindR (validateSecret s) (\<lambda>_. Inr \<lparr>le_record = r, le_secret = s, le_closed = False\<rparr>)"

definition leaseRecord :: "(Secret, Identity) aead \<Rightarrow> Keyring \<Rightarrow> CredentialRecord \<Rightarrow> lease res" where
  "leaseRecord gcm keys r = bindR (OpenEnvelope gcm keys (cr_Identity r) (cr_Envelope r)) (\<lambda>s. leaseSecret r s)"

definition ConstantTimeEqual :: "string \<Rightarrow> string \<Rightarrow> bool" where
  "ConstantTimeEqual a b = (length a = length b \<and> list_all2 (\<lambda>x y. x = y) a b)"

end
