(* ===== verification/Durable_Types.thy ===== *)
theory Durable_Types
  imports Credential_Envelope
begin

text \<open>
  The documents that \<open>durable_records\<close> keeps for other packages: stored credentials and device
  authorizations (\<open>store/auxiliary.go\<close>, \<open>store/device_flow.go\<close>, \<open>credential/device.go\<close>), provider jobs
  and upload continuations (\<open>resource/resource.go\<close>) and realtime tickets (\<open>realtime/ticket.go\<close>).
  \<open>jb_AttemptID\<close> is the attempt identity that \<open>jobAttemptID\<close> reads from a job's metadata document,
  \<open>jb_Metadata\<close> the document.
\<close>

record storedCredential =
  cs_Record :: CredentialRecord
  cs_Intent :: "RefreshIntent option"
  cs_RefreshStatus :: string

record DeviceState =
  dv_ID :: string
  dv_TenantID :: string
  dv_AdminSessionID :: string
  dv_ConnectionID :: string
  dv_AccountID :: string
  dv_Connector :: string
  dv_ConnectionVersion :: int64
  dv_DeviceCodeEnvelope :: Envelope
  dv_CompletionEnvelope :: Envelope
  dv_IDTokenEnvelope :: Envelope
  dv_UserCode :: string
  dv_VerificationURI :: string
  dv_VerificationURIComplete :: string
  dv_ExpiresAt :: time
  dv_PollAfter :: time
  dv_LeaseUntil :: time
  dv_PollInterval :: duration
  dv_LeaseOwner :: string
  dv_Status :: string
  dv_LastError :: string
  dv_Version :: int64

record deviceFlowRecord =
  df_TenantID :: string
  df_BindingHash :: string
  df_Version :: int64
  df_ExpiresAt :: time
  df_Ciphertext :: string
  df_Consumed :: bool

record Job =
  jb_TenantID :: string
  jb_ConnectionID :: string
  jb_AccountID :: string
  jb_ResourceID :: string
  jb_Operation :: string
  jb_Status :: string
  jb_RequestID :: string
  jb_Usage :: "Usage option"
  jb_CreatedAt :: time
  jb_UpdatedAt :: time
  jb_NextPoll :: time
  jb_LeaseOwner :: string
  jb_Fence :: int64
  jb_LeaseUntil :: time
  jb_SettlementPending :: bool
  jb_AttemptID :: string
  jb_Metadata :: string

record Continuation =
  ct_ID :: string
  ct_TenantID :: string
  ct_ConnectionID :: string
  ct_AccountID :: string
  ct_UploadID :: string
  ct_UpstreamURL :: string
  ct_ExpiresAt :: time
  ct_Ciphertext :: string
  ct_KeyID :: string
  ct_Metadata :: string

record Ticket =
  tk_IDHash :: string
  tk_TenantID :: string
  tk_ConnectionID :: string
  tk_ModelID :: string
  tk_KeyID :: string
  tk_SessionID :: string
  tk_Principal :: Principal
  tk_Grants :: "string list"
  tk_ExpiresAt :: time
  tk_Used :: bool

end
