(* ===== verification/Store_State.thy ===== *)
theory Store_State
  imports Durable_Types Go_Numbers
begin

text \<open>
  The relational state behind \<open>store.Store\<close> and its transactions, from \<open>store/migrations.go\<close>,
  \<open>store/store.go\<close> and the row types of \<open>store/admission.go\<close>, \<open>store/keys.go\<close> and
  \<open>store/auth.go\<close>.  Every table is an association list from its primary key to the other
  columns.  A JSON column is its decoded value, \<open>None\<close> or a foreign constructor when the column
  does not decode; identifiers are taken to be UTF-8, on which encoding and decoding is the
  identity.  \<open>withTx\<close> is the transaction boundary: an error of the body, of opening or of
  committing the transaction leaves every table as it was.
\<close>

section \<open>Rows\<close>

record attemptEnvelope =
  ev_Plan :: AttemptPlan
  ev_Submitted :: AttemptPlan
  ev_SubjectID :: string
  ev_Outcome :: "AttemptOutcome option"
  ev_Held :: "int64 list"
  ev_ChargedCost :: int64
  ev_ChargedCostKnown :: bool
  ev_Reconciled :: bool
  ev_AcceptedEvidence :: string
  ev_UpdatedAt :: int64
  ev_ConcurrencyReleased :: bool
  ev_Price :: "PriceSchedule option"

record attemptRow =
  at_RequestID :: string
  at_State :: string
  at_Version :: int64
  at_Deadline :: int64
  at_UpdatedAt :: int64
  at_Data :: "attemptEnvelope option"

text \<open>The primary key of \<open>allowances\<close> and \<open>policy_limits\<close>: tenant, scope kind, scope, window, kind.\<close>

type_synonym limitKey = "string \<times> string \<times> string \<times> string \<times> string"

record allowanceRow =
  aw_reserved :: int64
  aw_version :: int64

record policyLimitRow =
  lm_maximum :: int64
  lm_reserve :: int64
  lm_version :: int64

record windowRow =
  qw_starts :: int64
  qw_ends :: int64

record ledgerRow =
  lg_attempt :: string
  lg_kind :: string
  lg_amount :: "int64 option"
  lg_created :: int64

record keyData =
  kd_Name :: string
  kd_Role :: string
  kd_Permissions :: "string list"
  kd_Aliases :: "string list"
  kd_Connections :: "string list"
  kd_Operations :: "Operation list"
  kd_Portable :: bool
  kd_NativeAccount :: bool
  kd_Realtime :: bool

record keyRow =
  ky_version :: int64
  ky_verifier :: string
  ky_data :: "keyData option"
  ky_revoked :: bool

record PolicyLimitData =
  pd_Scope :: string
  pd_ScopeID :: string
  pd_RequestsPerMinute :: int64
  pd_TokensPerMinute :: int64
  pd_MaxCost :: int64
  pd_Concurrency :: int64
  pd_CostWindow :: string
  pd_OutstandingJobs :: int64

record ConnectionData =
  cd_Connector :: string
  cd_AccountID :: string
  cd_BaseURL :: string
  cd_Region :: string
  cd_Project :: string
  cd_Dedicated :: bool
  cd_Enabled :: bool
  cd_Settings :: "(string \<times> string) list"
  cd_ClientProfile :: "ClientProfile option"

record ModelData =
  mo_ConnectionID :: string
  mo_UpstreamID :: string
  mo_Operations :: "string list"
  mo_Features :: "(string \<times> string) list"
  mo_InputModalities :: "string list"
  mo_OutputModalities :: "string list"
  mo_ContextLimit :: "int64 option"
  mo_OutputLimit :: "int64 option"
  mo_Provenance :: string
  mo_Price :: "PriceSchedule option"
  mo_Enabled :: bool

record AliasData =
  ad_Targets :: "RouteTarget list"
  ad_Description :: string
  ad_ModelIDs :: "string list"
  ad_Enabled :: bool

record RoutePolicyData =
  rd_Alias :: string
  rd_Targets :: "RouteTarget list"
  rd_Residency :: "string list"
  rd_Fallback :: bool
  rd_AccountPoolID :: string
  rd_Affinity :: bool

record AccountData =
  ac_Connector :: string
  ac_Name :: string
  ac_Provider :: string
  ac_AccountIDs :: "string list"

record PriceData =
  pc_ModelID :: string
  pc_Currency :: string
  pc_InputPerMillion :: int64
  pc_OutputPerMillion :: int64
  pc_CachedInputPerMillion :: "int64 option"
  pc_CacheWriteInputPerMillion :: "int64 option"
  pc_CacheWrite5mPerMillion :: "int64 option"
  pc_CacheWrite1hPerMillion :: "int64 option"

datatype resourceData =
    ConnectionRes ConnectionData
  | ModelRes ModelData
  | AliasRes AliasData
  | RouteRes RoutePolicyData
  | AccountRes AccountData
  | PriceRes PriceData
  | PolicyLimitRes PolicyLimitData
  | KeyRes keyData int64
  | OtherRes

record resourceRow =
  rs_version :: int64
  rs_data :: resourceData

record TenantData =
  td_Name :: string
  td_Enabled :: bool
  td_AllowedOrigins :: "string list"
  td_MaxBodyBytes :: int64
  td_MaxEventBytes :: int64

record OperatorData =
  od_Subject :: string
  od_Issuer :: string
  od_IdentitySubject :: string
  od_Enabled :: bool

record RoleBindingData =
  rb_Subject :: string
  rb_TenantID :: string
  rb_Role :: string

record storedSession =
  ss_Hash :: string
  ss_CSRFHash :: string
  ss_Principal :: Principal
  ss_ExpiresAt :: time

record storedBootstrap =
  sb_Principal :: Principal
  sb_ExpiresAt :: time

record storedBootstrapClaim =
  sc_TenantID :: string
  sc_SubjectID :: string
  sc_ClaimedAt :: time

record storedToken =
  sk_Principal :: Principal
  sk_ExpiresAt :: time

record LoginState =
  ls_Hash :: string
  ls_Nonce :: string
  ls_Verifier :: string
  ls_RedirectURI :: string
  ls_ExpiresAt :: time

datatype durableData =
    SessionRec storedSession
  | BootstrapRec storedBootstrap
  | ClaimRec storedBootstrapClaim
  | PrincipalRec Principal
  | TokenRec storedToken
  | LoginRec LoginState
  | CredentialRec storedCredential
  | OAuthLoginRec LoginSession
  | DeviceRec DeviceState
  | DeviceFlowRec deviceFlowRecord
  | JobRec Job
  | ContinuationRec Continuation
  | TicketRec Ticket
  | OtherRec

record durableRow =
  dr_version :: int64
  dr_data :: durableData

record auditRow =
  au_subject :: string
  au_kind :: string
  au_resource :: string
  au_action :: string
  au_version :: int64
  au_created :: int64

record idempotencyRow =
  ir_FingerprintHash :: string
  ir_OwnerID :: string
  ir_State :: string
  ir_ExpiresAt :: int64
  ir_KeyID :: string
  ir_Nonce :: string
  ir_Ciphertext :: string

record Reconciliation =
  rc_ReconciliationID :: string
  rc_Mode :: string
  rc_SourceReference :: string
  rc_Reason :: string
  rc_Usage :: "Usage option"
  rc_Cost :: "int64 option"

text \<open>The result document of a reconciliation and the row that keeps it with its request.\<close>

record reconciliationResult =
  rr_Reconciliation :: Reconciliation
  rr_Admission :: string
  rr_AdmissionVersion :: int64
  rr_State :: string
  rr_ChargedCost :: "int64 option"
  rr_Delta :: "int64 option"

record reconciliationRow =
  rw_admission :: string
  rw_request :: "string \<times> int64 \<times> Reconciliation"
  rw_result :: reconciliationResult
  rw_version :: int64

section \<open>The store\<close>

record Store =
  st_config :: "int64 option"
  st_config_revisions :: "int64 option"
  st_tenants :: "(string, TenantData option) table"
  st_operators :: "(string, OperatorData option) table"
  st_role_bindings :: "(string \<times> string, string \<times> RoleBindingData option) table"
  st_identity_subjects :: "(string, string \<times> string) table"
  st_api_keys :: "(string \<times> string, keyRow) table"
  st_resources :: "(string \<times> string \<times> string, resourceRow) table"
  st_durable :: "(string \<times> string \<times> string, durableRow) table"
  st_policy_limits :: "(limitKey, policyLimitRow) table"
  st_quota_windows :: "(string \<times> string, windowRow) table"
  st_allowances :: "(limitKey, allowanceRow) table"
  st_attempts :: "(string \<times> string, attemptRow) table"
  st_usage_ledger :: "(string \<times> string, ledgerRow) table"
  st_reconciliations :: "(string \<times> string, reconciliationRow) table"
  st_audit_events :: "(string \<times> string, auditRow) table"
  st_idempotency :: "(string \<times> string \<times> string, idempotencyRow) table"

definition emptyStore :: Store where
  "emptyStore =
     \<lparr>st_config = Some 0, st_config_revisions = Some 0, st_tenants = [], st_operators = [], st_role_bindings = [],
      st_identity_subjects = [], st_api_keys = [], st_resources = [], st_durable = [],
      st_policy_limits = [], st_quota_windows = [], st_allowances = [], st_attempts = [],
      st_usage_ledger = [], st_reconciliations = [], st_audit_events = [], st_idempotency = []\<rparr>"

section \<open>Transactions\<close>

text \<open>
  The environment of a transaction: the error, if any, of opening it or of a statement, and the
  error of the commit.
\<close>

record txEnv =
  tx_begin :: "go_error option"
  tx_commit :: "go_error option"

type_synonym 'a txn = "Store \<Rightarrow> ('a \<times> Store) res"

definition withTx :: "txEnv \<Rightarrow> 'a txn \<Rightarrow> Store \<Rightarrow> 'a res \<times> Store" where
  "withTx env fn s =
     (case tx_begin env of
        Some e \<Rightarrow> (Inl e, s)
      | None \<Rightarrow>
          (case fn s of
             Inl e \<Rightarrow> (Inl e, s)
           | Inr (a, s') \<Rightarrow>
               (case tx_commit env of
                  Some e \<Rightarrow> (Inl e, s)
                | None \<Rightarrow> (Inr a, s'))))"

definition sound :: txEnv where
  "sound = \<lparr>tx_begin = None, tx_commit = None\<rparr>"

definition storeError :: "string \<Rightarrow> nat \<Rightarrow> go_error" where
  "storeError code status = Problem code status (map (\<lambda>c. if c = CHR ''_'' then CHR '' '' else c) code)"

text \<open>
  \<open>auditTx\<close> appends one row under a fresh random identifier, which is an argument.
\<close>

definition auditTx :: "string \<Rightarrow> int64 \<Rightarrow> Principal \<Rightarrow> string \<Rightarrow> string \<Rightarrow> string \<Rightarrow> int64 \<Rightarrow> unit txn" where
  "auditTx aid clock p kind rid action version s =
     (if map_of (st_audit_events s) (pr_TenantID p, aid) \<noteq> None then
        Inl (GoErr ''UNIQUE constraint failed'')
      else Inr ((), s\<lparr>st_audit_events := AList.update (pr_TenantID p, aid)
        \<lparr>au_subject = pr_SubjectID p, au_kind = kind, au_resource = rid, au_action = action,
         au_version = version, au_created = clock\<rparr> (st_audit_events s)\<rparr>))"

definition bumpRevisionTx :: "unit txn" where
  "bumpRevisionTx s =
     (case st_config s of
        None \<Rightarrow> Inl (GoErr ''configuration revision row missing'')
      | Some r \<Rightarrow>
          (case st_config_revisions s of
             None \<Rightarrow> Inl (GoErr ''configuration revision history row missing'')
           | Some h \<Rightarrow> Inr ((), s\<lparr>st_config := Some (r + 1), st_config_revisions := Some (h + 1)\<rparr>)))"

section \<open>Transaction lemmas\<close>

text \<open>A transaction either fails and changes nothing or returns what its body returns.\<close>

lemma withTx_cases:
  "(\<exists>e. withTx env fn s = (Inl e, s)) \<or> (\<exists>a s'. fn s = Inr (a, s') \<and> withTx env fn s = (Inr a, s'))"
  by (auto simp: withTx_def split: option.splits sum.splits)

lemma withTx_Inr: "fst (withTx env fn s) = Inr a \<Longrightarrow> fn s = Inr (a, snd (withTx env fn s))"
  by (auto simp: withTx_def split: option.splits sum.splits)

lemma withTx_okD: "withTx env fn s = (Inr a, s') \<Longrightarrow> fn s = Inr (a, s')"
  by (auto simp: withTx_def split: option.splits sum.splits)

lemma withTx_Inl: "withTx env fn s = (Inl e, s') \<Longrightarrow> s' = s"
  using withTx_cases [of env fn s] by auto

lemma withTx_invariant:
  assumes "P s" and "\<And>a s'. fn s = Inr (a, s') \<Longrightarrow> P s'"
  shows "P (snd (withTx env fn s))"
  using withTx_cases [of env fn s] assms by auto

lemma withTx_frame:
  assumes "\<And>a s'. fn s = Inr (a, s') \<Longrightarrow> h s' = h s"
  shows "h (snd (withTx env fn s)) = h s"
  using withTx_cases [of env fn s] assms by auto

lemma withTx_sound: "withTx sound fn s = (case fn s of Inl e \<Rightarrow> (Inl e, s) | Inr (a, s') \<Rightarrow> (Inr a, s'))"
  by (auto simp: withTx_def sound_def split: sum.splits)

end
