(* ===== verification/Identity.thy ===== *)
theory Identity
  imports Store_State Go_Encoding
begin

text \<open>
  Who a caller is: durable records of \<open>store/auxiliary.go\<close>, memberships of \<open>store/tenancy.go\<close>, the
  role policy of \<open>admin/auth.go\<close> and the sessions, bootstrap codes, logins and tokens of
  \<open>store/auth.go\<close>.  The clock and the hashes of random secrets are arguments.  Session and
  authentication source are not part of a stored principal (\<open>storedForm\<close>), and a nil permission
  list is \<open>None\<close> in \<open>permissionsFor\<close>.
\<close>

section \<open>Durable records\<close>

definition ErrConflict :: go_error where
  "ErrConflict = Sentinel ''credential version or refresh fence changed''"

definition decodeError :: go_error where
  "decodeError = GoErr ''json: cannot unmarshal stored record''"

definition durableKey :: "string list \<Rightarrow> string" where
  "durableKey parts = b64encode (jsonStrings parts)"

text \<open>
  \<open>durableGetAny\<close>: the row of that kind and identifier in any tenant, decoded into the type the
  caller asks for.
\<close>

fun asSession :: "durableData \<Rightarrow> storedSession option" where
  "asSession (SessionRec x) = Some x"
| "asSession _ = None"

fun asBootstrap :: "durableData \<Rightarrow> storedBootstrap option" where
  "asBootstrap (BootstrapRec x) = Some x"
| "asBootstrap _ = None"

fun asClaim :: "durableData \<Rightarrow> storedBootstrapClaim option" where
  "asClaim (ClaimRec x) = Some x"
| "asClaim _ = None"

fun asPrincipal :: "durableData \<Rightarrow> Principal option" where
  "asPrincipal (PrincipalRec x) = Some x"
| "asPrincipal _ = None"

fun asToken :: "durableData \<Rightarrow> storedToken option" where
  "asToken (TokenRec x) = Some x"
| "asToken _ = None"

fun asLogin :: "durableData \<Rightarrow> LoginState option" where
  "asLogin (LoginRec x) = Some x"
| "asLogin _ = None"

definition durableGetAny :: "(durableData \<Rightarrow> 'a option) \<Rightarrow> string \<Rightarrow> string \<Rightarrow> Store \<Rightarrow> (string \<times> int64 \<times> 'a) res" where
  "durableGetAny dec kind rid s =
     (case find (\<lambda>((t, k, i), r). k = kind \<and> i = rid) (st_durable s) of
        None \<Rightarrow> Inl ErrNoRows
      | Some ((t, k, i), r) \<Rightarrow>
          (case dec (dr_data r) of
             None \<Rightarrow> Inl decodeError
           | Some x \<Rightarrow> Inr (t, dr_version r, x)))"

definition durablePut :: "string \<Rightarrow> string \<Rightarrow> string \<Rightarrow> int64 \<Rightarrow> durableData \<Rightarrow> Store \<Rightarrow> Store res" where
  "durablePut tenant kind rid version value s =
     (case map_of (st_durable s) (tenant, kind, rid) of
        None \<Rightarrow>
          if version = 0 then
            Inr (s\<lparr>st_durable := AList.update (tenant, kind, rid) \<lparr>dr_version = 1, dr_data = value\<rparr> (st_durable s)\<rparr>)
          else Inl ErrConflict
      | Some r \<Rightarrow>
          if version \<noteq> 0 \<and> dr_version r = version then
            Inr (s\<lparr>st_durable := AList.update (tenant, kind, rid)
              \<lparr>dr_version = dr_version r + 1, dr_data = value\<rparr> (st_durable s)\<rparr>)
          else Inl ErrConflict)"

definition durableDelete :: "string \<Rightarrow> string \<Rightarrow> string \<Rightarrow> Store \<Rightarrow> Store" where
  "durableDelete tenant kind rid s = s\<lparr>st_durable := AList.delete (tenant, kind, rid) (st_durable s)\<rparr>"

definition storedForm :: "Principal \<Rightarrow> Principal" where
  "storedForm p = p\<lparr>pr_SessionID := '''', pr_AuthSource := ''''\<rparr>"

definition zeroPrincipal :: Principal where
  "zeroPrincipal =
     \<lparr>pr_TenantID = '''', pr_SubjectID = '''', pr_KeyID = '''', pr_Role = '''', pr_SessionID = '''',
      pr_AuthSource = '''', pr_KeyRevision = 0, pr_Permissions = [], pr_Aliases = [], pr_Connections = [],
      pr_Operations = [], pr_Portable = False, pr_NativeAccount = False, pr_Realtime = False\<rparr>"

section \<open>Roles\<close>

definition rolePermissions :: "string \<Rightarrow> string list" where
  "rolePermissions role =
     (if role = ''owner'' then [''*'']
      else if role = ''admin'' then
        [''tenant:read'', ''connection:read'', ''connection:write'', ''connection:test'',
         ''connection:discover'', ''key:read'', ''key:write'', ''route:read'', ''route:write'',
         ''budget:read'', ''budget:write'', ''accounting:reconcile'', ''config:read'', ''config:write'',
         ''job:read'', ''job:write'', ''catalog:read'', ''catalog:write'', ''usage:read'', ''audit:read'',
         ''playground:execute'', ''session:read'']
      else if role = ''operator'' then
        [''connection:read'', ''connection:test'', ''connection:discover'', ''catalog:read'', ''job:read'',
         ''job:write'', ''playground:execute'', ''usage:read'']
      else if role = ''auditor'' then [''usage:read'', ''audit:read'', ''budget:read'']
      else if role = ''viewer'' then [''catalog:read'', ''health:read'']
      else [])"

definition permissionsFor :: "string \<Rightarrow> string list option \<Rightarrow> string list" where
  "permissionsFor role perms =
     (case perms of
        None \<Rightarrow> rolePermissions role
      | Some scopes \<Rightarrow>
          filter (\<lambda>scope. list_ex (\<lambda>grant. grant = ''*'' \<or> grant = scope) (rolePermissions role)) scopes)"

definition HasPermission :: "string \<Rightarrow> string list option \<Rightarrow> string \<Rightarrow> bool" where
  "HasPermission role perms permission =
     list_ex (\<lambda>v. v = ''*'' \<or> v = permission) (permissionsFor role perms)"

definition authorize :: "Principal \<Rightarrow> bool \<Rightarrow> unit res" where
  "authorize p write =
     (if pr_TenantID p = '''' \<or> pr_SubjectID p = '''' then Inl (storeError ''unauthorized'' 401)
      else if pr_Role p = ''owner'' \<or> pr_Role p = ''admin'' then Inr ()
      else if (pr_Role p = ''operator'' \<or> pr_Role p = ''auditor'' \<or> pr_Role p = ''viewer'') \<and> \<not> write then Inr ()
      else Inl (storeError ''forbidden'' 403))"

section \<open>Memberships\<close>

definition unauthorized :: go_error where
  "unauthorized = storeError ''unauthorized'' 401"

text \<open>
  The identity behind an operator: the external identity it declares, or the bootstrap claim of
  the tenant it was created by.
\<close>

definition identityOk :: "string \<Rightarrow> OperatorData \<Rightarrow> string \<Rightarrow> string \<Rightarrow> Store \<Rightarrow> bool" where
  "identityOk subject opr authIssuer authSubject s =
     (if od_Issuer opr \<noteq> '''' \<or> od_IdentitySubject opr \<noteq> '''' then
        od_Issuer opr \<noteq> '''' \<and> od_IdentitySubject opr \<noteq> ''''
        \<and> authIssuer = od_Issuer opr \<and> authSubject = od_IdentitySubject opr
        \<and> (case durableGetAny asPrincipal ''identity'' (durableKey [od_Issuer opr, od_IdentitySubject opr]) s of
             Inr (_, _, p) \<Rightarrow> pr_SubjectID p = subject
           | Inl _ \<Rightarrow> False)
      else
        hasPrefix authIssuer ''bootstrap:'' \<and> authSubject = subject
        \<and> (let originTenant = drop 10 authIssuer in
           originTenant \<noteq> ''''
           \<and> (case durableGetAny asClaim ''bootstrap_owner'' (durableKey [originTenant]) s of
                Inr (_, _, c) \<Rightarrow> sc_TenantID c = originTenant \<and> sc_SubjectID c = subject
              | Inl _ \<Rightarrow> False)))"

definition knownRole :: "string \<Rightarrow> bool" where
  "knownRole role = (role \<in> {''owner'', ''admin'', ''operator'', ''auditor'', ''viewer''})"

definition resolveMembershipTx :: "string \<Rightarrow> string \<Rightarrow> Store \<Rightarrow> Principal res" where
  "resolveMembershipTx tenant subject s =
     (if tenant = '''' \<or> subject = '''' then Inl unauthorized
      else case map_of (st_tenants s) tenant of
        None \<Rightarrow> Inl ErrNoRows
      | Some td \<Rightarrow>
      case map_of (st_operators s) subject of
        None \<Rightarrow> Inl ErrNoRows
      | Some od \<Rightarrow>
      case map_of (st_role_bindings s) (tenant, subject) of
        None \<Rightarrow> Inl ErrNoRows
      | Some (role, bd) \<Rightarrow>
      case td of
        None \<Rightarrow> Inl unauthorized
      | Some t \<Rightarrow>
      case od of
        None \<Rightarrow> Inl unauthorized
      | Some opr \<Rightarrow>
      case bd of
        None \<Rightarrow> Inl unauthorized
      | Some b \<Rightarrow>
          if \<not> td_Enabled t \<or> \<not> od_Enabled opr \<or> od_Subject opr \<noteq> subject \<or> rb_Subject b \<noteq> subject
             \<or> rb_TenantID b \<noteq> tenant \<or> rb_Role b \<noteq> role then Inl unauthorized
          else case map_of (st_identity_subjects s) subject of
            None \<Rightarrow> Inl ErrNoRows
          | Some (authIssuer, authSubject) \<Rightarrow>
              if \<not> identityOk subject opr authIssuer authSubject s then Inl unauthorized
              else if \<not> knownRole role then Inl unauthorized
              else Inr (zeroPrincipal\<lparr>pr_TenantID := tenant, pr_SubjectID := subject, pr_Role := role\<rparr>))"

section \<open>Sessions\<close>

definition ResolveSession :: "txEnv \<Rightarrow> time \<Rightarrow> string \<Rightarrow> Store \<Rightarrow> storedSession res \<times> Store" where
  "ResolveSession env clock hash s =
     (if hash = '''' then (Inl ErrNoRows, s)
      else withTx env (\<lambda>s.
        case durableGetAny asSession ''admin_session'' hash s of
          Inl e \<Rightarrow> Inl e
        | Inr (tenant, version, row) \<Rightarrow>
            if \<not> ss_ExpiresAt row > clock then Inl ErrNoRows
            else bindR (resolveMembershipTx (pr_TenantID (ss_Principal row)) (pr_SubjectID (ss_Principal row)) s)
              (\<lambda>p. Inr (row\<lparr>ss_Principal := p\<rparr>, s))) s)"

definition CreateSession :: "txEnv \<Rightarrow> time \<Rightarrow> storedSession \<Rightarrow> Store \<Rightarrow> unit res \<times> Store" where
  "CreateSession env clock sess s =
     (if ss_Hash sess = '''' \<or> pr_TenantID (ss_Principal sess) = '''' \<or> pr_SubjectID (ss_Principal sess) = ''''
         \<or> \<not> ss_ExpiresAt sess > clock then (Inl (GoErr ''invalid session''), s)
      else withTx env (\<lambda>s.
        bindR (resolveMembershipTx (pr_TenantID (ss_Principal sess)) (pr_SubjectID (ss_Principal sess)) s) (\<lambda>p.
        bindR (durablePut (pr_TenantID p) ''admin_session'' (ss_Hash sess) 0
                 (SessionRec (sess\<lparr>ss_Principal := storedForm p\<rparr>)) s) (\<lambda>s'. Inr ((), s')))) s)"

definition DeleteSession :: "txEnv \<Rightarrow> string \<Rightarrow> Store \<Rightarrow> unit res \<times> Store" where
  "DeleteSession env hash s =
     (if hash = '''' then (Inl (GoErr ''session hash required''), s)
      else withTx env (\<lambda>s.
        case durableGetAny asSession ''admin_session'' hash s of
          Inl e \<Rightarrow> Inl e
        | Inr (tenant, version, row) \<Rightarrow> Inr ((), durableDelete tenant ''admin_session'' hash s)) s)"

definition SelectSessionTenant :: "txEnv \<Rightarrow> time \<Rightarrow> string \<Rightarrow> string \<Rightarrow> Store \<Rightarrow> storedSession res \<times> Store" where
  "SelectSessionTenant env clock hash tenant s =
     (if hash = '''' \<or> tenant = '''' then (Inl (GoErr ''session tenant required''), s)
      else withTx env (\<lambda>s.
        case durableGetAny asSession ''admin_session'' hash s of
          Inl e \<Rightarrow> Inl e
        | Inr (oldTenant, version, row) \<Rightarrow>
            if \<not> ss_ExpiresAt row > clock then Inl ErrNoRows
            else
              bindR (resolveMembershipTx (pr_TenantID (ss_Principal row)) (pr_SubjectID (ss_Principal row)) s) (\<lambda>_.
              case resolveMembershipTx tenant (pr_SubjectID (ss_Principal row)) s of
                Inl e \<Rightarrow> Inl (if e = ErrNoRows then storeError ''forbidden'' 403 else e)
              | Inr p \<Rightarrow>
                  bindR (durablePut tenant ''admin_session'' hash 0 (SessionRec (row\<lparr>ss_Principal := storedForm p\<rparr>))
                           (durableDelete oldTenant ''admin_session'' hash s))
                    (\<lambda>s'. Inr (row\<lparr>ss_Principal := p\<rparr>, s')))) s)"

definition SaveAdminLogin :: "txEnv \<Rightarrow> time \<Rightarrow> LoginState \<Rightarrow> Store \<Rightarrow> unit res \<times> Store" where
  "SaveAdminLogin env clock l s =
     (if ls_Hash l = '''' \<or> \<not> ls_ExpiresAt l > clock then (Inl (GoErr ''invalid login state''), s)
      else withTx env (\<lambda>s.
        bindR (durablePut '''' ''admin_login'' (ls_Hash l) 0 (LoginRec l) s) (\<lambda>s'. Inr ((), s'))) s)"

definition ConsumeAdminLogin :: "txEnv \<Rightarrow> time \<Rightarrow> string \<Rightarrow> Store \<Rightarrow> LoginState res \<times> Store" where
  "ConsumeAdminLogin env clock hash s =
     withTx env (\<lambda>s.
       case durableGetAny asLogin ''admin_login'' hash s of
         Inl e \<Rightarrow> Inl e
       | Inr (tenant, version, l) \<Rightarrow>
           if \<not> ls_ExpiresAt l > clock then Inl ErrNoRows
           else Inr (l, durableDelete tenant ''admin_login'' hash s)) s"

section \<open>Bootstrap\<close>

definition ensurePrincipal :: "Principal \<Rightarrow> Store \<Rightarrow> Store res" where
  "ensurePrincipal p s =
     (if pr_TenantID p = '''' \<or> pr_SubjectID p = '''' then Inl (GoErr ''principal identity required'')
      else let rid = durableKey [pr_TenantID p, pr_SubjectID p] in
      case durableGetAny asPrincipal ''principal'' rid s of
        Inr (t, v, old) \<Rightarrow> Inr s
      | Inl e \<Rightarrow>
          if e \<noteq> ErrNoRows then Inl e
          else durablePut (pr_TenantID p) ''principal'' rid 0 (PrincipalRec (storedForm p)) s)"

text \<open>\<open>INSERT ... ON CONFLICT DO NOTHING\<close>.\<close>

definition insertNew :: "'k \<Rightarrow> 'v \<Rightarrow> ('k, 'v) table \<Rightarrow> ('k, 'v) table" where
  "insertNew k v t = (case map_of t k of None \<Rightarrow> AList.update k v t | Some _ \<Rightarrow> t)"

definition ownerBound :: "string \<Rightarrow> Store \<Rightarrow> bool" where
  "ownerBound tenant s = list_ex (\<lambda>((t, subject), role, d). t = tenant \<and> role = ''owner'') (st_role_bindings s)"

text \<open>The checks that \<open>CreateBootstrap\<close> and \<open>ConsumeBootstrap\<close> share: nobody owns the tenant yet.\<close>

definition checkUnclaimed :: "string \<Rightarrow> Store \<Rightarrow> unit res" where
  "checkUnclaimed tenant s =
     (case durableGetAny asClaim ''bootstrap_owner'' (durableKey [tenant]) s of
        Inr (t, v, c) \<Rightarrow> Inl (GoErr ''owner already bootstrapped'')
      | Inl e \<Rightarrow>
          if e \<noteq> ErrNoRows then Inl e
          else if ownerBound tenant s then Inl (GoErr ''owner already bootstrapped'')
          else Inr ())"

definition subjectOfIdentity :: "string \<Rightarrow> string \<Rightarrow> Store \<Rightarrow> string option" where
  "subjectOfIdentity issuer identitySubject s =
     map_option fst (find (\<lambda>(sub, i, d). i = issuer \<and> d = identitySubject) (st_identity_subjects s))"

definition claimIdentitySubjectTx :: "string \<Rightarrow> string \<Rightarrow> string \<Rightarrow> bool \<Rightarrow> Store \<Rightarrow> Store res" where
  "claimIdentitySubjectTx subject issuer identitySubject allowBootstrapReplacement s =
     (case map_of (st_identity_subjects s) subject of
        Some (existingIssuer, existingIdentity) \<Rightarrow>
          if existingIssuer = issuer \<and> existingIdentity = identitySubject then Inr s
          else if allowBootstrapReplacement \<and> hasPrefix existingIssuer ''bootstrap:'' then
            (case subjectOfIdentity issuer identitySubject s of
               Some conflicting \<Rightarrow>
                 if conflicting \<noteq> subject then Inl (storeError ''identity_collision'' 409)
                 else Inr (s\<lparr>st_identity_subjects := AList.update subject (issuer, identitySubject) (st_identity_subjects s)\<rparr>)
             | None \<Rightarrow>
                 Inr (s\<lparr>st_identity_subjects := AList.update subject (issuer, identitySubject) (st_identity_subjects s)\<rparr>))
          else Inl (storeError ''identity_collision'' 409)
      | None \<Rightarrow>
          (case subjectOfIdentity issuer identitySubject s of
             Some existing \<Rightarrow> Inl (storeError ''identity_collision'' 409)
           | None \<Rightarrow>
               Inr (s\<lparr>st_identity_subjects := AList.update subject (issuer, identitySubject) (st_identity_subjects s)\<rparr>)))"

text \<open>\<open>CreateBootstrap\<close> is given the hash of the fresh code, or the error of the random source.\<close>

definition CreateBootstrap :: "txEnv \<Rightarrow> time \<Rightarrow> string res \<Rightarrow> string \<Rightarrow> string \<Rightarrow> Store \<Rightarrow> unit res \<times> Store" where
  "CreateBootstrap env clock secret tenant subject s =
     (if tenant = '''' \<or> subject = '''' then (Inl (GoErr ''bootstrap identity required''), s)
      else case secret of Inl e \<Rightarrow> (Inl e, s) | Inr hash \<Rightarrow>
      withTx env (\<lambda>s.
        bindR (checkUnclaimed tenant s) (\<lambda>_.
        if map_of (st_operators s) subject \<noteq> None then Inl (storeError ''identity_collision'' 409)
        else
          bindR (case durableGetAny asClaim ''bootstrap_reservation'' (durableKey [tenant]) s of
                   Inr (t, v, reservation) \<Rightarrow>
                     if sc_TenantID reservation \<noteq> tenant \<or> sc_SubjectID reservation \<noteq> subject then
                       Inl (storeError ''identity_collision'' 409)
                     else Inr s
                 | Inl e \<Rightarrow>
                     if e \<noteq> ErrNoRows then Inl e
                     else durablePut tenant ''bootstrap_reservation'' (durableKey [tenant]) 0
                       (ClaimRec \<lparr>sc_TenantID = tenant, sc_SubjectID = subject, sc_ClaimedAt = zeroTime\<rparr>) s) (\<lambda>s1.
          bindR (claimIdentitySubjectTx subject (''bootstrap:'' @ tenant) subject False s1) (\<lambda>s2.
          bindR (durablePut tenant ''bootstrap'' hash 0
                   (BootstrapRec \<lparr>sb_Principal = zeroPrincipal\<lparr>pr_TenantID := tenant, pr_SubjectID := subject,
                        pr_Role := ''owner'', pr_Permissions := [''*'']\<rparr>,
                      sb_ExpiresAt = clock + 600 * second\<rparr>) s2) (\<lambda>s3.
          Inr ((), s3)))))) s)"

text \<open>The writes that turn a valid bootstrap code into an owner.\<close>

definition ownerIdentity :: "string \<Rightarrow> string \<Rightarrow> Store \<Rightarrow> Store res" where
  "ownerIdentity tenant subject s =
     (let ikey = durableKey [''bootstrap:'' @ tenant, subject] in
      case durableGetAny asPrincipal ''identity'' ikey s of
        Inr (t, v, identity) \<Rightarrow>
          if pr_SubjectID identity \<noteq> subject \<or> pr_TenantID identity \<noteq> tenant then
            Inl (storeError ''identity_collision'' 409)
          else Inr s
      | Inl e \<Rightarrow>
          if e \<noteq> ErrNoRows then Inl e
          else durablePut tenant ''identity'' ikey 0
            (PrincipalRec (zeroPrincipal\<lparr>pr_TenantID := tenant, pr_SubjectID := subject\<rparr>)) s)"

definition ownerTables :: "string \<Rightarrow> string \<Rightarrow> Store \<Rightarrow> Store" where
  "ownerTables tenant subject s =
     s\<lparr>st_tenants := insertNew tenant (Some \<lparr>td_Name = tenant, td_Enabled = True,
         td_AllowedOrigins = [], td_MaxBodyBytes = 0, td_MaxEventBytes = 0\<rparr>) (st_tenants s),
       st_operators := insertNew subject (Some \<lparr>od_Subject = subject, od_Issuer = '''',
         od_IdentitySubject = '''', od_Enabled = True\<rparr>) (st_operators s),
       st_role_bindings := insertNew (tenant, subject) (''owner'', Some \<lparr>rb_Subject = subject,
         rb_TenantID = tenant, rb_Role = ''owner''\<rparr>) (st_role_bindings s)\<rparr>"

definition installOwner :: "time \<Rightarrow> string \<Rightarrow> Principal \<Rightarrow> Store \<Rightarrow> Store res" where
  "installOwner clock tenant p s =
     bindR (ownerIdentity tenant (pr_SubjectID p) (ownerTables tenant (pr_SubjectID p) s)) (\<lambda>s1.
     bindR (durablePut tenant ''bootstrap_owner'' (durableKey [tenant]) 0
              (ClaimRec \<lparr>sc_TenantID = tenant, sc_SubjectID = pr_SubjectID p, sc_ClaimedAt = clock\<rparr>) s1) (\<lambda>s2.
     ensurePrincipal p s2))"

definition ConsumeBootstrap :: "txEnv \<Rightarrow> time \<Rightarrow> string \<Rightarrow> Store \<Rightarrow> Principal res \<times> Store" where
  "ConsumeBootstrap env clock code s =
     withTx env (\<lambda>s.
       case durableGetAny asBootstrap ''bootstrap'' code s of
         Inl e \<Rightarrow> Inl e
       | Inr (tenant, v, row) \<Rightarrow>
           if \<not> sb_ExpiresAt row > clock then Inl ErrNoRows
           else
             bindR (checkUnclaimed tenant s) (\<lambda>_.
             case durableGetAny asClaim ''bootstrap_reservation'' (durableKey [tenant]) s of
               Inl e \<Rightarrow> Inl e
             | Inr (t, v, reservation) \<Rightarrow>
                 let p = sb_Principal row in
                 if sc_TenantID reservation \<noteq> tenant \<or> sc_SubjectID reservation \<noteq> pr_SubjectID p then
                   Inl (storeError ''identity_collision'' 409)
                 else (case map_of (st_identity_subjects s) (pr_SubjectID p) of
                   None \<Rightarrow> Inl ErrNoRows
                 | Some (reservedIssuer, reservedSubject) \<Rightarrow>
                     if pr_TenantID p \<noteq> tenant \<or> reservedIssuer \<noteq> ''bootstrap:'' @ tenant
                        \<or> reservedSubject \<noteq> pr_SubjectID p then Inl (storeError ''identity_collision'' 409)
                     else bindR (installOwner clock tenant p s) (\<lambda>s'.
                       Inr (p, durableDelete tenant ''bootstrap'' code s'))))) s"

section \<open>External identities and tokens\<close>

text \<open>Errors after which \<open>ResolveIdentity\<close> goes on to the next membership.\<close>

definition retryable :: "go_error \<Rightarrow> bool" where
  "retryable e = (e = ErrNoRows \<or> (case e of Problem code status msg \<Rightarrow> status = 401 | _ \<Rightarrow> False))"

definition memberTenants :: "string \<Rightarrow> Store \<Rightarrow> string list" where
  "memberTenants subject s =
     sort (map (\<lambda>((t, sub), r). t) (filter (\<lambda>((t, sub), r). sub = subject) (st_role_bindings s)))"

fun firstMembership :: "string \<Rightarrow> Store \<Rightarrow> string list \<Rightarrow> Principal res" where
  "firstMembership subject s [] = Inl unauthorized"
| "firstMembership subject s (t # ts) =
     (case resolveMembershipTx t subject s of
        Inr p \<Rightarrow> Inr p
      | Inl e \<Rightarrow> if retryable e then firstMembership subject s ts else Inl e)"

definition ResolveIdentity :: "txEnv \<Rightarrow> string \<Rightarrow> string \<Rightarrow> Store \<Rightarrow> Principal res \<times> Store" where
  "ResolveIdentity env issuer subject s =
     withTx env (\<lambda>s.
       case durableGetAny asPrincipal ''identity'' (durableKey [issuer, subject]) s of
         Inl e \<Rightarrow> Inl e
       | Inr (tenant, v, row) \<Rightarrow>
           (case map_of (st_identity_subjects s) (pr_SubjectID row) of
              None \<Rightarrow> Inl ErrNoRows
            | Some (authIssuer, authSubject) \<Rightarrow>
            case map_of (st_operators s) (pr_SubjectID row) of
              None \<Rightarrow> Inl ErrNoRows
            | Some od \<Rightarrow>
            case od of
              None \<Rightarrow> Inl unauthorized
            | Some opr \<Rightarrow>
                if issuer = '''' \<or> subject = '''' \<or> authIssuer \<noteq> issuer \<or> authSubject \<noteq> subject
                   \<or> od_Subject opr \<noteq> pr_SubjectID row \<or> od_Issuer opr \<noteq> issuer
                   \<or> od_IdentitySubject opr \<noteq> subject then Inl unauthorized
                else case resolveMembershipTx (pr_TenantID row) (pr_SubjectID row) s of
                  Inr p \<Rightarrow> Inr (p, s)
                | Inl e \<Rightarrow>
                    if \<not> retryable e then Inl e
                    else bindR (firstMembership (pr_SubjectID row) s (memberTenants (pr_SubjectID row) s))
                      (\<lambda>p. Inr (p, s)))) s"

definition ResolveAdminToken :: "txEnv \<Rightarrow> time \<Rightarrow> string \<Rightarrow> Store \<Rightarrow> Principal res \<times> Store" where
  "ResolveAdminToken env clock hash s =
     withTx env (\<lambda>s.
       case durableGetAny asToken ''admin_token'' hash s of
         Inl e \<Rightarrow> Inl e
       | Inr (tenant, v, row) \<Rightarrow>
           if \<not> sk_ExpiresAt row > clock then Inl ErrNoRows
           else
             bindR (resolveMembershipTx (pr_TenantID (sk_Principal row)) (pr_SubjectID (sk_Principal row)) s) (\<lambda>p.
             let scopes = filter (HasPermission (pr_Role p) None) (pr_Permissions (sk_Principal row)) in
             if scopes = [] then Inl ErrNoRows
             else Inr (p\<lparr>pr_Permissions := scopes, pr_AuthSource := ''admin_token''\<rparr>, s))) s"

definition validAdminScope :: "string \<Rightarrow> bool" where
  "validAdminScope scope =
     (scope \<in> set [''tenant:read'', ''tenant:write'', ''connection:read'', ''connection:write'',
       ''connection:test'', ''connection:discover'', ''key:read'', ''key:write'', ''route:read'',
       ''route:write'', ''budget:read'', ''budget:write'', ''accounting:reconcile'', ''config:read'',
       ''config:write'', ''job:read'', ''job:write'', ''catalog:read'', ''catalog:write'', ''usage:read'',
       ''audit:read'', ''playground:execute'', ''session:read'', ''health:read''])"

fun checkScopes :: "string \<Rightarrow> string list \<Rightarrow> string list \<Rightarrow> bool" where
  "checkScopes role [] seen = True"
| "checkScopes role (scope # scopes) seen =
     (if \<not> validAdminScope scope \<or> scope \<in> set seen \<or> \<not> HasPermission role None scope then False
      else checkScopes role scopes (scope # seen))"

definition IssueAdminToken ::
  "txEnv \<Rightarrow> time \<Rightarrow> string res \<Rightarrow> Principal \<Rightarrow> string \<Rightarrow> string list \<Rightarrow> time \<Rightarrow> Store \<Rightarrow> unit res \<times> Store" where
  "IssueAdminToken env clock secret issuer subject permissions expires s =
     (if pr_TenantID issuer = '''' \<or> pr_SubjectID issuer = '''' \<or> subject = '''' \<or> permissions = []
         \<or> \<not> expires > clock then (Inl (GoErr ''invalid admin token''), s)
      else case secret of Inl e \<Rightarrow> (Inl e, s) | Inr hash \<Rightarrow>
      withTx env (\<lambda>s.
        case resolveMembershipTx (pr_TenantID issuer) (pr_SubjectID issuer) s of
          Inl e \<Rightarrow> Inl (storeError ''forbidden'' 403)
        | Inr owner \<Rightarrow>
            if pr_Role owner \<noteq> ''owner'' then Inl (storeError ''forbidden'' 403)
            else
              bindR (resolveMembershipTx (pr_TenantID issuer) subject s) (\<lambda>target.
              if \<not> checkScopes (pr_Role target) permissions [] then Inl (GoErr ''invalid token scope'')
              else
                bindR (durablePut (pr_TenantID issuer) ''admin_token'' hash 0
                         (TokenRec \<lparr>sk_Principal = storedForm (target\<lparr>pr_Permissions := permissions\<rparr>),
                                    sk_ExpiresAt = expires\<rparr>) s) (\<lambda>s'.
                Inr ((), s')))) s)"

definition RevokeAdminToken :: "txEnv \<Rightarrow> Principal \<Rightarrow> string \<Rightarrow> Store \<Rightarrow> unit res \<times> Store" where
  "RevokeAdminToken env issuer hash s =
     (if hash = '''' then (Inl (GoErr ''token hash required''), s)
      else withTx env (\<lambda>s.
        bindR (resolveMembershipTx (pr_TenantID issuer) (pr_SubjectID issuer) s) (\<lambda>p.
        if pr_Role p \<noteq> ''owner'' then Inl (storeError ''forbidden'' 403)
        else case durableGetAny asToken ''admin_token'' hash s of
          Inl e \<Rightarrow> Inl e
        | Inr (tenant, v, row) \<Rightarrow>
            if tenant \<noteq> pr_TenantID issuer then Inl (storeError ''forbidden'' 403)
            else Inr ((), durableDelete tenant ''admin_token'' hash s))) s)"

record TenantMembership =
  tm_TenantID :: string
  tm_Name :: string
  tm_Role :: string
  tm_Enabled :: bool

fun listMemberships :: "string \<Rightarrow> Store \<Rightarrow> string list \<Rightarrow> TenantMembership list res" where
  "listMemberships subject s [] = Inr []"
| "listMemberships subject s (t # ts) =
     (case resolveMembershipTx t subject s of
        Inl e \<Rightarrow>
          if e = ErrNoRows \<or> (case e of Problem _ _ _ \<Rightarrow> True | _ \<Rightarrow> False) then listMemberships subject s ts
          else Inl e
      | Inr member \<Rightarrow>
          (case map_of (st_tenants s) t of
             None \<Rightarrow> Inl ErrNoRows
           | Some td \<Rightarrow>
           case td of
             None \<Rightarrow> Inl decodeError
           | Some d \<Rightarrow>
               bindR (listMemberships subject s ts) (\<lambda>rest.
               Inr (\<lparr>tm_TenantID = t, tm_Name = td_Name d, tm_Role = pr_Role member, tm_Enabled = td_Enabled d\<rparr>
                 # rest))))"

definition AvailableTenants :: "txEnv \<Rightarrow> Principal \<Rightarrow> Store \<Rightarrow> TenantMembership list res \<times> Store" where
  "AvailableTenants env p s =
     withTx env (\<lambda>s.
       bindR (resolveMembershipTx (pr_TenantID p) (pr_SubjectID p) s) (\<lambda>_.
       bindR (listMemberships (pr_SubjectID p) s (memberTenants (pr_SubjectID p) s)) (\<lambda>ms. Inr (ms, s)))) s"

section \<open>Lemmas\<close>

lemma resolveMembershipTx_Inr:
  assumes "resolveMembershipTx tenant subject s = Inr p"
  shows "pr_TenantID p = tenant \<and> pr_SubjectID p = subject \<and> pr_Permissions p = [] \<and> pr_KeyID p = ''''
    \<and> tenant \<noteq> '''' \<and> subject \<noteq> '''' \<and> knownRole (pr_Role p)
    \<and> (\<exists>t opr b iss sub. map_of (st_tenants s) tenant = Some (Some t) \<and> td_Enabled t
        \<and> map_of (st_operators s) subject = Some (Some opr) \<and> od_Enabled opr \<and> od_Subject opr = subject
        \<and> map_of (st_role_bindings s) (tenant, subject) = Some (pr_Role p, Some b)
        \<and> map_of (st_identity_subjects s) subject = Some (iss, sub) \<and> identityOk subject opr iss sub s)"
  using assms unfolding resolveMembershipTx_def
  by (auto simp: zeroPrincipal_def split: option.splits prod.splits if_splits)

subsection \<open>Durable rows\<close>

definition durableHas :: "string \<Rightarrow> string \<Rightarrow> Store \<Rightarrow> bool" where
  "durableHas kind rid s \<longleftrightarrow> (\<exists>t. (t, kind, rid) \<in> tkeys (st_durable s))"

lemma durableGetAny_none: "durableGetAny dec kind rid s = Inl ErrNoRows \<longleftrightarrow> \<not> durableHas kind rid s"
proof -
  have "find (\<lambda>((t, k, i), r). k = kind \<and> i = rid) (st_durable s) = None \<longleftrightarrow> \<not> durableHas kind rid s"
    by (force simp: find_None_iff durableHas_def tkeys_def)
  then show ?thesis
    by (auto simp: durableGetAny_def ErrNoRows_def decodeError_def split: option.splits)
qed

lemma find_first:
  assumes "find (\<lambda>((t, k, i), r). k = kind \<and> i = rid) rows = Some ((t, k, i), r)"
  shows "k = kind \<and> i = rid \<and> map_of rows (t, kind, rid) = Some r"
  using assms by (induction rows) (auto split: if_splits)

lemma durableGetAny_only:
  assumes "map_of (st_durable s) (t, kind, i) = Some r" "dec (dr_data r) = Some x" "\<And>t'. t' \<noteq> t \<Longrightarrow> map_of (st_durable s) (t', kind, i) = None"
  shows "durableGetAny dec kind i s = Inr (t, dr_version r, x)"
proof -
  have "find (\<lambda>((t, k, i'), r). k = kind \<and> i' = i) (st_durable s) \<noteq> None"
    using map_of_SomeD [OF assms(1)] by (auto simp: find_None_iff)
  then obtain t' k i' r' where f: "find (\<lambda>((t, k, i'), r). k = kind \<and> i' = i) (st_durable s) = Some ((t', k, i'), r')" by auto
  from find_first [OF f] assms(1,3) have "t' = t" "r' = r" by (metis option.distinct(1)) (metis assms(3) find_first [OF f] assms(1) option.distinct(1) option.inject)
  with f assms(2) show ?thesis by (simp add: durableGetAny_def)
qed

lemma durableGetAny_absent:
  assumes "\<And>t. map_of (st_durable s) (t, kind, i) = None"
  shows "durableGetAny dec kind i s = Inl ErrNoRows"
proof (cases "find (\<lambda>((t, k, i'), r). k = kind \<and> i' = i) (st_durable s)")
  case (Some x)
  obtain t k i' r where "x = ((t, k, i'), r)" by (cases x) auto
  with Some assms show ?thesis using find_first [of kind i "st_durable s" t k i' r] by simp
qed (simp add: durableGetAny_def)

lemma durableHas_put:
  "durablePut t k i v d s = Inr s' \<Longrightarrow> durableHas kind rid s' \<longleftrightarrow> durableHas kind rid s \<or> (k = kind \<and> i = rid)"
  by (auto simp: durablePut_def durableHas_def split: option.splits if_splits)

lemma durableHas_delete: "k \<noteq> kind \<Longrightarrow> durableHas kind rid (durableDelete t k i s) = durableHas kind rid s"
  by (auto simp: durableDelete_def durableHas_def)

lemma durablePut_tables:
  "durablePut t k i v d s = Inr s' \<Longrightarrow> s' = s\<lparr>st_durable := st_durable s'\<rparr>"
  by (auto simp: durablePut_def split: option.splits if_splits)

lemma identityOk_durable:
  assumes "\<And>rid. durableGetAny asPrincipal ''identity'' rid s' = durableGetAny asPrincipal ''identity'' rid s"
    and "\<And>rid. durableGetAny asClaim ''bootstrap_owner'' rid s' = durableGetAny asClaim ''bootstrap_owner'' rid s"
  shows "identityOk subject opr iss sub s' = identityOk subject opr iss sub s"
  by (simp add: identityOk_def assms)

lemma resolveMembershipTx_durable:
  assumes "\<And>rid. durableGetAny asPrincipal ''identity'' rid s' = durableGetAny asPrincipal ''identity'' rid s"
    and "\<And>rid. durableGetAny asClaim ''bootstrap_owner'' rid s' = durableGetAny asClaim ''bootstrap_owner'' rid s"
    and "s' = s\<lparr>st_durable := st_durable s'\<rparr>"
  shows "resolveMembershipTx tenant subject s' = resolveMembershipTx tenant subject s"
proof -
  have eq: "st_tenants s' = st_tenants s" "st_operators s' = st_operators s"
    "st_role_bindings s' = st_role_bindings s" "st_identity_subjects s' = st_identity_subjects s"
    by (subst assms(3), simp)+
  show ?thesis unfolding resolveMembershipTx_def eq identityOk_durable [OF assms(1,2)] ..
qed

lemma find_update_other:
  "\<not> P (k, v) \<Longrightarrow> (\<And>w. (k, w) \<in> set t \<Longrightarrow> \<not> P (k, w)) \<Longrightarrow> find P (AList.update k v t) = find P t"
  by (induction t) auto

lemma find_delete_other: "(\<And>w. \<not> P (k, w)) \<Longrightarrow> find P (AList.delete k t) = find P t"
  by (induction t) (auto simp: AList.delete_eq)

lemma durableGetAny_put_other:
  "durablePut t k i v d s = Inr s' \<Longrightarrow> k \<noteq> kind \<Longrightarrow> durableGetAny dec kind rid s' = durableGetAny dec kind rid s"
  by (auto simp: durablePut_def durableGetAny_def find_update_other split: option.splits if_splits)

lemma durableGetAny_delete_other:
  "k \<noteq> kind \<Longrightarrow> durableGetAny dec kind rid (durableDelete t k i s) = durableGetAny dec kind rid s"
  by (simp add: durableDelete_def durableGetAny_def find_delete_other)

lemma resolveMembershipTx_put:
  assumes "durablePut t k i v d s = Inr s'" "k \<noteq> ''identity''" "k \<noteq> ''bootstrap_owner''"
  shows "resolveMembershipTx tenant subject s' = resolveMembershipTx tenant subject s"
  using assms by (intro resolveMembershipTx_durable durablePut_tables durableGetAny_put_other) simp_all

lemma durablePut_fresh:
  "\<not> durableHas k i s \<Longrightarrow> durablePut t k i 0 d s
     = Inr (s\<lparr>st_durable := st_durable s @ [((t, k, i), \<lparr>dr_version = 1, dr_data = d\<rparr>)]\<rparr>)"
proof -
  assume "\<not> durableHas k i s"
  then have n: "(t, k, i) \<notin> tkeys (st_durable s)" by (auto simp: durableHas_def)
  then have "map_of (st_durable s) (t, k, i) = None" by (simp add: map_of_None_tkeys)
  with n show ?thesis by (simp add: durablePut_def update_fresh tkeys_def)
qed

lemma durablePut_keys: "durablePut t k i v d s = Inr s' \<Longrightarrow> tkeys (st_durable s') = insert (t, k, i) (tkeys (st_durable s))"
  by (auto simp: durablePut_def split: option.splits if_splits)

lemma find_append_None: "find P xs = None \<Longrightarrow> find P (xs @ ys) = find P ys"
  by (induction xs) (auto split: if_splits)

lemma durableGetAny_put_fresh:
  assumes "\<not> durableHas k i s" "durablePut t k i 0 d s = Inr s'"
  shows "durableGetAny dec k i s' = (case dec d of None \<Rightarrow> Inl decodeError | Some x \<Rightarrow> Inr (t, 1, x))"
proof -
  have "find (\<lambda>((t, k', i'), r). k' = k \<and> i' = i) (st_durable s) = None"
    using assms(1) by (force simp: find_None_iff durableHas_def tkeys_def)
  then show ?thesis
    using assms(2) by (auto simp: durablePut_fresh [OF assms(1)] durableGetAny_def find_append_None split: option.splits)
qed

subsection \<open>At most one bootstrap per tenant\<close>

text \<open>
  The operations on identities that change the store, as a labelled step relation.  A label is the
  tenant that the step gave an owner to, if it did.
\<close>

inductive identity_step :: "Store \<Rightarrow> string option \<Rightarrow> Store \<Rightarrow> bool" where
  create_session: "identity_step s None (snd (CreateSession env clock sess s))"
| delete_session: "identity_step s None (snd (DeleteSession env hash s))"
| select_tenant: "identity_step s None (snd (SelectSessionTenant env clock hash tenant s))"
| save_login: "identity_step s None (snd (SaveAdminLogin env clock l s))"
| consume_login: "identity_step s None (snd (ConsumeAdminLogin env clock hash s))"
| issue_token: "identity_step s None (snd (IssueAdminToken env clock secret issuer subject perms expires s))"
| revoke_token: "identity_step s None (snd (RevokeAdminToken env issuer hash s))"
| create_bootstrap: "identity_step s None (snd (CreateBootstrap env clock secret tenant subject s))"
| bootstrap: "ConsumeBootstrap env clock code s = (Inr p, s') \<Longrightarrow> identity_step s (Some (pr_TenantID p)) s'"
| bootstrap_fail: "ConsumeBootstrap env clock code s = (Inl e, s') \<Longrightarrow> identity_step s None s'"

inductive identity_run :: "Store \<Rightarrow> string list \<Rightarrow> Store \<Rightarrow> bool" where
  start: "identity_run s [] s"
| quiet: "identity_run s ts s1 \<Longrightarrow> identity_step s1 None s2 \<Longrightarrow> identity_run s ts s2"
| owner: "identity_run s ts s1 \<Longrightarrow> identity_step s1 (Some t) s2 \<Longrightarrow> identity_run s (t # ts) s2"

definition claimed :: "string \<Rightarrow> Store \<Rightarrow> bool" where
  "claimed tenant s = durableHas ''bootstrap_owner'' (durableKey [tenant]) s"

lemma checkUnclaimed_claimed: "claimed tenant s \<Longrightarrow> \<not> isOk (checkUnclaimed tenant s)"
  using durableGetAny_none [of asClaim "''bootstrap_owner''" "durableKey [tenant]" s]
  by (auto simp: checkUnclaimed_def claimed_def split: sum.splits)

lemma claimed_put: "durablePut t k i v d s = Inr s' \<Longrightarrow> claimed tenant s \<Longrightarrow> claimed tenant s'"
  by (simp add: claimed_def durableHas_put)

lemma claimed_delete: "k \<noteq> ''bootstrap_owner'' \<Longrightarrow> claimed tenant (durableDelete t k i s) = claimed tenant s"
  by (simp add: claimed_def durableHas_delete)

lemma ensurePrincipal_claimed: "ensurePrincipal p s = Inr s' \<Longrightarrow> claimed tenant s \<Longrightarrow> claimed tenant s'"
  by (auto simp: ensurePrincipal_def Let_def claimed_put split: if_splits sum.splits prod.splits)

lemma ownerIdentity_claimed: "ownerIdentity tenant subject s = Inr s' \<Longrightarrow> claimed t s \<Longrightarrow> claimed t s'"
  by (auto simp: ownerIdentity_def Let_def claimed_put split: if_splits sum.splits prod.splits)

lemma installOwner_claimed:
  assumes "installOwner clock tenant p s = Inr s'"
  shows "claimed tenant s' \<and> (claimed t s \<longrightarrow> claimed t s')"
proof -
  from assms obtain s1 s2 where s1: "ownerIdentity tenant (pr_SubjectID p) (ownerTables tenant (pr_SubjectID p) s) = Inr s1"
    and s2: "durablePut tenant ''bootstrap_owner'' (durableKey [tenant]) 0
        (ClaimRec \<lparr>sc_TenantID = tenant, sc_SubjectID = pr_SubjectID p, sc_ClaimedAt = clock\<rparr>) s1 = Inr s2"
    and s': "ensurePrincipal p s2 = Inr s'"
    by (auto simp: installOwner_def bindR_Inr)
  have "claimed tenant s2" using s2 by (simp add: claimed_def durableHas_put)
  moreover have "claimed t (ownerTables tenant (pr_SubjectID p) s) = claimed t s"
    by (simp add: claimed_def durableHas_def ownerTables_def)
  ultimately show ?thesis
    using ownerIdentity_claimed [OF s1, of t] claimed_put [OF s2, of t] ensurePrincipal_claimed [OF s'] by blast
qed

lemma claimIdentitySubjectTx_claimed:
  assumes "claimIdentitySubjectTx subject issuer ident allow s = Inr s'"
  shows "claimed t s' = claimed t s"
proof -
  have "st_durable s' = st_durable s"
    using assms by (auto simp: claimIdentitySubjectTx_def split: option.splits if_splits)
  then show ?thesis by (simp add: claimed_def durableHas_def)
qed

lemma withTx_claimed:
  assumes "claimed t s" "\<And>a s'. fn s = Inr (a, s') \<Longrightarrow> claimed t s'"
  shows "claimed t (snd (withTx env fn s))"
  using assms by (rule withTx_invariant)

lemma CreateBootstrap_claimed:
  assumes "claimed t s"
  shows "claimed t (snd (CreateBootstrap env clock secret tenant subject s))"
  unfolding CreateBootstrap_def using assms
  by (auto simp: bindR_Inr claimed_put split: sum.splits intro!: withTx_claimed)
    (auto simp: claimed_put dest!: claimIdentitySubjectTx_claimed [where t = t]
      split: sum.splits prod.splits if_splits)

lemma ConsumeBootstrap_Inr:
  assumes "ConsumeBootstrap env clock code s = (Inr p, s')"
  shows "isOk (checkUnclaimed (pr_TenantID p) s) \<and> claimed (pr_TenantID p) s' \<and> (claimed t s \<longrightarrow> claimed t s')"
proof -
  from withTx_okD [OF assms [unfolded ConsumeBootstrap_def]] obtain tenant s1 where "pr_TenantID p = tenant" "checkUnclaimed tenant s = Inr ()"
    "installOwner clock tenant p s = Inr s1" "s' = durableDelete tenant ''bootstrap'' code s1"
    by (auto simp: bindR_Inr Let_def split: sum.splits prod.splits if_splits option.splits)
  then show ?thesis using installOwner_claimed by (auto simp: claimed_delete)
qed

lemma identity_step_claimed: "identity_step s l s' \<Longrightarrow> claimed t s \<Longrightarrow> claimed t s'"
proof (induction rule: identity_step.induct)
  case (create_session s env clock sess)
  then show ?case unfolding CreateSession_def
    by (auto intro!: withTx_claimed simp: bindR_Inr claimed_put)
next
  case (delete_session s env hash)
  then show ?case unfolding DeleteSession_def
    by (auto intro!: withTx_claimed simp: claimed_delete split: sum.splits prod.splits)
next
  case (select_tenant s env clock hash tenant)
  then show ?case unfolding SelectSessionTenant_def
    by (auto intro!: withTx_claimed simp: bindR_Inr claimed_delete dest!: claimed_put
        split: sum.splits prod.splits if_splits)
next
  case (save_login s env clock l)
  then show ?case unfolding SaveAdminLogin_def
    by (auto intro!: withTx_claimed simp: bindR_Inr claimed_put)
next
  case (consume_login s env clock hash)
  then show ?case unfolding ConsumeAdminLogin_def
    by (auto intro!: withTx_claimed simp: claimed_delete split: sum.splits prod.splits if_splits)
next
  case (issue_token s env clock secret issuer subject perms expires)
  then show ?case unfolding IssueAdminToken_def
    by (auto intro!: withTx_claimed simp: bindR_Inr claimed_put split: sum.splits if_splits)
next
  case (revoke_token s env issuer hash)
  then show ?case unfolding RevokeAdminToken_def
    by (auto intro!: withTx_claimed simp: bindR_Inr claimed_delete
        split: sum.splits prod.splits if_splits)
next
  case (create_bootstrap s env clock secret tenant subject)
  then show ?case by (rule CreateBootstrap_claimed)
next
  case (bootstrap env clock code s p s')
  then show ?case using ConsumeBootstrap_Inr by blast
next
  case (bootstrap_fail env clock code s e s')
  then have "s' = s" unfolding ConsumeBootstrap_def
    using withTx_cases by (metis (no_types, lifting) Inl_Inr_False Pair_inject)
  with bootstrap_fail show ?case by simp
qed

inductive_cases identity_owner_step: "identity_step s (Some t) s'"

lemma identity_run_claimed: "identity_run s ts s' \<Longrightarrow> (\<forall>t\<in>set ts. claimed t s') \<and> distinct ts"
proof (induction rule: identity_run.induct)
  case (quiet s ts s1 s2)
  then show ?case using identity_step_claimed by blast
next
  case (owner s ts s1 t s2)
  from owner.hyps(2) have "isOk (checkUnclaimed t s1)" "claimed t s2"
    using ConsumeBootstrap_Inr by (auto elim!: identity_owner_step)
  then have "t \<notin> set ts" using owner.IH checkUnclaimed_claimed by blast
  with owner \<open>claimed t s2\<close> show ?case using identity_step_claimed by auto
qed simp

section \<open>Properties\<close>

text \<open>
  C19: a tenant is bootstrapped at most once.  In every sequence of identity operations, in any
  order and with any failures, no tenant is given an owner by \<open>ConsumeBootstrap\<close> twice.
\<close>

theorem bootstrap_once:
  assumes "identity_run s ts s'"
  shows "distinct ts \<and> (\<forall>t. t \<in> set ts \<longrightarrow> \<not> isOk (checkUnclaimed t s'))"
  using identity_run_claimed [OF assms] checkUnclaimed_claimed by blast

definition bootstrapStore :: Store where
  "bootstrapStore = snd (CreateBootstrap sound 0 (Inr ''h1'') ''t1'' ''alice'' emptyStore)"

definition ownedStore :: Store where
  "ownedStore = snd (ConsumeBootstrap sound second ''h1'' bootstrapStore)"

lemma bootstrapStore_eval:
  "bootstrapStore = emptyStore\<lparr>
     st_durable := [((''t1'', ''bootstrap_reservation'', durableKey [''t1'']),
         \<lparr>dr_version = 1, dr_data = ClaimRec \<lparr>sc_TenantID = ''t1'', sc_SubjectID = ''alice'', sc_ClaimedAt = zeroTime\<rparr>\<rparr>),
       ((''t1'', ''bootstrap'', ''h1''),
         \<lparr>dr_version = 1, dr_data = BootstrapRec \<lparr>sb_Principal = zeroPrincipal\<lparr>pr_TenantID := ''t1'',
            pr_SubjectID := ''alice'', pr_Role := ''owner'', pr_Permissions := [''*'']\<rparr>, sb_ExpiresAt = 600 * second\<rparr>\<rparr>)],
     st_identity_subjects := [(''alice'', ''bootstrap:t1'', ''alice'')]\<rparr>"
  by (simp add: bootstrapStore_def CreateBootstrap_def withTx_sound emptyStore_def checkUnclaimed_def
      durableGetAny_def ownerBound_def durablePut_def claimIdentitySubjectTx_def subjectOfIdentity_def second_def)

lemma ConsumeBootstrap_sample:
  "ConsumeBootstrap sound second ''h1'' bootstrapStore =
     (Inr (zeroPrincipal\<lparr>pr_TenantID := ''t1'', pr_SubjectID := ''alice'', pr_Role := ''owner'',
        pr_Permissions := [''*'']\<rparr>), ownedStore)"
  unfolding ownedStore_def
  by (simp add: bootstrapStore_eval ConsumeBootstrap_def withTx_sound emptyStore_def checkUnclaimed_def
      durableGetAny_def ownerBound_def durablePut_def installOwner_def ownerIdentity_def ownerTables_def
      insertNew_def ensurePrincipal_def durableDelete_def second_def zeroPrincipal_def Let_def
      ErrNoRows_def decodeError_def)

theorem bootstrap_once_witness: "\<not> isOk (checkUnclaimed ''t1'' ownedStore)"
proof -
  have "identity_run emptyStore [] bootstrapStore"
    unfolding bootstrapStore_def by (intro identity_run.quiet [OF identity_run.start] identity_step.create_bootstrap)
  moreover have "identity_step bootstrapStore (Some ''t1'') ownedStore"
    using identity_step.bootstrap [OF ConsumeBootstrap_sample] by simp
  ultimately have "identity_run emptyStore [''t1''] ownedStore" by (rule identity_run.owner)
  from bootstrap_once [OF this] show ?thesis by simp
qed

text \<open>
  C20: a token never exceeds the role of its subject.  When \<open>ResolveAdminToken\<close> accepts a token,
  the token is unexpired, its subject is at this moment an enabled member of the tenant, and the
  scopes it grants are the issued scopes that the current role still has, at least one.
\<close>

theorem ResolveAdminToken_bounded:
  assumes "ResolveAdminToken env clock hash s = (Inr p, s')"
  shows "s' = s \<and> pr_AuthSource p = ''admin_token'' \<and> pr_Permissions p \<noteq> []
    \<and> list_all (HasPermission (pr_Role p) None) (pr_Permissions p)
    \<and> (\<exists>tenant v row. durableGetAny asToken ''admin_token'' hash s = Inr (tenant, v, row)
        \<and> clock < sk_ExpiresAt row \<and> set (pr_Permissions p) \<subseteq> set (pr_Permissions (sk_Principal row))
        \<and> resolveMembershipTx (pr_TenantID (sk_Principal row)) (pr_SubjectID (sk_Principal row)) s
            = Inr (p\<lparr>pr_Permissions := [], pr_AuthSource := ''''\<rparr>))"
proof -
  from withTx_okD [OF assms [unfolded ResolveAdminToken_def]] obtain tenant v row q where 1: "durableGetAny asToken ''admin_token'' hash s = Inr (tenant, v, row)"
    "clock < sk_ExpiresAt row"
    and q: "resolveMembershipTx (pr_TenantID (sk_Principal row)) (pr_SubjectID (sk_Principal row)) s = Inr q"
    and p: "filter (HasPermission (pr_Role q) None) (pr_Permissions (sk_Principal row)) \<noteq> []" "s' = s"
      "p = q\<lparr>pr_Permissions := filter (HasPermission (pr_Role q) None) (pr_Permissions (sk_Principal row)),
             pr_AuthSource := ''admin_token''\<rparr>"
    by (auto simp: bindR_Inr Let_def split: sum.splits prod.splits if_splits)
  have "q\<lparr>pr_Permissions := [], pr_AuthSource := ''''\<rparr> = q"
    using q by (auto simp: resolveMembershipTx_def zeroPrincipal_def split: option.splits prod.splits if_splits)
  then show ?thesis using 1 q p by (simp add: list_all_iff)
qed

lemma ownedStore_member:
  "resolveMembershipTx ''t1'' ''alice'' ownedStore =
     Inr (zeroPrincipal\<lparr>pr_TenantID := ''t1'', pr_SubjectID := ''alice'', pr_Role := ''owner''\<rparr>)"
  unfolding ownedStore_def
  by (simp add: bootstrapStore_eval ConsumeBootstrap_def withTx_sound emptyStore_def checkUnclaimed_def
      durableGetAny_def ownerBound_def durablePut_def installOwner_def ownerIdentity_def ownerTables_def
      insertNew_def ensurePrincipal_def durableDelete_def second_def zeroPrincipal_def Let_def
      ErrNoRows_def decodeError_def resolveMembershipTx_def identityOk_def knownRole_def hasPrefix_def)

lemma ownedStore_has: "\<not> durableHas ''admin_token'' rid ownedStore" "\<not> durableHas ''admin_session'' rid ownedStore"
  unfolding ownedStore_def
  by (simp_all add: bootstrapStore_eval ConsumeBootstrap_def withTx_sound emptyStore_def checkUnclaimed_def
      durableGetAny_def ownerBound_def durablePut_def installOwner_def ownerIdentity_def ownerTables_def
      insertNew_def ensurePrincipal_def durableDelete_def second_def zeroPrincipal_def Let_def
      ErrNoRows_def decodeError_def durableHas_def tkeys_def)

theorem ResolveAdminToken_bounded_witness:
  "\<exists>s1 p. IssueAdminToken sound 0 (Inr ''h2'') (zeroPrincipal\<lparr>pr_TenantID := ''t1'', pr_SubjectID := ''alice''\<rparr>)
       ''alice'' [''usage:read''] second ownedStore = (Inr (), s1)
     \<and> ResolveAdminToken sound 0 ''h2'' s1 = (Inr p, s1) \<and> list_all (HasPermission (pr_Role p) None) (pr_Permissions p)"
proof -
  define p where "p = zeroPrincipal\<lparr>pr_TenantID := ''t1'', pr_SubjectID := ''alice'', pr_Role := ''owner'',
    pr_Permissions := [''usage:read'']\<rparr>"
  define d where "d = TokenRec \<lparr>sk_Principal = p, sk_ExpiresAt = second\<rparr>"
  obtain s1 where put: "durablePut ''t1'' ''admin_token'' ''h2'' 0 d ownedStore = Inr s1"
    using durablePut_fresh [OF ownedStore_has(1)] by blast
  have issue: "IssueAdminToken sound 0 (Inr ''h2'') (zeroPrincipal\<lparr>pr_TenantID := ''t1'', pr_SubjectID := ''alice''\<rparr>)
      ''alice'' [''usage:read''] second ownedStore = (Inr (), s1)"
    using put by (simp add: IssueAdminToken_def withTx_sound ownedStore_member validAdminScope_def d_def p_def
        HasPermission_def permissionsFor_def rolePermissions_def storedForm_def zeroPrincipal_def second_def)
  have "durableGetAny asToken ''admin_token'' ''h2'' s1 = Inr (''t1'', 1, \<lparr>sk_Principal = p, sk_ExpiresAt = second\<rparr>)"
    using durableGetAny_put_fresh [OF ownedStore_has(1) put, of asToken] by (simp add: d_def)
  moreover have "resolveMembershipTx ''t1'' ''alice'' s1 = resolveMembershipTx ''t1'' ''alice'' ownedStore"
    by (rule resolveMembershipTx_put [OF put]) simp_all
  ultimately obtain q where q: "ResolveAdminToken sound 0 ''h2'' s1 = (Inr q, s1)"
    by (simp add: ResolveAdminToken_def withTx_sound ownedStore_member zeroPrincipal_def p_def
        HasPermission_def permissionsFor_def rolePermissions_def second_def)
  with ResolveAdminToken_bounded [OF q] issue show ?thesis by blast
qed

text \<open>
  The steps of a world in which no session is created under the hash \<open>h\<close>: the session operations themselves, and whatever else
  does not store a session under it.
\<close>

inductive without_session :: "string \<Rightarrow> Store \<Rightarrow> Store \<Rightarrow> bool" for h where
  other_session: "ss_Hash sess \<noteq> h \<Longrightarrow> without_session h s (snd (CreateSession env clock sess s))"
| end_session: "without_session h s (snd (DeleteSession env hash s))"
| change_tenant: "without_session h s (snd (SelectSessionTenant env clock hash tenant s))"
| other_work: "(durableHas ''admin_session'' h s' \<Longrightarrow> durableHas ''admin_session'' h s) \<Longrightarrow> without_session h s s'"

definition sessionKept :: "string \<Rightarrow> Store \<Rightarrow> Store \<Rightarrow> bool" where
  "sessionKept h s s' = (\<forall>t. map_of (st_durable s') (t, ''admin_session'', h) = map_of (st_durable s) (t, ''admin_session'', h))"

lemma durableHas_deleted: "durableHas kind rid (durableDelete t k i s) \<Longrightarrow> durableHas kind rid s"
  by (auto simp: durableHas_def durableDelete_def)

lemma durableHas_map: "durableHas kind rid s \<longleftrightarrow> (\<exists>t. map_of (st_durable s) (t, kind, rid) \<noteq> None)"
  by (auto simp: durableHas_def tkeys_def map_of_eq_None_iff)

lemma withTx_absent:
  assumes "\<not> durableHas kind rid s" "\<And>a s'. fn s = Inr (a, s') \<Longrightarrow> \<not> durableHas kind rid s'"
  shows "\<not> durableHas kind rid (snd (withTx env fn s))"
  using assms by (rule withTx_invariant)

lemma without_session_absent:
  assumes "without_session h s s'" "\<not> durableHas ''admin_session'' h s"
  shows "\<not> durableHas ''admin_session'' h s'"
  using assms(1)
proof cases
  case (other_session sess env clock)
  show ?thesis unfolding other_session CreateSession_def
    using assms(2) other_session(2) by (simp, intro impI withTx_absent) (auto simp: bindR_Inr durableHas_put)
next
  case (end_session env hash)
  show ?thesis unfolding end_session DeleteSession_def
    using assms(2) by (simp, intro impI withTx_absent) (auto dest: durableHas_deleted split: sum.splits prod.splits)
next
  case (change_tenant env clock hash tenant)
  have "durableGetAny asSession ''admin_session'' h s = Inl ErrNoRows" using assms(2) by (simp add: durableGetAny_none)
  then show ?thesis unfolding change_tenant SelectSessionTenant_def
    using assms(2) by (simp, intro impI withTx_absent)
      (auto simp: bindR_Inr durableHas_put dest: durableHas_deleted split: sum.splits prod.splits if_splits)
next
  case other_work
  with assms(2) show ?thesis by blast
qed

lemma without_session_run: "(without_session h)\<^sup>*\<^sup>* s s' \<Longrightarrow> \<not> durableHas ''admin_session'' h s \<Longrightarrow> \<not> durableHas ''admin_session'' h s'"
  by (induction rule: rtranclp_induct) (auto dest: without_session_absent)

lemma session_created:
  assumes "CreateSession env clock sess s = (Inr (), s')" "\<not> durableHas ''admin_session'' (ss_Hash sess) s"
  obtains p where "ss_Hash sess \<noteq> ''''" "pr_TenantID p = pr_TenantID (ss_Principal sess)" "pr_SubjectID p = pr_SubjectID (ss_Principal sess)"
    "map_of (st_durable s') (pr_TenantID p, ''admin_session'', ss_Hash sess) = Some \<lparr>dr_version = 1, dr_data = SessionRec (sess\<lparr>ss_Principal := storedForm p\<rparr>)\<rparr>"
    "\<forall>t. t \<noteq> pr_TenantID p \<longrightarrow> map_of (st_durable s') (t, ''admin_session'', ss_Hash sess) = None"
proof -
  from assms(1) obtain p where h: "ss_Hash sess \<noteq> ''''"
    and p: "resolveMembershipTx (pr_TenantID (ss_Principal sess)) (pr_SubjectID (ss_Principal sess)) s = Inr p"
    and put: "durablePut (pr_TenantID p) ''admin_session'' (ss_Hash sess) 0 (SessionRec (sess\<lparr>ss_Principal := storedForm p\<rparr>)) s = Inr s'"
    by (auto simp: CreateSession_def bindR_Inr split: if_splits dest!: withTx_okD)
  have "map_of (st_durable s) (t, ''admin_session'', ss_Hash sess) = None" for t using assms(2) by (simp add: durableHas_map)
  with put have "map_of (st_durable s') (pr_TenantID p, ''admin_session'', ss_Hash sess) = Some \<lparr>dr_version = 1, dr_data = SessionRec (sess\<lparr>ss_Principal := storedForm p\<rparr>)\<rparr>"
    "\<forall>t. t \<noteq> pr_TenantID p \<longrightarrow> map_of (st_durable s') (t, ''admin_session'', ss_Hash sess) = None"
    by (auto simp: durablePut_def map_of_update split: if_splits)
  with h resolveMembershipTx_Inr [OF p] show thesis by (intro that [of p]) simp_all
qed

text \<open>
  C21: sessions live as long as they should.  Over a working database, a session created under a fresh hash resolves, in every later store that
  still has its record, to the membership its subject has in that store, whatever has become of it since creation,
  until the session expires, and is refused afterwards. Once it is deleted it is refused in every store that
  follows without a session being created again under its hash.
\<close>

theorem session_lifecycle:
  assumes "CreateSession env clock sess s = (Inr (), s')" "\<not> durableHas ''admin_session'' (ss_Hash sess) s"
    and "sessionKept (ss_Hash sess) s' s2"
  shows "ResolveSession sound now (ss_Hash sess) s2 =
       (if now < ss_ExpiresAt sess then
          (case resolveMembershipTx (pr_TenantID (ss_Principal sess)) (pr_SubjectID (ss_Principal sess)) s2 of
             Inl e \<Rightarrow> Inl e
           | Inr q \<Rightarrow> Inr (sess\<lparr>ss_Principal := q\<rparr>))
        else Inl ErrNoRows, s2)
    \<and> (\<forall>s3. (without_session (ss_Hash sess))\<^sup>*\<^sup>* (snd (DeleteSession sound (ss_Hash sess) s2)) s3
         \<longrightarrow> ResolveSession sound now (ss_Hash sess) s3 = (Inl ErrNoRows, s3))"
proof -
  let ?h = "ss_Hash sess" and ?q = "ss_Principal sess"
  obtain p where h: "?h \<noteq> ''''" and id: "pr_TenantID p = pr_TenantID ?q" "pr_SubjectID p = pr_SubjectID ?q"
    and row: "map_of (st_durable s') (pr_TenantID p, ''admin_session'', ?h) = Some \<lparr>dr_version = 1, dr_data = SessionRec (sess\<lparr>ss_Principal := storedForm p\<rparr>)\<rparr>"
    and alone: "\<forall>t. t \<noteq> pr_TenantID p \<longrightarrow> map_of (st_durable s') (t, ''admin_session'', ?h) = None"
    by (rule session_created [OF assms(1,2)])
  have get: "durableGetAny asSession ''admin_session'' ?h s2 = Inr (pr_TenantID p, 1, sess\<lparr>ss_Principal := storedForm p\<rparr>)"
    using durableGetAny_only [of s2 "pr_TenantID p" "''admin_session''" ?h _ asSession] row alone assms(3) by (simp add: sessionKept_def)
  have "ResolveSession sound now ?h s2 =
      (if now < ss_ExpiresAt sess then
         (case resolveMembershipTx (pr_TenantID ?q) (pr_SubjectID ?q) s2 of Inl e \<Rightarrow> Inl e | Inr q \<Rightarrow> Inr (sess\<lparr>ss_Principal := q\<rparr>))
       else Inl ErrNoRows, s2)"
    using h get id by (auto simp: ResolveSession_def withTx_sound storedForm_def split: sum.split)
  moreover have "ResolveSession sound now ?h s3 = (Inl ErrNoRows, s3)"
    if run: "(without_session ?h)\<^sup>*\<^sup>* (snd (DeleteSession sound ?h s2)) s3" for s3
  proof -
    have "snd (DeleteSession sound ?h s2) = durableDelete (pr_TenantID p) ''admin_session'' ?h s2"
      using h get by (simp add: DeleteSession_def withTx_sound)
    moreover have "\<not> durableHas ''admin_session'' ?h (durableDelete (pr_TenantID p) ''admin_session'' ?h s2)"
      using alone assms(3) by (auto simp: durableHas_map durableDelete_def sessionKept_def map_of_delete)
    ultimately have "\<not> durableHas ''admin_session'' ?h s3" using without_session_run [OF run] by simp
    then have "durableGetAny asSession ''admin_session'' ?h s3 = Inl ErrNoRows" by (simp add: durableGetAny_none)
    with h show ?thesis by (simp add: ResolveSession_def withTx_sound)
  qed
  ultimately show ?thesis by blast
qed

theorem session_lifecycle_witness:
  "\<exists>s'. CreateSession sound 0 \<lparr>ss_Hash = ''h3'', ss_CSRFHash = ''c'', ss_Principal = zeroPrincipal\<lparr>pr_TenantID := ''t1'',
       pr_SubjectID := ''alice''\<rparr>, ss_ExpiresAt = second\<rparr> ownedStore = (Inr (), s')
     \<and> fst (ResolveSession sound second ''h3'' s') = Inl ErrNoRows
     \<and> \<not> isOk (fst (ResolveSession sound 0 ''h3'' (s'\<lparr>st_role_bindings := []\<rparr>)))"
proof -
  define sess where "sess = \<lparr>ss_Hash = ''h3'', ss_CSRFHash = ''c'', ss_Principal = zeroPrincipal\<lparr>pr_TenantID := ''t1'',
       pr_SubjectID := ''alice''\<rparr>, ss_ExpiresAt = second\<rparr>"
  obtain s' where c: "CreateSession sound 0 sess ownedStore = (Inr (), s')"
    using durablePut_fresh [OF ownedStore_has(2)]
    by (simp add: CreateSession_def withTx_sound ownedStore_member sess_def zeroPrincipal_def second_def)
  have fresh: "\<not> durableHas ''admin_session'' (ss_Hash sess) ownedStore" using ownedStore_has(2) by (simp add: sess_def)
  have "sessionKept (ss_Hash sess) s' s'" "sessionKept (ss_Hash sess) s' (s'\<lparr>st_role_bindings := []\<rparr>)" by (simp_all add: sessionKept_def)
  note life = this [THEN session_lifecycle [OF c fresh]]
  have "\<not> isOk (resolveMembershipTx ''t1'' ''alice'' (s'\<lparr>st_role_bindings := []\<rparr>))"
    by (auto simp: resolveMembershipTx_def split: option.split)
  then have "\<not> isOk (fst (ResolveSession sound 0 ''h3'' (s'\<lparr>st_role_bindings := []\<rparr>)))"
    using life(2) [of 0] by (simp add: sess_def zeroPrincipal_def second_def split: sum.splits)
  moreover have "fst (ResolveSession sound second ''h3'' s') = Inl ErrNoRows" using life(1) [of second] by (simp add: sess_def)
  ultimately show ?thesis using c unfolding sess_def by blast
qed

end
