(* ===== verification/Base_URL.thy ===== *)
theory Base_URL
  imports Core_Types
begin

text \<open>
  Which upstream base URLs a connection may name: \<open>validBaseURL\<close> of \<open>store/validation.go\<close>.  The
  parsed URL is a record of the fields the check reads, with \<open>u_Hostname\<close> the result of
  \<open>Hostname()\<close>.  An address of \<open>net/netip\<close> is its bit length, its value and its zone; a prefix is
  an address without zone and a number of bits.  The text parsers of \<open>net/url\<close> and \<open>net/netip\<close>
  are arguments (\<open>netEnv\<close>) and no property depends on what they accept.
\<close>

section \<open>Definitions\<close>

record URL =
  u_Scheme :: string
  u_Opaque :: string
  u_User :: bool
  u_Host :: string
  u_Hostname :: string
  u_RawQuery :: string
  u_Fragment :: string

record Addr =
  ip_BitLen :: nat
  ip_Value :: nat
  ip_Zone :: string

record Prefix =
  px_BitLen :: nat
  px_Value :: nat
  px_Bits :: nat

record netEnv =
  ne_ParseURL :: "string \<Rightarrow> URL option"
  ne_ParsePrefix :: "string \<Rightarrow> Prefix option"
  ne_ParseAddr :: "string \<Rightarrow> Addr option"

definition hostBits :: "Prefix \<Rightarrow> nat" where
  "hostBits p = px_BitLen p - px_Bits p"

definition maskedPrefix :: "Prefix \<Rightarrow> Prefix" where
  "maskedPrefix p = p\<lparr>px_Value := px_Value p div 2 ^ hostBits p * 2 ^ hostBits p\<rparr>"

definition prefixAddr :: "Prefix \<Rightarrow> Addr" where
  "prefixAddr p = \<lparr>ip_BitLen = px_BitLen p, ip_Value = px_Value p, ip_Zone = ''''\<rparr>"

definition Contains :: "Prefix \<Rightarrow> Addr \<Rightarrow> bool" where
  "Contains p a =
     (ip_Zone a = '''' \<and> px_BitLen p = ip_BitLen a
      \<and> px_Value p div 2 ^ hostBits p = ip_Value a div 2 ^ hostBits p)"

definition ipv4 :: "nat \<Rightarrow> nat \<Rightarrow> nat \<Rightarrow> nat \<Rightarrow> nat" where
  "ipv4 a b c d = ((a * 256 + b) * 256 + c) * 256 + d"

definition privateRanges :: "Prefix list" where
  "privateRanges =
     [\<lparr>px_BitLen = 32, px_Value = ipv4 10 0 0 0, px_Bits = 8\<rparr>,
      \<lparr>px_BitLen = 32, px_Value = ipv4 172 16 0 0, px_Bits = 12\<rparr>,
      \<lparr>px_BitLen = 32, px_Value = ipv4 192 168 0 0, px_Bits = 16\<rparr>,
      \<lparr>px_BitLen = 32, px_Value = ipv4 127 0 0 0, px_Bits = 8\<rparr>,
      \<lparr>px_BitLen = 128, px_Value = 0xfc00 * 2 ^ 112, px_Bits = 7\<rparr>,
      \<lparr>px_BitLen = 128, px_Value = 1, px_Bits = 128\<rparr>]"

definition privatePrefix :: "Prefix \<Rightarrow> bool" where
  "privatePrefix p = list_ex (\<lambda>parent. px_BitLen parent = px_BitLen p \<and> px_Bits parent \<le> px_Bits p
     \<and> Contains parent (prefixAddr p)) privateRanges"

fun allowedPrefixes :: "netEnv \<Rightarrow> string list \<Rightarrow> Prefix list option" where
  "allowedPrefixes ne [] = Some []"
| "allowedPrefixes ne (raw # rest) =
     (case ne_ParsePrefix ne (trimSpace raw) of
        None \<Rightarrow> None
      | Some p \<Rightarrow>
          if \<not> privatePrefix (maskedPrefix p) then None
          else map_option (Cons (maskedPrefix p)) (allowedPrefixes ne rest))"

definition validBaseURL :: "netEnv \<Rightarrow> URL \<Rightarrow> (string \<times> string) list \<Rightarrow> bool" where
  "validBaseURL ne u settings =
     (if u_Host u = '''' \<or> u_User u \<or> u_RawQuery u \<noteq> '''' \<or> u_Fragment u \<noteq> '''' \<or> u_Opaque u \<noteq> '''' then False
      else if u_Scheme u = ''https'' then True
      else if u_Scheme u \<noteq> ''http'' then False
      else let host = toLower (u_Hostname u) in
      if host = ''localhost'' \<or> host = ''127.0.0.1'' \<or> host = ''::1'' then True
      else if goIndex settings ''allow_private'' \<noteq> ''true'' \<or> trimSpace (goIndex settings ''allowed_cidrs'') = '''' then False
      else case allowedPrefixes ne (splitByte (CHR '','') (goIndex settings ''allowed_cidrs'')) of
        None \<Rightarrow> False
      | Some allowed \<Rightarrow>
          (case ne_ParseAddr ne host of
             Some address \<Rightarrow> list_ex (\<lambda>p. Contains p address) allowed
           | None \<Rightarrow> True))"

section \<open>Clear-text upstreams stay private\<close>

lemma Contains_widen:
  assumes "Contains parent (prefixAddr p)" and "px_Bits parent \<le> px_Bits p" and "Contains p a"
  shows "Contains parent a"
proof -
  define k where "k = hostBits parent - hostBits p"
  have len: "px_BitLen parent = px_BitLen p" using assms(1) by (simp add: Contains_def prefixAddr_def)
  then have h: "hostBits parent = hostBits p + k" using assms(2) by (simp add: k_def hostBits_def)
  have coarse: "x div 2 ^ hostBits parent = x div 2 ^ hostBits p div 2 ^ k" for x :: nat
    unfolding h by (simp add: power_add div_mult2_eq)
  have "px_Value p div 2 ^ hostBits parent = ip_Value a div 2 ^ hostBits parent"
    unfolding coarse using assms(3) by (simp add: Contains_def)
  with assms(1,3) len show ?thesis by (simp add: Contains_def prefixAddr_def)
qed

definition privateAddr :: "Addr \<Rightarrow> bool" where
  "privateAddr a = list_ex (\<lambda>r. Contains r a) privateRanges"

lemma privatePrefix_addr: "privatePrefix p \<Longrightarrow> Contains p a \<Longrightarrow> privateAddr a"
  using Contains_widen by (fastforce simp: privatePrefix_def privateAddr_def list_ex_iff)

lemma allowedPrefixes_private:
  "allowedPrefixes ne raws = Some ps \<Longrightarrow>
     (\<forall>raw \<in> set raws. \<exists>p. ne_ParsePrefix ne (trimSpace raw) = Some p \<and> privatePrefix (maskedPrefix p)) \<and> list_all privatePrefix ps"
  by (induction raws arbitrary: ps) (auto split: option.splits if_splits)

text \<open>
  C29: A clear-text base URL is accepted only for a loopback name or under the private opt-in: then every entry of
  the configured prefix list is a prefix all of whose addresses lie in the private ranges, and a host
  that is an address lies in the private ranges itself. A host name is not resolved here; the prefixes
  that hold it to private addresses when it is dialled are private in any case.
\<close>

theorem clear_text_private:
  assumes "validBaseURL ne u settings" and "u_Scheme u \<noteq> ''https''"
  shows "toLower (u_Hostname u) \<in> {''localhost'', ''127.0.0.1'', ''::1''}
     \<or> goIndex settings ''allow_private'' = ''true''
       \<and> (\<forall>raw \<in> set (splitByte (CHR '','') (goIndex settings ''allowed_cidrs'')). \<exists>p. ne_ParsePrefix ne (trimSpace raw) = Some p
            \<and> (\<forall>a. Contains (maskedPrefix p) a \<longrightarrow> privateAddr a))
       \<and> (\<forall>a. ne_ParseAddr ne (toLower (u_Hostname u)) = Some a \<longrightarrow> privateAddr a)"
proof (cases "toLower (u_Hostname u) \<in> {''localhost'', ''127.0.0.1'', ''::1''}")
  case False
  with assms obtain allowed where opt: "goIndex settings ''allow_private'' = ''true''"
    and allowed: "allowedPrefixes ne (splitByte (CHR '','') (goIndex settings ''allowed_cidrs'')) = Some allowed"
    and addr: "\<And>a. ne_ParseAddr ne (toLower (u_Hostname u)) = Some a \<Longrightarrow> \<exists>p \<in> set allowed. Contains p a"
    by (auto simp: validBaseURL_def Let_def list_ex_iff split: if_splits option.splits)
  note priv = allowedPrefixes_private [OF allowed]
  have "privateAddr a" if "ne_ParseAddr ne (toLower (u_Hostname u)) = Some a" for a
    using addr [OF that] priv privatePrefix_addr by (auto simp: list_all_iff)
  with opt priv privatePrefix_addr show ?thesis by blast
qed simp

text \<open>A parser for the one configuration of the example below: \<open>10.1.0.0/16\<close> and \<open>10.1.2.3\<close>.\<close>

definition exampleNet :: netEnv where
  "exampleNet =
     \<lparr>ne_ParseURL = (\<lambda>_. None),
      ne_ParsePrefix = (\<lambda>s. if s = ''10.1.0.0/16'' then Some \<lparr>px_BitLen = 32, px_Value = ipv4 10 1 0 0, px_Bits = 16\<rparr> else None),
      ne_ParseAddr = (\<lambda>s. if s = ''10.1.2.3'' then Some \<lparr>ip_BitLen = 32, ip_Value = ipv4 10 1 2 3, ip_Zone = ''''\<rparr> else None)\<rparr>"

definition exampleURL :: URL where
  "exampleURL = \<lparr>u_Scheme = ''http'', u_Opaque = '''', u_User = False, u_Host = ''10.1.2.3:8080'',
     u_Hostname = ''10.1.2.3'', u_RawQuery = '''', u_Fragment = ''''\<rparr>"

theorem clear_text_private_witness:
  "validBaseURL exampleNet exampleURL [(''allow_private'', ''true''), (''allowed_cidrs'', ''10.1.0.0/16'')]
   \<and> privateAddr \<lparr>ip_BitLen = 32, ip_Value = ipv4 10 1 2 3, ip_Zone = ''''\<rparr>"
proof -
  have trim: "trimSpace ''10.1.0.0/16'' = ''10.1.0.0/16''"
    by (simp add: trimSpace_def isSpaceRune_def str_eval)
  have low: "toLower ''10.1.2.3'' = ''10.1.2.3''" by (simp add: str_eval)
  have v: "validBaseURL exampleNet exampleURL [(''allow_private'', ''true''), (''allowed_cidrs'', ''10.1.0.0/16'')]"
    by (simp add: validBaseURL_def exampleURL_def exampleNet_def goIndex_def trim low maskedPrefix_def hostBits_def
        privatePrefix_def privateRanges_def prefixAddr_def Contains_def ipv4_def)
  have host: "toLower (u_Hostname exampleURL) = ''10.1.2.3''" "u_Scheme exampleURL \<noteq> ''https''" by (simp_all add: exampleURL_def low)
  have "ne_ParseAddr exampleNet ''10.1.2.3'' = Some \<lparr>ip_BitLen = 32, ip_Value = ipv4 10 1 2 3, ip_Zone = ''''\<rparr>"
    by (simp add: exampleNet_def)
  with clear_text_private [OF v host(2)] v show ?thesis by (simp add: host(1))
qed

end
