(* ===== verification/Tenant_Config.thy ===== *)
theory Tenant_Config
  imports Base_URL Identity
begin

text \<open>
  Which configuration a tenant may store: the resource checks of \<open>store/validation.go\<close> and the
  reference checks of \<open>validateTenantTx\<close> in \<open>store/resources.go\<close>.  A stored document is its decoded
  value, so \<open>strictDecode\<close> into a type is the partial function \<open>as...\<close> of that type.  Where Go
  iterates over a map the model follows the order of the table; the order decides only which of
  several violations is reported.
\<close>

section \<open>Names\<close>

definition validRef :: "string \<Rightarrow> bool" where
  "validRef s =
     (s \<noteq> '''' \<and> length s \<le> 512 \<and> trimSpace s = s \<and> \<not> list_ex (\<lambda>(r, bs). isControlRune r) (runes s))"

text \<open>The loop of the three list checks: every element passes \<open>ok\<close> and none was seen before.\<close>

fun uniqueLoop :: "('a \<Rightarrow> bool) \<Rightarrow> 'a list \<Rightarrow> 'a list \<Rightarrow> bool" where
  "uniqueLoop ok seen [] = True"
| "uniqueLoop ok seen (x # xs) = (if \<not> ok x \<or> x \<in> set seen then False else uniqueLoop ok (x # seen) xs)"

definition validNames :: "string list \<Rightarrow> bool \<Rightarrow> bool" where
  "validNames xs wild = uniqueLoop (\<lambda>s. validRef s \<and> (wild \<or> s \<noteq> ''*'')) [] xs"

definition validOperations :: "string list \<Rightarrow> bool" where
  "validOperations xs =
     uniqueLoop (\<lambda>s. validRef s \<and> \<not> list_ex (\<lambda>c. byteOf c \<in> {32, 47, 92, 9, 10}) s) [] xs"

definition keyOperations :: "Operation list" where
  "keyOperations =
     [''generate'', ''complete'', ''embed'', ''rerank'', ''count_tokens'', ''image.generate'', ''image.edit'',
      ''image.variation'', ''audio.speech'', ''audio.transcribe'', ''audio.translate'', ''video'', ''realtime'',
      ''realtime.ticket'', ''file'', ''upload'', ''batch'', ''response.resource'', ''conversation.resource'',
      ''prediction'', ''model.list'', ''native'', ''chat.resource'', ''moderation'', ''model.resource'',
      ''audio.voice'', ''audio.voice_consent'', ''video.extension'', ''video.character'', ''prediction.create'',
      ''prediction.get'', ''prediction.list'', ''prediction.cancel'', ''model.get'', ''model.create'',
      ''model.version.get'', ''model.version.list'', ''deployment.get'', ''deployment.list'',
      ''deployment.create'']"

definition validKeyOperations :: "Operation list \<Rightarrow> bool" where
  "validKeyOperations xs = uniqueLoop (\<lambda>op. op \<in> set keyOperations) [] xs"

definition validPriceRate :: "int64 option \<Rightarrow> bool" where
  "validPriceRate rate = (case rate of None \<Rightarrow> True | Some r \<Rightarrow> r \<ge> 0)"

definition validPriceSchedule :: "PriceSchedule \<Rightarrow> bool" where
  "validPriceSchedule price =
     (validRef (ps_Version price) \<and> validPriceRate (ps_InputPerMillion price)
      \<and> validPriceRate (ps_OutputPerMillion price) \<and> validPriceRate (ps_CachedInputPerMillion price)
      \<and> validPriceRate (ps_CacheWriteInputPerMillion price) \<and> validPriceRate (ps_CacheWrite5mPerMillion price)
      \<and> validPriceRate (ps_CacheWrite1hPerMillion price) \<and> validPriceRate (ps_MaximumUnitCost price))"

section \<open>Resources\<close>

fun asConnection :: "resourceData \<Rightarrow> ConnectionData option" where
  "asConnection (ConnectionRes x) = Some x"
| "asConnection _ = None"

fun asModel :: "resourceData \<Rightarrow> ModelData option" where
  "asModel (ModelRes x) = Some x"
| "asModel _ = None"

fun asAlias :: "resourceData \<Rightarrow> AliasData option" where
  "asAlias (AliasRes x) = Some x"
| "asAlias _ = None"

fun asRoute :: "resourceData \<Rightarrow> RoutePolicyData option" where
  "asRoute (RouteRes x) = Some x"
| "asRoute _ = None"

fun asAccount :: "resourceData \<Rightarrow> AccountData option" where
  "asAccount (AccountRes x) = Some x"
| "asAccount _ = None"

fun asPrice :: "resourceData \<Rightarrow> PriceData option" where
  "asPrice (PriceRes x) = Some x"
| "asPrice _ = None"

fun asPolicyLimit :: "resourceData \<Rightarrow> PolicyLimitData option" where
  "asPolicyLimit (PolicyLimitRes x) = Some x"
| "asPolicyLimit _ = None"

fun asKeyData :: "resourceData \<Rightarrow> (keyData \<times> int64) option" where
  "asKeyData (KeyRes x v) = Some (x, v)"
| "asKeyData _ = None"

definition validConnection :: "netEnv \<Rightarrow> ConnectionData \<Rightarrow> bool" where
  "validConnection ne x =
     (cd_BaseURL x = ''''
      \<or> (case ne_ParseURL ne (cd_BaseURL x) of None \<Rightarrow> False | Some u \<Rightarrow> validBaseURL ne u (cd_Settings x)))"

definition validModel :: "ModelData \<Rightarrow> bool" where
  "validModel x =
     (validRef (mo_ConnectionID x) \<and> validRef (mo_UpstreamID x) \<and> mo_Operations x \<noteq> []
      \<and> validOperations (mo_Operations x) \<and> validPriceRate (mo_ContextLimit x) \<and> validPriceRate (mo_OutputLimit x)
      \<and> validNames (mo_InputModalities x) False \<and> validNames (mo_OutputModalities x) False
      \<and> list_all (\<lambda>(k, v). validRef k \<and> validRef v \<and> (v = ''supported'' \<or> v = ''unsupported'' \<or> v = ''unknown''))
          (mo_Features x)
      \<and> (case mo_Price x of None \<Rightarrow> True | Some p \<Rightarrow> validPriceSchedule p))"

definition validRouteTarget :: "RouteTarget \<Rightarrow> bool" where
  "validRouteTarget t = (validRef (rt_ConnectionID t) \<and> validRef (rt_ModelID t) \<and> rt_Priority t \<ge> 0 \<and> rt_Weight t > 0)"

definition validAliasTargets :: "AliasData \<Rightarrow> bool" where
  "validAliasTargets x =
     (ad_Targets x \<noteq> [] \<and> list_all validRouteTarget (ad_Targets x)
      \<and> uniqueLoop (\<lambda>_. True) [] (map (\<lambda>t. (rt_ConnectionID t, rt_ModelID t)) (ad_Targets x)))"

definition validAccount :: "AccountData \<Rightarrow> bool" where
  "validAccount x =
     (\<not> (ac_Connector x = '''' \<and> ac_Provider x = '''') \<and> (ac_Connector x = '''' \<or> validRef (ac_Connector x))
      \<and> (ac_Provider x = '''' \<or> validRef (ac_Provider x)) \<and> \<not> (ac_Name x = '''' \<and> ac_AccountIDs x = []))"

definition validPrice :: "PriceData \<Rightarrow> bool" where
  "validPrice x =
     (validRef (pc_ModelID x) \<and> length (pc_Currency x) = 3 \<and> list_all (inByte 65 90) (pc_Currency x)
      \<and> pc_InputPerMillion x \<ge> 0 \<and> pc_OutputPerMillion x \<ge> 0 \<and> validPriceRate (pc_CachedInputPerMillion x)
      \<and> validPriceRate (pc_CacheWriteInputPerMillion x) \<and> validPriceRate (pc_CacheWrite5mPerMillion x)
      \<and> validPriceRate (pc_CacheWrite1hPerMillion x))"

definition validRoute :: "RoutePolicyData \<Rightarrow> bool" where
  "validRoute x =
     (validRef (rd_Alias x) \<and> rd_Targets x \<noteq> [] \<and> validNames (rd_Residency x) False
      \<and> (rd_AccountPoolID x = '''' \<or> validRef (rd_AccountPoolID x))
      \<and> list_all (\<lambda>t. validRouteTarget t \<and> (rt_Region t = '''' \<or> validRef (rt_Region t))) (rd_Targets x))"

definition validPolicyLimit :: "PolicyLimitData \<Rightarrow> bool" where
  "validPolicyLimit x =
     (validRef (pd_Scope x) \<and> validRef (pd_ScopeID x) \<and> pd_RequestsPerMinute x \<ge> 0 \<and> pd_TokensPerMinute x \<ge> 0
      \<and> pd_MaxCost x \<ge> 0 \<and> pd_Concurrency x \<ge> 0 \<and> pd_OutstandingJobs x \<ge> 0
      \<and> pd_CostWindow x \<in> {'''', ''total'', ''daily'', ''monthly''})"

definition validKey :: "keyData \<Rightarrow> bool" where
  "validKey x =
     (kd_Permissions x \<noteq> [] \<and> validNames (kd_Permissions x) True \<and> validNames (kd_Aliases x) True
      \<and> validNames (kd_Connections x) True \<and> validKeyOperations (kd_Operations x)
      \<and> kd_Role x \<in> {''owner'', ''admin'', ''operator'', ''viewer''})"

definition badResource :: "string \<Rightarrow> go_error" where
  "badResource kind = Problem ''invalid_resource'' 400 (''invalid '' @ kind @ '' resource'')"

fun errorText :: "go_error \<Rightarrow> string" where
  "errorText (GoErr m) = m"
| "errorText (Sentinel m) = m"
| "errorText (Problem c st m) = m"
| "errorText CtxErr = ''context canceled''"

definition checked :: "string \<Rightarrow> ('a \<Rightarrow> bool) \<Rightarrow> 'a option \<Rightarrow> resourceData \<Rightarrow> resourceData res" where
  "checked kind ok x data =
     (case x of None \<Rightarrow> Inl (badResource kind) | Some v \<Rightarrow> if ok v then Inr data else Inl (badResource kind))"

definition validateResource :: "netEnv \<Rightarrow> string \<Rightarrow> resourceData \<Rightarrow> resourceData res" where
  "validateResource ne kind data =
     (if kind = ''connections'' then
        bindR (checked kind (\<lambda>x. validRef (cd_Connector x) \<and> (cd_AccountID x = '''' \<or> validRef (cd_AccountID x)))
                 (asConnection data) data) (\<lambda>_.
        case Validate (cd_ClientProfile (the (asConnection data))) (cd_Connector (the (asConnection data))) of
          Inl e \<Rightarrow> Inl (Problem ''invalid_resource'' 400 (errorText e))
        | Inr _ \<Rightarrow> checked kind (validConnection ne) (asConnection data) data)
      else if kind = ''models'' then checked kind validModel (asModel data) data
      else if kind = ''aliases'' then checked kind validAliasTargets (asAlias data) data
      else if kind = ''accounts'' then checked kind validAccount (asAccount data) data
      else if kind = ''prices'' then checked kind validPrice (asPrice data) data
      else if kind = ''model_aliases'' then checked kind (\<lambda>x. validNames (ad_ModelIDs x) False) (asAlias data) data
      else if kind = ''route_policies'' then checked kind validRoute (asRoute data) data
      else if kind = ''policy_limits'' then checked kind validPolicyLimit (asPolicyLimit data) data
      else if kind = ''account_pools'' then
        checked kind (\<lambda>x. validRef (ac_Provider x) \<and> validNames (ac_AccountIDs x) False) (asAccount data) data
      else if kind = ''api_keys'' then checked kind (\<lambda>(x, v). validKey x) (asKeyData data) data
      else Inl (badResource kind))"

section \<open>The tenant graph\<close>

definition invalidConfiguration :: go_error where
  "invalidConfiguration = storeError ''invalid_configuration'' 409"

text \<open>The rows of one kind, decoded; \<open>None\<close> when one of them does not decode.\<close>

definition kindRows :: "string \<Rightarrow> string \<Rightarrow> Store \<Rightarrow> (string \<times> resourceRow) list" where
  "kindRows tenant kind s =
     map (\<lambda>((t, k, i), r). (i, r)) (filter (\<lambda>((t, k, i), r). t = tenant \<and> k = kind) (st_resources s))"

definition tenantRows :: "(resourceData \<Rightarrow> 'a option) \<Rightarrow> string \<Rightarrow> string \<Rightarrow> Store \<Rightarrow> (string \<times> 'a) list option" where
  "tenantRows dec tenant kind s =
     allSome (map (\<lambda>(i, r). map_option (Pair i) (dec (rs_data r))) (kindRows tenant kind s))"

definition connProvider :: "ConnectionData \<Rightarrow> string" where
  "connProvider c =
     (if goIndex (cd_Settings c) ''provider'' \<noteq> '''' then goIndex (cd_Settings c) ''provider'' else cd_Connector c)"

definition consentMissing :: "ConnectionData \<Rightarrow> bool" where
  "consentMissing c =
     (equalFold (goIndex (cd_Settings c) ''subscription'') ''true'' \<and> goIndex (cd_Settings c) ''consent_ack'' \<noteq> ''true'')"

definition check :: "bool \<Rightarrow> unit res" where
  "check ok = (if ok then Inr () else Inl invalidConfiguration)"

definition modelGraphOk :: "(string \<times> ConnectionData) list \<Rightarrow> ModelData \<Rightarrow> bool" where
  "modelGraphOk conns m =
     (case map_of conns (mo_ConnectionID m) of
        None \<Rightarrow> False
      | Some c \<Rightarrow> \<not> (mo_Enabled m \<and> \<not> cd_Enabled c))"

fun activeMembers :: "(string \<times> ConnectionData) list \<Rightarrow> (string \<times> ModelData) list \<Rightarrow> string list \<Rightarrow> nat option" where
  "activeMembers conns models [] = Some 0"
| "activeMembers conns models (mid # rest) =
     (case map_of models mid of
        None \<Rightarrow> None
      | Some m \<Rightarrow>
          if \<not> mo_Enabled m then activeMembers conns models rest
          else case map_of conns (mo_ConnectionID m) of
            None \<Rightarrow> None
          | Some c \<Rightarrow> if \<not> cd_Enabled c then None else map_option Suc (activeMembers conns models rest))"

definition aliasGraphOk :: "(string \<times> ConnectionData) list \<Rightarrow> (string \<times> ModelData) list \<Rightarrow> AliasData \<Rightarrow> bool" where
  "aliasGraphOk conns models a =
     (\<not> ad_Enabled a
      \<or> (ad_ModelIDs a \<noteq> []
         \<and> (case activeMembers conns models (ad_ModelIDs a) of None \<Rightarrow> False | Some n \<Rightarrow> n \<noteq> 0)))"

definition checkRouteTarget :: "(string \<times> ConnectionData) list \<Rightarrow> (string \<times> ModelData) list \<Rightarrow> AliasData
    \<Rightarrow> AccountData option \<Rightarrow> RoutePolicyData \<Rightarrow> RouteTarget \<Rightarrow> unit res" where
  "checkRouteTarget conns models a pool r t =
     (case map_of models (rt_ModelID t) of
        None \<Rightarrow> Inl invalidConfiguration
      | Some m \<Rightarrow>
      if \<not> mo_Enabled m \<or> mo_ConnectionID m \<noteq> rt_ConnectionID t then Inl invalidConfiguration
      else case map_of conns (rt_ConnectionID t) of
        None \<Rightarrow> Inl invalidConfiguration
      | Some c \<Rightarrow>
      if \<not> cd_Enabled c \<or> rt_ModelID t \<notin> set (ad_ModelIDs a) \<or> rt_Weight t \<le> 0 \<or> rt_Priority t < 0 then
        Inl invalidConfiguration
      else if rt_Region t \<noteq> '''' \<and> cd_Region c \<noteq> '''' \<and> rt_Region t \<noteq> cd_Region c then Inl invalidConfiguration
      else if rd_Residency r \<noteq> [] \<and> cd_Region c \<notin> set (rd_Residency r) then Inl invalidConfiguration
      else case pool of
        None \<Rightarrow> Inr ()
      | Some p \<Rightarrow>
          if ac_Provider p \<noteq> connProvider c \<or> cd_AccountID c \<notin> set (ac_AccountIDs p) then Inl invalidConfiguration
          else if consentMissing c then Inl (storeError ''consent_required'' 403)
          else Inr ())"

definition checkRoute :: "(string \<times> ConnectionData) list \<Rightarrow> (string \<times> ModelData) list \<Rightarrow> (string \<times> AliasData) list
    \<Rightarrow> (string \<times> AccountData) list \<Rightarrow> string \<times> RoutePolicyData \<Rightarrow> string list \<Rightarrow> string list res" where
  "checkRoute conns models aliases pools kv seen =
     (let r = snd kv in
      case map_of aliases (rd_Alias r) of
        None \<Rightarrow> Inl invalidConfiguration
      | Some a \<Rightarrow>
          if \<not> ad_Enabled a \<or> rd_Alias r \<in> set seen then Inl invalidConfiguration
          else if rd_AccountPoolID r \<noteq> '''' \<and> map_of pools (rd_AccountPoolID r) = None then Inl invalidConfiguration
          else if \<not> list_all validRef (rd_Residency r) then Inl invalidConfiguration
          else
            bindR (foldR (\<lambda>t _. checkRouteTarget conns models a
                      (if rd_AccountPoolID r \<noteq> '''' then map_of pools (rd_AccountPoolID r) else None) r t)
                    (rd_Targets r) ())
              (\<lambda>_. Inr (rd_Alias r # seen)))"

definition checkPoolAccount :: "(string \<times> ConnectionData) list \<Rightarrow> AccountData \<Rightarrow> string \<Rightarrow> unit res" where
  "checkPoolAccount conns pool account =
     (case find (\<lambda>(i, c). cd_Enabled c \<and> cd_AccountID c = account \<and> connProvider c = ac_Provider pool) conns of
        None \<Rightarrow> Inl invalidConfiguration
      | Some (i, c) \<Rightarrow> if consentMissing c then Inl (storeError ''consent_required'' 403) else Inr ())"

definition checkPool :: "(string \<times> ConnectionData) list \<Rightarrow> AccountData \<Rightarrow> unit res" where
  "checkPool conns pool =
     (if \<not> validRef (ac_Provider pool) \<or> \<not> validNames (ac_AccountIDs pool) False then Inl invalidConfiguration
      else foldR (\<lambda>account _. checkPoolAccount conns pool account) (ac_AccountIDs pool) ())"

definition limitScopeOk :: "string \<Rightarrow> (string \<times> ConnectionData) list \<Rightarrow> (string \<times> ModelData) list \<Rightarrow> Store
    \<Rightarrow> PolicyLimitData \<Rightarrow> bool" where
  "limitScopeOk tenant conns models s limit =
     (if pd_Scope limit = ''tenant'' then pd_ScopeID limit = tenant
      else if pd_Scope limit = ''connection'' then
        (case map_of conns (pd_ScopeID limit) of None \<Rightarrow> False | Some c \<Rightarrow> cd_Enabled c)
      else if pd_Scope limit = ''model'' then
        (case map_of models (pd_ScopeID limit) of None \<Rightarrow> False | Some m \<Rightarrow> mo_Enabled m)
      else if pd_Scope limit = ''account'' then
        list_ex (\<lambda>(i, c). cd_Enabled c \<and> cd_AccountID c = pd_ScopeID limit) conns
      else if pd_Scope limit = ''key'' then map_of (st_api_keys s) (tenant, pd_ScopeID limit) \<noteq> None
      else False)"

definition decoded :: "'a option \<Rightarrow> 'a res" where
  "decoded x = (case x of None \<Rightarrow> Inl invalidConfiguration | Some v \<Rightarrow> Inr v)"

definition validateTenantTx :: "string \<Rightarrow> Store \<Rightarrow> unit res" where
  "validateTenantTx tenant s =
     (if tenant = '''' then Inl unauthorized
      else
        bindR (decoded (tenantRows asConnection tenant ''connections'' s)) (\<lambda>conns.
        bindR (decoded (tenantRows asModel tenant ''models'' s)) (\<lambda>models.
        bindR (decoded (tenantRows asAlias tenant ''model_aliases'' s)) (\<lambda>aliases.
        bindR (decoded (tenantRows asRoute tenant ''route_policies'' s)) (\<lambda>routes.
        bindR (decoded (tenantRows asAccount tenant ''account_pools'' s)) (\<lambda>pools.
        bindR (decoded (tenantRows asPolicyLimit tenant ''policy_limits'' s)) (\<lambda>limits.
        bindR (decoded (tenantRows asPrice tenant ''prices'' s)) (\<lambda>prices.
        bindR (check (list_all (\<lambda>(i, m). mo_ConnectionID m \<noteq> '''') models)) (\<lambda>_.
        bindR (check (list_all (\<lambda>(i, m). modelGraphOk conns m) models)) (\<lambda>_.
        bindR (check (list_all (\<lambda>(i, p). map_of models (pc_ModelID p) \<noteq> None) prices)) (\<lambda>_.
        bindR (check (list_all (\<lambda>(i, a). aliasGraphOk conns models a) aliases)) (\<lambda>_.
        bindR (foldR (checkRoute conns models aliases pools) routes []) (\<lambda>_.
        bindR (foldR (\<lambda>(i, pool) _. checkPool conns pool) pools ()) (\<lambda>_.
        check (list_all (\<lambda>(i, l). limitScopeOk tenant conns models s l) limits)))))))))))))))"

section \<open>Lemmas\<close>

lemma uniqueLoop_iff: "uniqueLoop ok seen xs \<longleftrightarrow> list_all ok xs \<and> distinct xs \<and> set xs \<inter> set seen = {}"
  by (induction xs arbitrary: seen) auto

lemma validNames_iff: "validNames xs wild \<longleftrightarrow> list_all validRef xs \<and> distinct xs \<and> (wild \<or> ''*'' \<notin> set xs)"
  by (auto simp: validNames_def uniqueLoop_iff list_all_iff)

lemma validRef_nonempty: "validRef x \<Longrightarrow> x \<noteq> ''''"
  by (simp add: validRef_def)

lemma check_Inr [simp]: "check ok = Inr u \<longleftrightarrow> ok"
  by (simp add: check_def)

lemma decoded_Inr [simp]: "decoded x = Inr v \<longleftrightarrow> x = Some v"
  by (simp add: decoded_def split: option.splits)

lemma checked_Inr: "checked kind ok x d = Inr d' \<longleftrightarrow> (\<exists>v. x = Some v \<and> ok v) \<and> d' = d"
  by (auto simp: checked_def split: option.splits)

lemma allSome_Some: "allSome xs = Some ys \<longleftrightarrow> xs = map Some ys"
proof (induction xs arbitrary: ys)
  case (Cons x xs)
  then show ?case by (cases x; cases ys) auto
qed auto

end
