(* ===== verification/Keys.thy ===== *)
theory Keys
  imports Tenant_Config
begin

text \<open>
  API keys, from \<open>store/keys.go\<close>: the token format, the resolution of a key to a principal,
  authentication, issuing, rotation and the metadata update that accompanies a resource mutation.
  The hexadecimal SHA-256 digest is the argument \<open>digest\<close> and the 32 random bytes are the argument
  \<open>rnd\<close>, an error when the random source fails.
\<close>

section \<open>Tokens\<close>

definition validKeyCoordinate :: "string \<Rightarrow> bool" where
  "validKeyCoordinate v = (v \<noteq> '''' \<and> length v \<le> 512 \<and> validString v \<and> nulFree v)"

definition keyToken :: "string \<Rightarrow> string \<Rightarrow> string \<Rightarrow> string" where
  "keyToken tenant rid secret =
     ''hg_'' @ (b64encode tenant @ ''.'' @ b64encode rid) @ ''_'' @ b64encode secret"

definition newKeyToken :: "(string \<Rightarrow> string) \<Rightarrow> string res \<Rightarrow> string \<Rightarrow> string \<Rightarrow> (string \<times> string) res" where
  "newKeyToken digest rnd tenant rid =
     (if \<not> validKeyCoordinate tenant \<or> \<not> validKeyCoordinate rid then
        Inl (Problem ''invalid_key'' 400 ''invalid key coordinates'')
      else bindR rnd (\<lambda>secret. let token = keyToken tenant rid secret in Inr (token, digest token)))"

definition decodeCoordinate :: "string \<Rightarrow> string option" where
  "decodeCoordinate e =
     (case b64decode e of
        None \<Rightarrow> None
      | Some v \<Rightarrow> if b64encode v \<noteq> e \<or> \<not> validKeyCoordinate v then None else Some v)"

definition parseKeyToken :: "string \<Rightarrow> (string \<times> string) option" where
  "parseKeyToken token =
     (if length token > 1500 then None
      else case splitN (CHR ''_'') 3 token of
        [scheme, coords, tail] \<Rightarrow>
          if scheme \<noteq> ''hg'' then None
          else (case splitByte (CHR ''.'') coords of
            [t, i] \<Rightarrow>
              (case decodeCoordinate t of
                 None \<Rightarrow> None
               | Some tenant \<Rightarrow>
                   (case decodeCoordinate i of
                      None \<Rightarrow> None
                    | Some rid \<Rightarrow>
                        (case b64decode tail of
                           None \<Rightarrow> None
                         | Some secret \<Rightarrow>
                             if length secret \<noteq> 32 \<or> b64encode secret \<noteq> tail then None else Some (tenant, rid))))
          | _ \<Rightarrow> None)
      | _ \<Rightarrow> None)"

section \<open>Metadata\<close>

text \<open>
  A stored document that carries a non-zero \<open>version\<close> field does not decode into the store's own
  key type, which has no such field.
\<close>

fun keyDocument :: "resourceData \<Rightarrow> keyData option" where
  "keyDocument (KeyRes k v) = (if v = 0 then Some k else None)"
| "keyDocument _ = None"

definition decodeKeyData :: "keyData option \<Rightarrow> keyData res" where
  "decodeKeyData data =
     (case data of
        None \<Rightarrow> Inl (storeError ''invalid_key_metadata'' 400)
      | Some kd \<Rightarrow>
          if kd_Role kd \<notin> {''viewer'', ''operator'', ''admin''} then Inl (storeError ''invalid_key_metadata'' 400)
          else if kd_Permissions kd = [] \<or> \<not> validKeyOperations (kd_Operations kd) then
            Inl (storeError ''invalid_key_metadata'' 400)
          else Inr kd)"

definition rank :: "string \<Rightarrow> nat" where
  "rank role =
     (if role = ''viewer'' then 1 else if role = ''operator'' then 2 else if role = ''admin'' then 3
      else if role = ''owner'' then 4 else 0)"

definition issuerAllows :: "Principal \<Rightarrow> string \<Rightarrow> bool" where
  "issuerAllows p v = list_ex (\<lambda>x. x = ''*'' \<or> x = v) (pr_Permissions p)"

definition issuerAllowsKey :: "Principal \<Rightarrow> keyData \<Rightarrow> bool" where
  "issuerAllowsKey p kd =
     (if rank (pr_Role p) < rank (kd_Role kd) then False
      else list_all (issuerAllows p) (kd_Permissions kd)
        \<and> list_all (\<lambda>v. issuerAllows p (''alias:'' @ v) \<or> issuerAllows p ''aliases:*'' \<or> issuerAllows p ''*'') (kd_Aliases kd)
        \<and> list_all (\<lambda>v. issuerAllows p (''connection:'' @ v) \<or> issuerAllows p ''connections:*'' \<or> issuerAllows p ''*'')
            (kd_Connections kd)
        \<and> list_all (\<lambda>v. issuerAllows p (''operation:'' @ v) \<or> issuerAllows p ''operations:*'' \<or> issuerAllows p ''*'')
            (kd_Operations kd))"

definition principalForKey :: "string \<Rightarrow> string \<Rightarrow> int64 \<Rightarrow> keyData \<Rightarrow> Principal" where
  "principalForKey tenant rid version kd =
     \<lparr>pr_TenantID = tenant, pr_SubjectID = rid, pr_KeyID = rid, pr_Role = kd_Role kd, pr_SessionID = '''',
      pr_AuthSource = '''', pr_KeyRevision = version, pr_Permissions = kd_Permissions kd,
      pr_Aliases = kd_Aliases kd, pr_Connections = kd_Connections kd, pr_Operations = kd_Operations kd,
      pr_Portable = kd_Portable kd, pr_NativeAccount = kd_NativeAccount kd, pr_Realtime = kd_Realtime kd\<rparr>"

section \<open>Resolution\<close>

definition orUnauthorized :: "'a option \<Rightarrow> 'a res" where
  "orUnauthorized x = (case x of None \<Rightarrow> Inl unauthorized | Some v \<Rightarrow> Inr v)"

definition resolveActiveKeyTx :: "string \<Rightarrow> string \<Rightarrow> int64 \<Rightarrow> Store \<Rightarrow> Principal res" where
  "resolveActiveKeyTx tenant rid expectedVersion s =
     (if tenant = '''' \<or> rid = '''' \<or> expectedVersion \<le> 0 then Inl unauthorized
      else
        bindR (orUnauthorized (map_of (st_tenants s) tenant)) (\<lambda>td.
        bindR (orUnauthorized td) (\<lambda>t.
        if \<not> td_Enabled t then Inl unauthorized
        else bindR (orUnauthorized (map_of (st_api_keys s) (tenant, rid))) (\<lambda>k.
        if ky_revoked k \<or> ky_version k \<noteq> expectedVersion then Inl unauthorized
        else bindR (orUnauthorized (map_of (st_resources s) (tenant, ''api_keys'', rid))) (\<lambda>r.
        if rs_version r \<noteq> ky_version k then Inl unauthorized
        else case decodeKeyData (keyDocument (rs_data r)) of
          Inl _ \<Rightarrow> Inl unauthorized
        | Inr kd \<Rightarrow> Inr (principalForKey tenant rid (ky_version k) kd))))))"

definition resolvePrincipalTx :: "Principal \<Rightarrow> Store \<Rightarrow> Principal res" where
  "resolvePrincipalTx p s =
     (if pr_KeyID p \<noteq> '''' then resolveActiveKeyTx (pr_TenantID p) (pr_KeyID p) (pr_KeyRevision p) s
      else bindR (resolveMembershipTx (pr_TenantID p) (pr_SubjectID p) s) (\<lambda>current.
        Inr (current\<lparr>pr_SessionID := pr_SessionID p, pr_AuthSource := pr_AuthSource p,
                    pr_Permissions := pr_Permissions p\<rparr>)))"

definition authenticateTx :: "string \<Rightarrow> string \<Rightarrow> string \<Rightarrow> Principal txn" where
  "authenticateTx present tenant rid s =
     (case map_of (st_api_keys s) (tenant, rid) of
        None \<Rightarrow> Inl unauthorized
      | Some k \<Rightarrow>
          if ky_revoked k \<or> ky_verifier k \<noteq> present then Inl unauthorized
          else bindR (resolveActiveKeyTx tenant rid (ky_version k) s) (\<lambda>p. Inr (p, s)))"

definition AuthenticateKey :: "txEnv \<Rightarrow> (string \<Rightarrow> string) \<Rightarrow> string \<Rightarrow> Store \<Rightarrow> Principal res \<times> Store" where
  "AuthenticateKey env digest token s =
     (case parseKeyToken token of
        None \<Rightarrow> (Inl unauthorized, s)
      | Some (tenant, rid) \<Rightarrow>
          (case withTx env (authenticateTx (digest token) tenant rid) s of
             (Inl _, s') \<Rightarrow> (Inl unauthorized, s')
           | (Inr p, s') \<Rightarrow> (Inr p, s')))"

section \<open>Issuing and rotating\<close>

record KeyResource =
  kr_ID :: string
  kr_TenantID :: string
  kr_Version :: int64
  kr_Data :: keyData

definition issueTx :: "string \<Rightarrow> int64 \<Rightarrow> Principal \<Rightarrow> string \<Rightarrow> keyData \<Rightarrow> string \<Rightarrow> KeyResource txn" where
  "issueTx aid clock p rid kd verifier s =
     bindR (resolvePrincipalTx p s) (\<lambda>current.
     bindR (authorize current True) (\<lambda>_.
     if \<not> issuerAllowsKey current kd then Inl (storeError ''forbidden'' 403)
     else if map_of (st_resources s) (pr_TenantID current, ''api_keys'', rid) \<noteq> None then
       Inl (storeError ''already_exists'' 409)
     else if map_of (st_api_keys s) (pr_TenantID current, rid) \<noteq> None then
       Inl (GoErr ''UNIQUE constraint failed'')
     else
       let s1 = s\<lparr>st_resources := AList.update (pr_TenantID current, ''api_keys'', rid)
                    \<lparr>rs_version = 1, rs_data = KeyRes kd 0\<rparr> (st_resources s),
                  st_api_keys := AList.update (pr_TenantID current, rid)
                    \<lparr>ky_version = 1, ky_verifier = verifier, ky_data = Some kd, ky_revoked = False\<rparr> (st_api_keys s)\<rparr>
       in bindR (validateTenantTx (pr_TenantID current) s1) (\<lambda>_.
          bindR (bumpRevisionTx s1) (\<lambda>(_, s2).
          bindR (auditTx aid clock current ''api_keys'' rid ''issue'' 1 s2) (\<lambda>(_, s3).
          Inr (\<lparr>kr_ID = rid, kr_TenantID = pr_TenantID current, kr_Version = 1, kr_Data = kd\<rparr>, s3))))))"

definition IssueKey :: "txEnv \<Rightarrow> (string \<Rightarrow> string) \<Rightarrow> string res \<Rightarrow> string \<Rightarrow> int64 \<Rightarrow> Principal \<Rightarrow> string
    \<Rightarrow> keyData option \<Rightarrow> Store \<Rightarrow> (KeyResource \<times> string) res \<times> Store" where
  "IssueKey env digest rnd aid clock p rid data s =
     (if rid = '''' \<or> length rid > 256 \<or> list_ex (\<lambda>c. byteOf c \<in> {0, 13, 10}) rid then
        (Inl (storeError ''invalid_resource'' 400), s)
      else case decodeKeyData data of
        Inl e \<Rightarrow> (Inl e, s)
      | Inr kd \<Rightarrow>
          (case newKeyToken digest rnd (pr_TenantID p) rid of
             Inl e \<Rightarrow> (Inl e, s)
           | Inr (token, verifier) \<Rightarrow>
               (case withTx env (issueTx aid clock p rid kd verifier) s of
                  (Inl e, s') \<Rightarrow> (Inl e, s')
                | (Inr out, s') \<Rightarrow> (Inr (out, token), s'))))"

definition rotateTx :: "string \<Rightarrow> int64 \<Rightarrow> Principal \<Rightarrow> string \<Rightarrow> int64 \<Rightarrow> string \<Rightarrow> KeyResource txn" where
  "rotateTx aid clock p rid expectedVersion verifier s =
     bindR (resolvePrincipalTx p s) (\<lambda>current.
     bindR (authorize current True) (\<lambda>_.
     let tenant = pr_TenantID current in
     case map_of (st_api_keys s) (tenant, rid) of
       None \<Rightarrow> Inl (storeError ''not_found'' 404)
     | Some k \<Rightarrow>
         if ky_revoked k \<or> ky_version k \<noteq> expectedVersion then Inl (storeError ''version_conflict'' 412)
         else case decodeKeyData (ky_data k) of
           Inl _ \<Rightarrow> Inl (storeError ''invalid_key_metadata'' 500)
         | Inr kd \<Rightarrow>
             if \<not> issuerAllowsKey current kd then Inl (storeError ''forbidden'' 403)
             else let v = wrap64 (ky_version k + 1) in
             case map_of (st_resources s) (tenant, ''api_keys'', rid) of
               None \<Rightarrow> Inl (storeError ''version_conflict'' 412)
             | Some r \<Rightarrow>
                 if rs_version r \<noteq> ky_version k then Inl (storeError ''version_conflict'' 412)
                 else
                   let s1 = s\<lparr>st_api_keys := AList.update (tenant, rid) (k\<lparr>ky_version := v, ky_verifier := verifier\<rparr>) (st_api_keys s),
                              st_resources := AList.update (tenant, ''api_keys'', rid) (r\<lparr>rs_version := v\<rparr>) (st_resources s)\<rparr>
                   in bindR (bumpRevisionTx s1) (\<lambda>(_, s2).
                      bindR (auditTx aid clock current ''api_keys'' rid ''rotate'' v s2) (\<lambda>(_, s3).
                      Inr (\<lparr>kr_ID = rid, kr_TenantID = tenant, kr_Version = v, kr_Data = kd\<rparr>, s3)))))"

definition RotateKey :: "txEnv \<Rightarrow> (string \<Rightarrow> string) \<Rightarrow> string res \<Rightarrow> string \<Rightarrow> int64 \<Rightarrow> Principal \<Rightarrow> string
    \<Rightarrow> int64 \<Rightarrow> Store \<Rightarrow> (KeyResource \<times> string) res \<times> Store" where
  "RotateKey env digest rnd aid clock p rid expectedVersion s =
     (if rid = '''' \<or> expectedVersion \<le> 0 then (Inl (storeError ''invalid_resource'' 400), s)
      else case newKeyToken digest rnd (pr_TenantID p) rid of
        Inl e \<Rightarrow> (Inl e, s)
      | Inr (token, verifier) \<Rightarrow>
          (case withTx env (rotateTx aid clock p rid expectedVersion verifier) s of
             (Inl e, s') \<Rightarrow> (Inl e, s')
           | (Inr out, s') \<Rightarrow> (Inr (out, token), s')))"

text \<open>The key's own row follows a mutation of its resource; deletion revokes it and keeps the row.\<close>

record Mutation =
  mu_Kind :: string
  mu_ID :: string
  mu_ExpectedVersion :: int64
  mu_Delete :: bool
  mu_Data :: resourceData

definition syncKeyMetadataTx :: "Principal \<Rightarrow> Mutation \<Rightarrow> resourceData \<Rightarrow> int64 \<Rightarrow> Store \<Rightarrow> Store res" where
  "syncKeyMetadataTx p m data version s =
     (if mu_ID m = '''' then Inl (storeError ''invalid_resource'' 400)
      else if version \<le> 1 then Inl (storeError ''invalid_key_mutation'' 400)
      else case map_of (st_api_keys s) (pr_TenantID p, mu_ID m) of
        None \<Rightarrow> Inl (storeError ''not_found'' 404)
      | Some k \<Rightarrow>
          if wrap64 (ky_version k + 1) \<noteq> version then Inl (storeError ''version_conflict'' 412)
          else if mu_Delete m then
            Inr (s\<lparr>st_api_keys := AList.update (pr_TenantID p, mu_ID m)
              (k\<lparr>ky_version := version, ky_revoked := True\<rparr>) (st_api_keys s)\<rparr>)
          else bindR (decodeKeyData (keyDocument data)) (\<lambda>kd.
            if \<not> issuerAllowsKey p kd then Inl (storeError ''forbidden'' 403)
            else Inr (s\<lparr>st_api_keys := AList.update (pr_TenantID p, mu_ID m)
              (k\<lparr>ky_version := version, ky_data := Some kd\<rparr>) (st_api_keys s)\<rparr>)))"

section \<open>The token format\<close>

lemma length_b64encode: "length (b64encode s) = (4 * length s + 2) div 3"
  by (induction s rule: b64encode.induct) simp_all

lemma decodeCoordinate_b64encode [simp]: "validKeyCoordinate v \<Longrightarrow> decodeCoordinate (b64encode v) = Some v"
  by (simp add: decodeCoordinate_def)

lemma b64encode_no_dot: "CHR ''.'' \<notin> set (b64encode s)"
  using b64encode_plain [of "CHR ''.''" s] by auto

lemma keyToken_length:
  assumes "length tenant \<le> 512" "length rid \<le> 512" "length secret = 32"
  shows "length (keyToken tenant rid secret) \<le> 1500"
proof -
  have "(4 * length tenant + 2) div 3 \<le> 683" "(4 * length rid + 2) div 3 \<le> 683"
    using assms by (auto intro!: div_le_mono [where n = 2050 and k = 3, simplified])
  then show ?thesis using assms by (simp add: keyToken_def length_b64encode)
qed

lemma splitN_token:
  "splitN (CHR ''_'') 3 (''hg_'' @ w @ ''_'' @ e) =
     (if CHR ''_'' \<in> set w then
        [''hg'', takeWhile (\<lambda>c. c \<noteq> CHR ''_'') w, tl (dropWhile (\<lambda>c. c \<noteq> CHR ''_'') w) @ ''_'' @ e]
      else [''hg'', w, e])"
proof (cases "CHR ''_'' \<in> set w")
  case True
  then obtain a b where w: "w = a @ CHR ''_'' # b" "CHR ''_'' \<notin> set a" by (meson split_list_first)
  then have "takeWhile (\<lambda>c. c \<noteq> CHR ''_'') w = a" "dropWhile (\<lambda>c. c \<noteq> CHR ''_'') w = CHR ''_'' # b"
    by (auto simp: takeWhile_append dropWhile_append)
  with w splitN_three [of "CHR ''_''" "''hg''" a "b @ ''_'' @ e"] show ?thesis by (simp add: numeral_3_eq_3)
next
  case False
  with splitN_three [of "CHR ''_''" "''hg''" w e] show ?thesis by (simp add: numeral_3_eq_3)
qed

lemma parse_spoiled:
  assumes "CHR ''_'' \<in> set (b64encode tenant @ b64encode rid)" and "length secret = 32"
  shows "parseKeyToken (keyToken tenant rid secret) = None"
proof -
  define w where "w = b64encode tenant @ ''.'' @ b64encode rid"
  define rest where "rest = tl (dropWhile (\<lambda>c. c \<noteq> CHR ''_'') w) @ ''_'' @ b64encode secret"
  have "CHR ''_'' \<in> set w" using assms(1) by (auto simp: w_def)
  then have split: "splitN (CHR ''_'') 3 (keyToken tenant rid secret) = [''hg'', takeWhile (\<lambda>c. c \<noteq> CHR ''_'') w, rest]"
    unfolding keyToken_def w_def [symmetric] splitN_token rest_def by simp
  have "b64encode x \<noteq> rest" if "length x = 32" for x
  proof
    assume "b64encode x = rest"
    then have "length (b64encode x) = length rest" by simp
    with that assms(2) show False by (simp add: length_b64encode rest_def)
  qed
  then show ?thesis unfolding parseKeyToken_def split
    by (auto split: list.splits option.splits)
qed

lemma parse_keyToken:
  assumes "CHR ''_'' \<notin> set (b64encode tenant @ b64encode rid)" and "length secret = 32"
    and "validKeyCoordinate tenant" "validKeyCoordinate rid"
  shows "parseKeyToken (keyToken tenant rid secret) = Some (tenant, rid)"
proof -
  have split: "splitN (CHR ''_'') 3 (keyToken tenant rid secret)
      = [''hg'', b64encode tenant @ CHR ''.'' # b64encode rid, b64encode secret]"
    unfolding keyToken_def splitN_token using assms(1) by simp
  have "length (keyToken tenant rid secret) \<le> 1500"
    using assms by (intro keyToken_length) (simp_all add: validKeyCoordinate_def)
  then show ?thesis
    unfolding parseKeyToken_def split
    by (simp add: splitByte_two b64encode_no_dot assms)
qed

text \<open>
  C27: A freshly made token parses back to its tenant and key exactly when the base64url form of
  neither contains the underscore that also separates the parts of the token; otherwise it never
  parses.
\<close>

theorem token_roundtrip:
  assumes "newKeyToken digest (Inr secret) tenant rid = Inr (token, verifier)" and "length secret = 32"
  shows "verifier = digest token \<and> parseKeyToken token =
     (if CHR ''_'' \<in> set (b64encode tenant @ b64encode rid) then None else Some (tenant, rid))"
  using assms parse_spoiled [of tenant rid secret] parse_keyToken [of tenant rid secret]
  by (auto simp: newKeyToken_def Let_def)

text \<open>The 32 zero bytes stand for the random secret of the examples.\<close>

definition zeroSecret :: string where
  "zeroSecret = replicate 32 (char_of (0::nat))"

lemma validKeyCoordinate_examples:
  "validKeyCoordinate ''acme''" "validKeyCoordinate ''k1''" "validKeyCoordinate ''ab?''"
  by (simp_all add: validKeyCoordinate_def str_eval nul_def)

theorem token_roundtrip_witness:
  "parseKeyToken (keyToken ''acme'' ''k1'' zeroSecret) = Some (''acme'', ''k1'')
   \<and> parseKeyToken (keyToken ''acme'' ''ab?'' zeroSecret) = None"
proof -
  have enc: "b64encode ''acme'' = ''YWNtZQ''" "b64encode ''k1'' = ''azE''" "b64encode ''ab?'' = ''YWI_''"
    by (simp_all add: sextetChar_def str_eval)
  have len: "length zeroSecret = 32" by (simp add: zeroSecret_def)
  have t: "newKeyToken (\<lambda>_. '''') (Inr zeroSecret) ''acme'' i = Inr (keyToken ''acme'' i zeroSecret, '''')"
    if "validKeyCoordinate i" for i
    using that validKeyCoordinate_examples by (simp add: newKeyToken_def)
  show ?thesis
    using token_roundtrip [OF t len, of "''k1''"] token_roundtrip [OF t len, of "''ab?''"] validKeyCoordinate_examples
    by (simp add: enc del: b64encode.simps)
qed

section \<open>Authentication\<close>

lemma orUnauthorized_Inr [simp]: "orUnauthorized x = Inr v \<longleftrightarrow> x = Some v"
  by (simp add: orUnauthorized_def split: option.splits)

text \<open>The conditions under which a key resolves, and the principal it resolves to.\<close>

definition keyActive :: "string \<Rightarrow> string \<Rightarrow> int64 \<Rightarrow> keyData \<Rightarrow> Store \<Rightarrow> bool" where
  "keyActive tenant rid version kd s \<longleftrightarrow>
     tenant \<noteq> '''' \<and> rid \<noteq> '''' \<and> 0 < version
     \<and> (\<exists>t. map_of (st_tenants s) tenant = Some (Some t) \<and> td_Enabled t)
     \<and> (\<exists>k. map_of (st_api_keys s) (tenant, rid) = Some k \<and> \<not> ky_revoked k \<and> ky_version k = version)
     \<and> (\<exists>r. map_of (st_resources s) (tenant, ''api_keys'', rid) = Some r \<and> rs_version r = version
          \<and> decodeKeyData (keyDocument (rs_data r)) = Inr kd)"

lemma resolveActiveKeyTx_iff:
  "resolveActiveKeyTx tenant rid version s = Inr p \<longleftrightarrow>
     (\<exists>kd. keyActive tenant rid version kd s \<and> p = principalForKey tenant rid version kd)"
  unfolding resolveActiveKeyTx_def keyActive_def
  by (auto simp: bindR_Inr split: sum.splits)

lemma resolveMembershipTx_tenant:
  "resolveMembershipTx tenant subject s = Inr p \<Longrightarrow>
     tenant \<noteq> '''' \<and> pr_TenantID p = tenant \<and> (\<exists>t. map_of (st_tenants s) tenant = Some (Some t) \<and> td_Enabled t)"
  unfolding resolveMembershipTx_def by (auto split: option.splits prod.splits if_splits)

lemma resolvePrincipalTx_tenant:
  "resolvePrincipalTx p s = Inr c \<Longrightarrow>
     pr_TenantID p \<noteq> '''' \<and> pr_TenantID c = pr_TenantID p
     \<and> (\<exists>t. map_of (st_tenants s) (pr_TenantID p) = Some (Some t) \<and> td_Enabled t)"
  unfolding resolvePrincipalTx_def
  by (auto simp: bindR_Inr resolveActiveKeyTx_iff keyActive_def principalForKey_def
      dest: resolveMembershipTx_tenant split: if_splits)

lemma authenticateTx_iff:
  "authenticateTx present tenant rid s = Inr (p, s') \<longleftrightarrow>
     s' = s \<and> (\<exists>k kd. map_of (st_api_keys s) (tenant, rid) = Some k \<and> ky_verifier k = present
       \<and> keyActive tenant rid (ky_version k) kd s \<and> p = principalForKey tenant rid (ky_version k) kd)"
  unfolding authenticateTx_def
  by (auto simp: bindR_Inr resolveActiveKeyTx_iff keyActive_def)

lemma AuthenticateKey_Inr:
  assumes "fst (AuthenticateKey env digest token s) = Inr p"
  shows "\<exists>tenant rid k kd. parseKeyToken token = Some (tenant, rid) \<and> map_of (st_api_keys s) (tenant, rid) = Some k
     \<and> ky_verifier k = digest token \<and> keyActive tenant rid (ky_version k) kd s
     \<and> p = principalForKey tenant rid (ky_version k) kd"
proof -
  obtain tenant rid where parse: "parseKeyToken token = Some (tenant, rid)"
    using assms by (auto simp: AuthenticateKey_def split: option.splits)
  then have "fst (withTx env (authenticateTx (digest token) tenant rid) s) = Inr p"
    using assms by (auto simp: AuthenticateKey_def split: prod.splits sum.splits)
  from withTx_Inr [OF this] parse show ?thesis by (auto simp: authenticateTx_iff)
qed

lemma AuthenticateKey_sound:
  assumes "parseKeyToken token = Some (tenant, rid)" and "map_of (st_api_keys s) (tenant, rid) = Some k"
    and "ky_verifier k = digest token" and "keyActive tenant rid (ky_version k) kd s"
  shows "AuthenticateKey sound digest token s = (Inr (principalForKey tenant rid (ky_version k) kd), s)"
proof -
  have "authenticateTx (digest token) tenant rid s = Inr (principalForKey tenant rid (ky_version k) kd, s)"
    using assms by (auto simp: authenticateTx_iff)
  with assms(1) show ?thesis by (simp add: AuthenticateKey_def withTx_sound)
qed

text \<open>What bumping the revision and appending an audit row leave alone.\<close>

lemma bump_audit_frame:
  assumes "bumpRevisionTx s = Inr (u, s1)" and "auditTx aid clock p kind rid action v s1 = Inr (u', s2)"
  shows "st_resources s2 = st_resources s" "st_api_keys s2 = st_api_keys s" "st_tenants s2 = st_tenants s"
    "st_operators s2 = st_operators s" "st_role_bindings s2 = st_role_bindings s"
    "st_identity_subjects s2 = st_identity_subjects s" "st_durable s2 = st_durable s"
    "st_policy_limits s2 = st_policy_limits s" "st_allowances s2 = st_allowances s"
    "st_quota_windows s2 = st_quota_windows s" "st_attempts s2 = st_attempts s"
    "st_usage_ledger s2 = st_usage_ledger s"
  using assms by (auto simp: bumpRevisionTx_def auditTx_def split: option.splits if_splits)

lemma issueTx_okD:
  assumes "issueTx aid clock p rid kd verifier s = Inr (out, s')"
  shows "\<exists>current. resolvePrincipalTx p s = Inr current \<and> authorize current True = Inr () \<and> issuerAllowsKey current kd"
    and "map_of (st_api_keys s) (pr_TenantID p, rid) = None"
    and "st_api_keys s' = AList.update (pr_TenantID p, rid)
       \<lparr>ky_version = 1, ky_verifier = verifier, ky_data = Some kd, ky_revoked = False\<rparr> (st_api_keys s)"
    and "st_resources s' = AList.update (pr_TenantID p, ''api_keys'', rid)
       \<lparr>rs_version = 1, rs_data = KeyRes kd 0\<rparr> (st_resources s)"
    and "st_tenants s' = st_tenants s"
    and "out = \<lparr>kr_ID = rid, kr_TenantID = pr_TenantID p, kr_Version = 1, kr_Data = kd\<rparr>"
    and "validateTenantTx (pr_TenantID p)
       (s\<lparr>st_resources := st_resources s', st_api_keys := st_api_keys s'\<rparr>) = Inr ()"
  using assms unfolding issueTx_def
  by (auto simp: bindR_Inr Let_def bump_audit_frame dest: resolvePrincipalTx_tenant split: if_splits)

text \<open>
  What it means that a key stays within its issuer, in terms of the issuer's role and permissions: the key's role is
  not above the issuer's, and the issuer holds every permission of the key and one for each of
  its aliases, connections and operations. The portable, native-account and realtime flags are not compared.
\<close>

definition holds :: "Principal \<Rightarrow> string \<Rightarrow> bool" where
  "holds p v \<longleftrightarrow> ''*'' \<in> set (pr_Permissions p) \<or> v \<in> set (pr_Permissions p)"

definition roleWithin :: "string \<Rightarrow> string \<Rightarrow> bool" where
  "roleWithin role issuer \<longleftrightarrow>
     role = ''viewer'' \<and> issuer \<in> {''viewer'', ''operator'', ''admin'', ''owner''}
     \<or> role = ''operator'' \<and> issuer \<in> {''operator'', ''admin'', ''owner''}
     \<or> role = ''admin'' \<and> issuer \<in> {''admin'', ''owner''}"

definition withinIssuer :: "Principal \<Rightarrow> keyData \<Rightarrow> bool" where
  "withinIssuer p kd \<longleftrightarrow> roleWithin (kd_Role kd) (pr_Role p)
     \<and> (\<forall>v \<in> set (kd_Permissions kd). holds p v)
     \<and> (\<forall>v \<in> set (kd_Aliases kd). holds p (''alias:'' @ v) \<or> holds p ''aliases:*'')
     \<and> (\<forall>v \<in> set (kd_Connections kd). holds p (''connection:'' @ v) \<or> holds p ''connections:*'')
     \<and> (\<forall>v \<in> set (kd_Operations kd). holds p (''operation:'' @ v) \<or> holds p ''operations:*'')"

lemma issuerAllows_holds: "issuerAllows p v = holds p v"
  by (auto simp: issuerAllows_def holds_def list_ex_iff)

lemma roleWithin_rank: "role \<in> {''viewer'', ''operator'', ''admin''} \<Longrightarrow> rank role \<le> rank issuer \<Longrightarrow> roleWithin role issuer"
  by (auto simp: rank_def roleWithin_def split: if_splits)

lemma issuerAllowsKey_within:
  assumes "issuerAllowsKey p kd" "decodeKeyData data = Inr kd"
  shows "withinIssuer p kd"
proof -
  have "kd_Role kd \<in> {''viewer'', ''operator'', ''admin''}"
    using assms(2) by (auto simp: decodeKeyData_def split: option.splits if_splits)
  moreover have "rank (kd_Role kd) \<le> rank (pr_Role p)" using assms(1) by (auto simp: issuerAllowsKey_def split: if_splits)
  ultimately have "roleWithin (kd_Role kd) (pr_Role p)" by (rule roleWithin_rank)
  moreover have "holds p ''*'' \<Longrightarrow> holds p v" for v by (simp add: holds_def)
  ultimately show ?thesis using assms(1)
    by (auto simp: issuerAllowsKey_def withinIssuer_def issuerAllows_holds list_all_iff split: if_splits)
qed

text \<open>
  C23: A key that is issued authenticates at once: its token, of 32 secret bytes and with a tenant and key whose encodings
  have no underscore, resolves at revision one to a principal with exactly the requested grants; and its role,
  permissions, aliases, connections and operations stay within what the issuer holds at that time.
\<close>

theorem issue_then_authenticate:
  assumes "IssueKey env digest (Inr secret) aid clock p rid data s = (Inr (out, token), s')"
    and "length secret = 32" and "CHR ''_'' \<notin> set (b64encode (pr_TenantID p) @ b64encode rid)"
  shows "\<exists>kd current. data = Some kd \<and> resolvePrincipalTx p s = Inr current \<and> withinIssuer current kd
     \<and> AuthenticateKey sound digest token s' = (Inr (principalForKey (pr_TenantID p) rid 1 kd), s')"
proof -
  from assms(1) obtain kd verifier where dec: "decodeKeyData data = Inr kd" and rid: "rid \<noteq> ''''"
    and tok: "newKeyToken digest (Inr secret) (pr_TenantID p) rid = Inr (token, verifier)"
    and tx: "issueTx aid clock p rid kd verifier s = Inr (out, s')"
    by (auto simp: IssueKey_def split: if_splits sum.splits prod.splits dest!: withTx_okD)
  have data: "data = Some kd" using dec by (auto simp: decodeKeyData_def split: option.splits if_splits)
  obtain current where cur: "resolvePrincipalTx p s = Inr current" "withinIssuer current kd"
    using issueTx_okD(1) [OF tx] issuerAllowsKey_within [OF _ dec] by blast
  have tok': "token = keyToken (pr_TenantID p) rid secret" "verifier = digest token"
    "validKeyCoordinate (pr_TenantID p)" "validKeyCoordinate rid"
    using tok by (auto simp: newKeyToken_def Let_def split: if_splits)
  have "parseKeyToken token = Some (pr_TenantID p, rid)"
    unfolding tok'(1) using assms(2,3) tok'(3,4) by (intro parse_keyToken) auto
  moreover have "keyActive (pr_TenantID p) rid 1 kd s'"
    using resolvePrincipalTx_tenant [OF cur(1)] rid dec data
    by (simp add: keyActive_def issueTx_okD [OF tx])
  ultimately have "AuthenticateKey sound digest token s' = (Inr (principalForKey (pr_TenantID p) rid 1 kd), s')"
    using AuthenticateKey_sound [of token "pr_TenantID p" rid s'
        "\<lparr>ky_version = 1, ky_verifier = verifier, ky_data = Some kd, ky_revoked = False\<rparr>" digest kd]
    by (simp add: issueTx_okD(3) [OF tx] tok'(2))
  with data cur show ?thesis by blast
qed

definition sampleKey :: keyData where
  "sampleKey = \<lparr>kd_Name = ''ci'', kd_Role = ''operator'', kd_Permissions = [''alias:fast''], kd_Aliases = [''fast''],
     kd_Connections = [], kd_Operations = [''generate''], kd_Portable = True, kd_NativeAccount = False,
     kd_Realtime = False\<rparr>"

definition samplePrincipal :: Principal where
  "samplePrincipal = zeroPrincipal\<lparr>pr_TenantID := ''t1'', pr_SubjectID := ''alice'', pr_SessionID := ''s'',
     pr_Permissions := [''*'']\<rparr>"

lemma samplePrincipal_fields: "pr_TenantID samplePrincipal = ''t1''" "pr_SubjectID samplePrincipal = ''alice''"
  by (simp_all add: samplePrincipal_def zeroPrincipal_def)

lemma ownedStore_tables:
  "st_resources ownedStore = []" "st_api_keys ownedStore = []" "st_audit_events ownedStore = []"
  "st_config ownedStore = Some 0" "st_config_revisions ownedStore = Some 0" "st_policy_limits ownedStore = []"
  "st_allowances ownedStore = []" "st_quota_windows ownedStore = []" "st_attempts ownedStore = []"
  unfolding ownedStore_def
  by (simp_all add: bootstrapStore_eval ConsumeBootstrap_def withTx_sound emptyStore_def checkUnclaimed_def
      durableGetAny_def ownerBound_def durablePut_def installOwner_def ownerIdentity_def ownerTables_def
      insertNew_def ensurePrincipal_def durableDelete_def second_def zeroPrincipal_def Let_def
      ErrNoRows_def decodeError_def)

lemma decode_sampleKey: "decodeKeyData (Some sampleKey) = Inr sampleKey"
  by (simp add: decodeKeyData_def sampleKey_def validKeyOperations_def keyOperations_def)

lemma samplePrincipal_resolved:
  "resolvePrincipalTx samplePrincipal ownedStore = Inr (samplePrincipal\<lparr>pr_Role := ''owner''\<rparr>)"
  by (simp add: resolvePrincipalTx_def samplePrincipal_def ownedStore_member zeroPrincipal_def)

lemma validateTenantTx_keys_only:
  assumes "tenant \<noteq> ''''" and "\<And>k r. (k, r) \<in> set (st_resources s) \<Longrightarrow> fst (snd k) = ''api_keys''"
  shows "validateTenantTx tenant s = Inr ()"
proof -
  have "kindRows tenant kind s = []" if "kind \<noteq> ''api_keys''" for kind
    using assms(2) that by (auto simp: kindRows_def filter_empty_conv)
  then show ?thesis using assms(1)
    by (simp add: validateTenantTx_def tenantRows_def check_def decoded_def)
qed

lemma issue_sample:
  "\<exists>out s'. issueTx ''a1'' 0 samplePrincipal ''k1'' sampleKey verifier ownedStore = Inr (out, s')"
proof -
  have "issuerAllowsKey (samplePrincipal\<lparr>pr_Role := ''owner''\<rparr>) sampleKey"
    by (simp add: issuerAllowsKey_def samplePrincipal_def sampleKey_def rank_def issuerAllows_def)
  moreover have "validateTenantTx ''t1'' (ownedStore\<lparr>st_resources := [((''t1'', ''api_keys'', ''k1''), r)], st_api_keys := ks\<rparr>) = Inr ()" for r ks
    by (rule validateTenantTx_keys_only) auto
  ultimately show ?thesis
    unfolding issueTx_def samplePrincipal_resolved
    by (simp add: authorize_def samplePrincipal_fields ownedStore_tables bumpRevisionTx_def auditTx_def Let_def)
qed

lemma sample_coordinates:
  "validKeyCoordinate ''t1''" "CHR ''_'' \<notin> set (b64encode ''t1'' @ b64encode ''k1'')"
  by (simp_all add: validKeyCoordinate_def sextetChar_def str_eval nul_def)

lemma IssueKey_sample:
  "\<exists>out s'. IssueKey sound (\<lambda>t. t) (Inr zeroSecret) ''a1'' 0 samplePrincipal ''k1'' (Some sampleKey) ownedStore
       = (Inr (out, keyToken ''t1'' ''k1'' zeroSecret), s')
     \<and> issueTx ''a1'' 0 samplePrincipal ''k1'' sampleKey (keyToken ''t1'' ''k1'' zeroSecret) ownedStore = Inr (out, s')"
proof -
  let ?token = "keyToken ''t1'' ''k1'' zeroSecret"
  obtain out s' where tx: "issueTx ''a1'' 0 samplePrincipal ''k1'' sampleKey ?token ownedStore = Inr (out, s')"
    using issue_sample by blast
  have plain: "\<not> list_ex (\<lambda>c. byteOf c \<in> {0, 13, 10}) ''k1''" by (simp add: str_eval)
  have tok: "newKeyToken (\<lambda>t. t) (Inr zeroSecret) ''t1'' ''k1'' = Inr (?token, ?token)"
    using sample_coordinates validKeyCoordinate_examples by (simp add: newKeyToken_def Let_def)
  show ?thesis
    unfolding IssueKey_def samplePrincipal_fields tok decode_sampleKey using plain tx by (simp add: withTx_sound)
qed

theorem issue_then_authenticate_witness:
  "\<exists>out s'. IssueKey sound (\<lambda>t. t) (Inr zeroSecret) ''a1'' 0 samplePrincipal ''k1'' (Some sampleKey) ownedStore
       = (Inr (out, keyToken ''t1'' ''k1'' zeroSecret), s')
     \<and> fst (AuthenticateKey sound (\<lambda>t. t) (keyToken ''t1'' ''k1'' zeroSecret) s') = Inr (principalForKey ''t1'' ''k1'' 1 sampleKey)"
proof -
  let ?token = "keyToken ''t1'' ''k1'' zeroSecret"
  obtain out s' where i: "IssueKey sound (\<lambda>t. t) (Inr zeroSecret) ''a1'' 0 samplePrincipal ''k1'' (Some sampleKey) ownedStore
      = (Inr (out, ?token), s')" using IssueKey_sample by blast
  from issue_then_authenticate [OF i, unfolded samplePrincipal_fields, OF _ sample_coordinates(2)]
  have "fst (AuthenticateKey sound (\<lambda>t. t) ?token s') = Inr (principalForKey ''t1'' ''k1'' 1 sampleKey)"
    by (auto simp: zeroSecret_def)
  with i show ?thesis by blast
qed

section \<open>Rotation\<close>

lemma rotateTx_okD:
  assumes "rotateTx aid clock p rid expected verifier s = Inr (out, s')"
  shows "\<exists>k kd r. map_of (st_api_keys s) (pr_TenantID p, rid) = Some k \<and> \<not> ky_revoked k \<and> ky_version k = expected
     \<and> map_of (st_resources s) (pr_TenantID p, ''api_keys'', rid) = Some r \<and> rs_version r = expected
     \<and> decodeKeyData (ky_data k) = Inr kd
     \<and> st_api_keys s' = AList.update (pr_TenantID p, rid)
         (k\<lparr>ky_version := wrap64 (expected + 1), ky_verifier := verifier\<rparr>) (st_api_keys s)
     \<and> st_resources s' = AList.update (pr_TenantID p, ''api_keys'', rid)
         (r\<lparr>rs_version := wrap64 (expected + 1)\<rparr>) (st_resources s)
     \<and> st_tenants s' = st_tenants s
     \<and> out = \<lparr>kr_ID = rid, kr_TenantID = pr_TenantID p, kr_Version = wrap64 (expected + 1), kr_Data = kd\<rparr>"
  using assms unfolding rotateTx_def
  by (auto simp: bindR_Inr Let_def bump_audit_frame dest: resolvePrincipalTx_tenant split: if_splits)

lemma RotateKey_rotated:
  assumes "RotateKey env digest (Inr secret) aid clock p rid expected s = (Inr (out, token), s')"
  obtains k kd r where
    "token = keyToken (pr_TenantID p) rid secret" "validKeyCoordinate (pr_TenantID p)" "validKeyCoordinate rid" "rid \<noteq> ''''" "0 < expected"
    "map_of (st_api_keys s) (pr_TenantID p, rid) = Some k" "\<not> ky_revoked k" "ky_version k = expected"
    "map_of (st_resources s) (pr_TenantID p, ''api_keys'', rid) = Some r" "rs_version r = expected" "decodeKeyData (ky_data k) = Inr kd"
    "st_api_keys s' = AList.update (pr_TenantID p, rid) (k\<lparr>ky_version := wrap64 (expected + 1), ky_verifier := digest token\<rparr>) (st_api_keys s)"
    "st_resources s' = AList.update (pr_TenantID p, ''api_keys'', rid) (r\<lparr>rs_version := wrap64 (expected + 1)\<rparr>) (st_resources s)"
    "st_tenants s' = st_tenants s" "kr_Version out = wrap64 (expected + 1)" "kr_Data out = kd" "\<exists>current. resolvePrincipalTx p s = Inr current"
proof -
  from assms obtain verifier where pos: "rid \<noteq> ''''" "0 < expected"
    and tok: "newKeyToken digest (Inr secret) (pr_TenantID p) rid = Inr (token, verifier)"
    and tx: "rotateTx aid clock p rid expected verifier s = Inr (out, s')"
    by (auto simp: RotateKey_def split: if_splits sum.splits prod.splits dest!: withTx_okD)
  have tok': "token = keyToken (pr_TenantID p) rid secret" "verifier = digest token" "validKeyCoordinate (pr_TenantID p)" "validKeyCoordinate rid"
    using tok by (auto simp: newKeyToken_def Let_def split: if_splits)
  have "\<exists>current. resolvePrincipalTx p s = Inr current" using tx by (auto simp: rotateTx_def bindR_Inr)
  with rotateTx_okD [OF tx] tok' pos that show thesis by auto
qed

text \<open>
  C26: Rotation replaces a key's secret.  After a successful rotation no token with another digest authenticates as
  that key. The revision returned is the next one, short of the largest version; and if moreover the
  secret has 32 bytes, the encodings of tenant and key have no underscore and the key's resource document is the
  one its row was written with, the new token resolves to the key's grants at that revision.
\<close>

theorem rotation_replaces:
  assumes "RotateKey env digest (Inr secret) aid clock p rid expected s = (Inr (out, token), s')"
  shows "(\<forall>old. parseKeyToken old = Some (pr_TenantID p, rid) \<and> digest old \<noteq> digest token
           \<longrightarrow> fst (AuthenticateKey env' digest old s') = Inl unauthorized)
     \<and> (expected < maxInt64 \<longrightarrow> kr_Version out = expected + 1)
     \<and> (\<forall>k r. expected < maxInt64 \<and> length secret = 32 \<and> CHR ''_'' \<notin> set (b64encode (pr_TenantID p) @ b64encode rid)
           \<and> map_of (st_api_keys s) (pr_TenantID p, rid) = Some k
           \<and> map_of (st_resources s) (pr_TenantID p, ''api_keys'', rid) = Some r \<and> keyDocument (rs_data r) = ky_data k
         \<longrightarrow> AuthenticateKey sound digest token s' = (Inr (principalForKey (pr_TenantID p) rid (expected + 1) (kr_Data out)), s'))"
proof -
  let ?t = "pr_TenantID p"
  obtain k kd r where tok: "token = keyToken ?t rid secret" "validKeyCoordinate ?t" "validKeyCoordinate rid" "rid \<noteq> ''''" "0 < expected"
    and s: "map_of (st_api_keys s) (?t, rid) = Some k" "\<not> ky_revoked k" "ky_version k = expected"
      "map_of (st_resources s) (?t, ''api_keys'', rid) = Some r" "rs_version r = expected" "decodeKeyData (ky_data k) = Inr kd"
    and s': "st_api_keys s' = AList.update (?t, rid) (k\<lparr>ky_version := wrap64 (expected + 1), ky_verifier := digest token\<rparr>) (st_api_keys s)"
      "st_resources s' = AList.update (?t, ''api_keys'', rid) (r\<lparr>rs_version := wrap64 (expected + 1)\<rparr>) (st_resources s)"
      "st_tenants s' = st_tenants s" "kr_Version out = wrap64 (expected + 1)" "kr_Data out = kd"
    and current: "\<exists>current. resolvePrincipalTx p s = Inr current"
    by (rule RotateKey_rotated [OF assms])
  have wrap: "wrap64 (expected + 1) = expected + 1" if "expected < maxInt64" using tok(5) that by (intro wrap64_nonneg) auto
  have "fst (AuthenticateKey env' digest old s') = Inl unauthorized"
    if "parseKeyToken old = Some (?t, rid)" "digest old \<noteq> digest token" for old
  proof (cases "fst (AuthenticateKey env' digest old s')")
    case (Inl e)
    then show ?thesis by (auto simp: AuthenticateKey_def split: option.splits prod.splits sum.splits)
  next
    case (Inr q)
    from AuthenticateKey_Inr [OF this] that show ?thesis by (auto simp: s')
  qed
  moreover have "AuthenticateKey sound digest token s' = (Inr (principalForKey ?t rid (expected + 1) kd), s')"
    if "keyDocument (rs_data r) = ky_data k" "expected < maxInt64" "length secret = 32" "CHR ''_'' \<notin> set (b64encode ?t @ b64encode rid)"
  proof -
    have parse: "parseKeyToken token = Some (?t, rid)" unfolding tok(1) using that(3,4) tok(2,3) by (intro parse_keyToken) auto
    have "keyActive ?t rid (expected + 1) kd s'"
      using resolvePrincipalTx_tenant [of p s] current tok(4,5) s that(1) wrap [OF that(2)] by (auto simp: keyActive_def s')
    with AuthenticateKey_sound [OF parse, of s' "k\<lparr>ky_version := expected + 1, ky_verifier := digest token\<rparr>" digest kd]
    show ?thesis by (simp add: s' wrap [OF that(2)])
  qed
  ultimately show ?thesis using s s' wrap by auto
qed

text \<open>A membership depends only on the tables of identities.\<close>

lemma resolveMembershipTx_frame:
  assumes "st_tenants s' = st_tenants s" "st_operators s' = st_operators s" "st_role_bindings s' = st_role_bindings s"
    "st_identity_subjects s' = st_identity_subjects s" "st_durable s' = st_durable s"
  shows "resolveMembershipTx tenant subject s' = resolveMembershipTx tenant subject s"
  unfolding resolveMembershipTx_def identityOk_def durableGetAny_def assms ..

definition issuedStore :: Store where
  "issuedStore = ownedStore\<lparr>
     st_resources := [((''t1'', ''api_keys'', ''k1''), \<lparr>rs_version = 1, rs_data = KeyRes sampleKey 0\<rparr>)],
     st_api_keys := [((''t1'', ''k1''), \<lparr>ky_version = 1, ky_verifier = ''v1'', ky_data = Some sampleKey, ky_revoked = False\<rparr>)]\<rparr>"

lemma issuedStore_resolved:
  "resolvePrincipalTx samplePrincipal issuedStore = Inr (samplePrincipal\<lparr>pr_Role := ''owner''\<rparr>)"
proof -
  have "resolveMembershipTx t u issuedStore = resolveMembershipTx t u ownedStore" for t u
    by (rule resolveMembershipTx_frame) (simp_all add: issuedStore_def)
  then have "resolvePrincipalTx samplePrincipal issuedStore = resolvePrincipalTx samplePrincipal ownedStore"
    by (simp add: resolvePrincipalTx_def samplePrincipal_def zeroPrincipal_def)
  then show ?thesis by (simp add: samplePrincipal_resolved)
qed

lemma rotate_sample:
  "\<exists>out s'. rotateTx ''a1'' 0 samplePrincipal ''k1'' 1 verifier issuedStore = Inr (out, s')"
proof -
  have "issuerAllowsKey (samplePrincipal\<lparr>pr_Role := ''owner''\<rparr>) sampleKey"
    by (simp add: issuerAllowsKey_def samplePrincipal_def sampleKey_def rank_def issuerAllows_def)
  then show ?thesis
    unfolding rotateTx_def issuedStore_resolved
    by (simp add: issuedStore_def authorize_def samplePrincipal_fields ownedStore_tables bumpRevisionTx_def
        auditTx_def Let_def decode_sampleKey)
qed

theorem rotation_replaces_witness:
  "\<exists>out s'. RotateKey sound (\<lambda>t. t) (Inr zeroSecret) ''a1'' 0 samplePrincipal ''k1'' 1 issuedStore
       = (Inr (out, keyToken ''t1'' ''k1'' zeroSecret), s')
     \<and> fst (AuthenticateKey sound (\<lambda>t. t) (keyToken ''t1'' ''k1'' (replicate 32 (CHR ''a''))) s') = Inl unauthorized
     \<and> isOk (fst (AuthenticateKey sound (\<lambda>t. t) (keyToken ''t1'' ''k1'' zeroSecret) s'))"
proof -
  let ?token = "keyToken ''t1'' ''k1'' zeroSecret" and ?old = "keyToken ''t1'' ''k1'' (replicate 32 (CHR ''a''))"
  obtain out s' where tx: "rotateTx ''a1'' 0 samplePrincipal ''k1'' 1 ?token issuedStore = Inr (out, s')"
    using rotate_sample by blast
  have "newKeyToken (\<lambda>t. t) (Inr zeroSecret) ''t1'' ''k1'' = Inr (?token, ?token)"
    using sample_coordinates(1) validKeyCoordinate_examples by (simp add: newKeyToken_def Let_def)
  then have r: "RotateKey sound (\<lambda>t. t) (Inr zeroSecret) ''a1'' 0 samplePrincipal ''k1'' 1 issuedStore = (Inr (out, ?token), s')"
    using tx by (simp add: RotateKey_def samplePrincipal_fields withTx_sound)
  have old: "parseKeyToken ?old = Some (''t1'', ''k1'')"
    using sample_coordinates validKeyCoordinate_examples by (intro parse_keyToken) simp_all
  have "zeroSecret \<noteq> replicate 32 (CHR ''a'')" by (simp add: zeroSecret_def replicate_eq_replicate char_of_def)
  then have differ: "?old \<noteq> ?token" by (simp add: keyToken_def)
  have same: "map_of (st_api_keys issuedStore) (''t1'', ''k1'') = Some k \<Longrightarrow>
      map_of (st_resources issuedStore) (''t1'', ''api_keys'', ''k1'') = Some r \<Longrightarrow> keyDocument (rs_data r) = ky_data k" for k r
    by (auto simp: issuedStore_def)
  have "\<exists>k r. map_of (st_api_keys issuedStore) (''t1'', ''k1'') = Some k
      \<and> map_of (st_resources issuedStore) (''t1'', ''api_keys'', ''k1'') = Some r"
    by (simp add: issuedStore_def)
  with rotation_replaces [OF r, unfolded samplePrincipal_fields, of sound] sample_coordinates(2) old differ same
  have "fst (AuthenticateKey sound (\<lambda>t. t) ?old s') = Inl unauthorized"
    "isOk (fst (AuthenticateKey sound (\<lambda>t. t) ?token s'))"
    by (auto simp: zeroSecret_def maxInt64_def)
  with r show ?thesis by blast
qed

end
