(* ===== verification/Resources.thy ===== *)
theory Resources
  imports Keys Windows
begin

text \<open>
  Mutation of a tenant's resources: \<open>Mutate\<close> and \<open>Get\<close> of \<open>store/resources.go\<close> for every kind that is
  not a tenancy kind, and \<open>syncPolicyLimit\<close> of \<open>store/policy_sync.go\<close>, which keeps the enforced limit
  rows in step with the \<open>policy_limits\<close> resources.  The database clock is the argument \<open>now\<close>.
  Stored documents decode, as every write checks, so the raw comparison of \<open>preserveIdentity\<close>
  is the comparison of the decoded identity fields.
\<close>

section \<open>Enforced limits\<close>

definition limitDims :: "PolicyLimitData \<Rightarrow> (string \<times> int64 \<times> string) list" where
  "limitDims x =
     [(''requests'', pd_RequestsPerMinute x, ''60''), (''tokens'', pd_TokensPerMinute x, ''60''),
      (''concurrency'', pd_Concurrency x, ''total''), (''jobs'', pd_OutstandingJobs x, ''total''),
      (''cost'', pd_MaxCost x, if pd_CostWindow x = '''' then ''total'' else pd_CostWindow x)]"

definition limitWindow :: "int64 \<Rightarrow> string \<Rightarrow> string" where
  "limitWindow now window = (if window = ''total'' then ''total'' else currentWindowID now window)"

definition installDim :: "int64 \<Rightarrow> string \<Rightarrow> PolicyLimitData \<Rightarrow> string \<times> int64 \<times> string \<Rightarrow> Store \<Rightarrow> Store" where
  "installDim now tenant x d s =
     (case d of (kind, maximum, window) \<Rightarrow>
        if maximum \<le> 0 then s
        else
          let wid = limitWindow now window;
              key = (tenant, pd_Scope x, pd_ScopeID x, wid, kind);
              reserve = (if kind = ''cost'' then maximum else 1);
              version = (case map_of (st_policy_limits s) key of None \<Rightarrow> 1 | Some r \<Rightarrow> lm_version r + 1)
          in s\<lparr>st_quota_windows :=
                 (if window \<noteq> ''total'' then
                    AList.update (tenant, wid) \<lparr>qw_starts = fst (windowBounds now window),
                      qw_ends = snd (windowBounds now window)\<rparr> (st_quota_windows s)
                  else st_quota_windows s),
               st_policy_limits := AList.update key
                 \<lparr>lm_maximum = maximum, lm_reserve = reserve, lm_version = version\<rparr> (st_policy_limits s),
               st_allowances := insertNew key \<lparr>aw_reserved = 0, aw_version = 1\<rparr> (st_allowances s)\<rparr>)"

definition deleteScope :: "string \<Rightarrow> string \<Rightarrow> string \<Rightarrow> Store \<Rightarrow> Store" where
  "deleteScope tenant scope scopeID s =
     s\<lparr>st_policy_limits := filter (\<lambda>((t, k, i, w, kd), r). \<not> (t = tenant \<and> k = scope \<and> i = scopeID)) (st_policy_limits s)\<rparr>"

definition storedLimit :: "string \<Rightarrow> string \<Rightarrow> Store \<Rightarrow> PolicyLimitData option" where
  "storedLimit tenant rid s =
     Option.bind (map_of (st_resources s) (tenant, ''policy_limits'', rid)) (\<lambda>r. asPolicyLimit (rs_data r))"

definition syncPolicyLimit :: "int64 \<Rightarrow> Principal \<Rightarrow> Mutation \<Rightarrow> Store \<Rightarrow> Store res" where
  "syncPolicyLimit now p m s =
     (if mu_Kind m \<noteq> ''policy_limits'' then Inr s
      else
        let tenant = pr_TenantID p;
            s1 = (case storedLimit tenant (mu_ID m) s of
                    None \<Rightarrow> s
                  | Some old \<Rightarrow> if pd_Scope old \<noteq> '''' then deleteScope tenant (pd_Scope old) (pd_ScopeID old) s else s)
        in if mu_Delete m then Inr s1
           else case asPolicyLimit (mu_Data m) of
             None \<Rightarrow> Inl (GoErr ''json: cannot unmarshal policy limit'')
           | Some x \<Rightarrow>
               if pd_Scope x = '''' \<or> pd_ScopeID x = '''' then Inl (GoErr ''policy scope is required'')
               else Inr (fold (installDim now tenant x) (limitDims x) s1))"

section \<open>Mutation\<close>

definition knownKind :: "string \<Rightarrow> bool" where
  "knownKind k =
     (k \<in> {''tenants'', ''operators'', ''role_bindings'', ''connections'', ''models'', ''model_aliases'',
        ''route_policies'', ''policy_limits'', ''api_keys'', ''account_pools'', ''prices''})"

definition preserveIdentity :: "string \<Rightarrow> resourceData \<Rightarrow> resourceData \<Rightarrow> unit res" where
  "preserveIdentity kind old new =
     (let same = (if kind = ''accounts'' then
                    map_option (\<lambda>x. (ac_Provider x, ac_Connector x)) (asAccount old)
                      = map_option (\<lambda>x. (ac_Provider x, ac_Connector x)) (asAccount new)
                  else map_option cd_AccountID (asConnection old) = map_option cd_AccountID (asConnection new))
      in if same then Inr () else Inl (storeError ''immutable_identity'' 409))"

record Resource =
  re_ID :: string
  re_TenantID :: string
  re_Kind :: string
  re_Version :: int64
  re_Data :: "resourceData option"

definition writeResource :: "string \<Rightarrow> Mutation \<Rightarrow> resourceData \<Rightarrow> int64 \<Rightarrow> Store \<Rightarrow> Store" where
  "writeResource tenant m data version s =
     (if mu_Delete m then s\<lparr>st_resources := AList.delete (tenant, mu_Kind m, mu_ID m) (st_resources s)\<rparr>
      else s\<lparr>st_resources := AList.update (tenant, mu_Kind m, mu_ID m)
               \<lparr>rs_version = version + 1, rs_data = data\<rparr> (st_resources s)\<rparr>)"

definition versionGuard :: "Mutation \<Rightarrow> resourceRow option \<Rightarrow> int64 res" where
  "versionGuard m row =
     (let version = (case row of None \<Rightarrow> 0 | Some r \<Rightarrow> rs_version r) in
      if (row = None \<and> (mu_ExpectedVersion m \<noteq> 0 \<or> mu_Delete m))
         \<or> (row \<noteq> None \<and> (mu_ExpectedVersion m \<le> 0 \<or> mu_ExpectedVersion m \<noteq> version)) then
        Inl (storeError ''version_conflict'' 412)
      else if version = maxInt64 then Inl (storeError ''version_exhausted'' 409)
      else Inr version)"

definition identityGuard :: "Mutation \<Rightarrow> resourceRow option \<Rightarrow> resourceData \<Rightarrow> unit res" where
  "identityGuard m row data =
     (case row of
        Some r \<Rightarrow> if \<not> mu_Delete m \<and> (mu_Kind m = ''connections'' \<or> mu_Kind m = ''accounts'')
                   then preserveIdentity (mu_Kind m) (rs_data r) data else Inr ()
      | None \<Rightarrow> Inr ())"

definition mutateTx :: "string \<Rightarrow> int64 \<Rightarrow> int64 \<Rightarrow> Principal \<Rightarrow> Mutation \<Rightarrow> resourceData \<Rightarrow> Resource txn" where
  "mutateTx aid clock now p m data s =
     bindR (resolveMembershipTx (pr_TenantID p) (pr_SubjectID p) s) (\<lambda>current.
     bindR (authorize current True) (\<lambda>_.
     bindR (versionGuard m (map_of (st_resources s) (pr_TenantID current, mu_Kind m, mu_ID m))) (\<lambda>version.
     bindR (identityGuard m (map_of (st_resources s) (pr_TenantID current, mu_Kind m, mu_ID m)) data) (\<lambda>_.
     bindR (if mu_Kind m = ''api_keys'' then syncKeyMetadataTx current m data (version + 1) s else Inr s) (\<lambda>s1.
     bindR (syncPolicyLimit now current m s1) (\<lambda>s2.
     bindR (validateTenantTx (pr_TenantID current) (writeResource (pr_TenantID current) m data version s2)) (\<lambda>_.
     bindR (bumpRevisionTx (writeResource (pr_TenantID current) m data version s2)) (\<lambda>(_, s4).
     bindR (auditTx aid clock current (mu_Kind m) (mu_ID m) (if mu_Delete m then ''delete'' else ''upsert'')
              (version + 1) s4) (\<lambda>(_, s5).
     Inr (\<lparr>re_ID = mu_ID m, re_TenantID = pr_TenantID current, re_Kind = mu_Kind m, re_Version = version + 1,
           re_Data = (if mu_Delete m then None else Some data)\<rparr>, s5))))))))))"

definition authorizeTx :: "Principal \<Rightarrow> Principal txn" where
  "authorizeTx p s =
     bindR (resolveMembershipTx (pr_TenantID p) (pr_SubjectID p) s) (\<lambda>current.
     bindR (authorize current True) (\<lambda>_. Inr (current, s)))"

text \<open>\<open>Mutate\<close> after the dispatch on the tenancy kinds: a first transaction authorizes, a second one writes.\<close>

definition Mutate :: "txEnv \<Rightarrow> netEnv \<Rightarrow> string \<Rightarrow> int64 \<Rightarrow> int64 \<Rightarrow> Principal \<Rightarrow> Mutation \<Rightarrow> Store \<Rightarrow> Resource res \<times> Store" where
  "Mutate env ne aid clock now p m s =
     (if \<not> knownKind (mu_Kind m) \<or> \<not> validRef (mu_ID m) then (Inl (storeError ''invalid_resource'' 400), s)
      else case withTx env (authorizeTx p) s of
        (Inl e, s') \<Rightarrow> (Inl e, s')
      | (Inr current, s') \<Rightarrow>
          (case (if mu_Delete m then Inr OtherRes else validateResource ne (mu_Kind m) (mu_Data m)) of
             Inl e \<Rightarrow> (Inl e, s')
           | Inr data \<Rightarrow> withTx env (mutateTx aid clock now current m data) s'))"

definition getTx :: "Principal \<Rightarrow> string \<Rightarrow> string \<Rightarrow> Resource txn" where
  "getTx p kind rid s =
     bindR (resolvePrincipalTx p s) (\<lambda>current.
     bindR (authorize current False) (\<lambda>_.
     case map_of (st_resources s) (pr_TenantID current, kind, rid) of
       None \<Rightarrow> Inl (storeError ''not_found'' 404)
     | Some r \<Rightarrow> Inr (\<lparr>re_ID = rid, re_TenantID = pr_TenantID current, re_Kind = kind, re_Version = rs_version r,
                       re_Data = Some (rs_data r)\<rparr>, s)))"

definition Get :: "txEnv \<Rightarrow> Principal \<Rightarrow> string \<Rightarrow> string \<Rightarrow> Store \<Rightarrow> Resource res \<times> Store" where
  "Get env p kind rid s =
     (if \<not> knownKind kind then (Inl (storeError ''invalid_kind'' 400), s) else withTx env (getTx p kind rid) s)"

section \<open>What a mutation leaves alone\<close>

lemma installDim_frame:
  "st_resources (installDim now t x d s) = st_resources s" "st_api_keys (installDim now t x d s) = st_api_keys s"
  "st_tenants (installDim now t x d s) = st_tenants s" "st_attempts (installDim now t x d s) = st_attempts s"
  by (auto simp: installDim_def Let_def split: prod.splits)

lemma fold_installDim_frame:
  "st_resources (fold (installDim now t x) ds s) = st_resources s"
  "st_api_keys (fold (installDim now t x) ds s) = st_api_keys s"
  "st_tenants (fold (installDim now t x) ds s) = st_tenants s"
  "st_attempts (fold (installDim now t x) ds s) = st_attempts s"
  by (induction ds arbitrary: s) (simp_all add: installDim_frame)

lemma syncPolicyLimit_frame:
  assumes "syncPolicyLimit now p m s = Inr s'"
  shows "st_resources s' = st_resources s" "st_api_keys s' = st_api_keys s" "st_tenants s' = st_tenants s"
    "st_attempts s' = st_attempts s"
  using assms
  by (auto simp: syncPolicyLimit_def Let_def fold_installDim_frame deleteScope_def split: if_splits option.splits)

lemma resolveMembershipTx_fields:
  "resolveMembershipTx t u s = Inr c \<Longrightarrow> pr_TenantID c = t \<and> pr_SubjectID c = u"
  unfolding resolveMembershipTx_def by (auto split: option.splits prod.splits if_splits)

lemma versionGuard_Inr:
  "versionGuard m row = Inr version \<longleftrightarrow>
     version = (case row of None \<Rightarrow> 0 | Some r \<Rightarrow> rs_version r) \<and> mu_ExpectedVersion m = version
     \<and> version \<noteq> maxInt64 \<and> (if row = None then \<not> mu_Delete m else 0 < version)"
  by (cases row) (auto simp: versionGuard_def Let_def)

text \<open>The effect of a mutation on the resource and key tables.\<close>

lemma mutateTx_okD:
  assumes "mutateTx aid clock now p m data s = Inr (out, s')"
  obtains current version s1 s3 where
    "resolveMembershipTx (pr_TenantID p) (pr_SubjectID p) s = Inr current" "authorize current True = Inr ()"
    "pr_TenantID current = pr_TenantID p"
    "versionGuard m (map_of (st_resources s) (pr_TenantID p, mu_Kind m, mu_ID m)) = Inr version"
    "(if mu_Kind m = ''api_keys'' then syncKeyMetadataTx current m data (version + 1) s else Inr s) = Inr s1"
    "st_api_keys s' = st_api_keys s1"
    "st_resources s' = (if mu_Delete m then AList.delete (pr_TenantID p, mu_Kind m, mu_ID m) (st_resources s1)
       else AList.update (pr_TenantID p, mu_Kind m, mu_ID m) \<lparr>rs_version = version + 1, rs_data = data\<rparr> (st_resources s1))"
    "st_tenants s' = st_tenants s1"
    "st_resources s3 = st_resources s'" "st_api_keys s3 = st_api_keys s'" "validateTenantTx (pr_TenantID p) s3 = Inr ()"
    "re_Version out = version + 1"
proof -
  from assms obtain current version s1 s2 s4 where
    1: "resolveMembershipTx (pr_TenantID p) (pr_SubjectID p) s = Inr current" "authorize current True = Inr ()"
    and 2: "versionGuard m (map_of (st_resources s) (pr_TenantID current, mu_Kind m, mu_ID m)) = Inr version"
    and 3: "(if mu_Kind m = ''api_keys'' then syncKeyMetadataTx current m data (version + 1) s else Inr s) = Inr s1"
    and 4: "syncPolicyLimit now current m s1 = Inr s2"
    and 5: "validateTenantTx (pr_TenantID current) (writeResource (pr_TenantID current) m data version s2) = Inr ()"
      "bumpRevisionTx (writeResource (pr_TenantID current) m data version s2) = Inr ((), s4)"
      "auditTx aid clock current (mu_Kind m) (mu_ID m) (if mu_Delete m then ''delete'' else ''upsert'') (version + 1) s4 = Inr ((), s')"
    and 6: "re_Version out = version + 1"
    unfolding mutateTx_def bindR_pair_Inr bindR_Inr by (auto simp: bindR_Inr split del: if_split)
  have t: "pr_TenantID current = pr_TenantID p" using resolveMembershipTx_fields [OF 1(1)] by simp
  note f = bump_audit_frame [OF 5(2,3)] syncPolicyLimit_frame [OF 4]
  show thesis
  proof (rule that [OF 1 t 2 [unfolded t] 3])
    show "st_api_keys s' = st_api_keys s1" "st_tenants s' = st_tenants s1"
      "st_resources s' = (if mu_Delete m then AList.delete (pr_TenantID p, mu_Kind m, mu_ID m) (st_resources s1)
       else AList.update (pr_TenantID p, mu_Kind m, mu_ID m) \<lparr>rs_version = version + 1, rs_data = data\<rparr> (st_resources s1))"
      by (simp_all add: f t writeResource_def)
    show "validateTenantTx (pr_TenantID p) (writeResource (pr_TenantID p) m data version s2) = Inr ()"
      using 5(1) t by simp
  qed (use 6 f t in simp_all)
qed

lemma syncKeyMetadataTx_okD:
  assumes "syncKeyMetadataTx p m data version s = Inr s'"
  obtains k k' where "map_of (st_api_keys s) (pr_TenantID p, mu_ID m) = Some k" "1 < version"
    "st_api_keys s' = AList.update (pr_TenantID p, mu_ID m) k' (st_api_keys s)"
    "ky_version k' = version" "ky_revoked k' \<longleftrightarrow> ky_revoked k \<or> mu_Delete m"
    "\<not> mu_Delete m \<longrightarrow> (\<exists>kd. decodeKeyData (keyDocument data) = Inr kd \<and> ky_data k' = Some kd \<and> issuerAllowsKey p kd)"
    "st_resources s' = st_resources s" "st_tenants s' = st_tenants s"
proof -
  from assms obtain k where k: "map_of (st_api_keys s) (pr_TenantID p, mu_ID m) = Some k" "1 < version"
    by (auto simp: syncKeyMetadataTx_def split: if_splits)
  show thesis
  proof (cases "mu_Delete m")
    case True
    with assms k show thesis by (intro that [of k "k\<lparr>ky_version := version, ky_revoked := True\<rparr>"])
      (auto simp: syncKeyMetadataTx_def split: if_splits)
  next
    case False
    with assms k obtain kd where "decodeKeyData (keyDocument data) = Inr kd" "issuerAllowsKey p kd"
      "s' = s\<lparr>st_api_keys := AList.update (pr_TenantID p, mu_ID m) (k\<lparr>ky_version := version, ky_data := Some kd\<rparr>) (st_api_keys s)\<rparr>"
      by (auto simp: syncKeyMetadataTx_def bindR_Inr split: if_splits)
    with False k show thesis by (intro that [of k "k\<lparr>ky_version := version, ky_data := Some kd\<rparr>"]) auto
  qed
qed

section \<open>The life of a key\<close>

inductive key_step :: "Store \<Rightarrow> Store \<Rightarrow> bool" where
  issue: "key_step s (snd (IssueKey env digest rnd aid clock p rid data s))"
| rotate: "key_step s (snd (RotateKey env digest rnd aid clock p rid expected s))"
| mutate: "key_step s (snd (Mutate env ne aid clock now p m s))"

text \<open>What one step can do to the key and resource tables.\<close>

lemma IssueKey_effect:
  "snd (IssueKey env digest rnd aid clock p rid data s) = s
   \<or> (\<exists>kd v out s'. issueTx aid clock p rid kd v s = Inr (out, s') \<and> decodeKeyData data = Inr kd
        \<and> snd (IssueKey env digest rnd aid clock p rid data s) = s')"
proof (cases "decodeKeyData data")
  case (Inr kd)
  then show ?thesis
  proof (cases "newKeyToken digest rnd (pr_TenantID p) rid")
    case (Inr tv)
    then show ?thesis
      using \<open>decodeKeyData data = Inr kd\<close> withTx_cases [of env "issueTx aid clock p rid kd (snd tv)" s]
      by (cases tv) (auto simp: IssueKey_def)
  qed (simp add: IssueKey_def)
qed (simp add: IssueKey_def)

lemma RotateKey_effect:
  "snd (RotateKey env digest rnd aid clock p rid expected s) = s
   \<or> (\<exists>v out s'. rotateTx aid clock p rid expected v s = Inr (out, s')
        \<and> snd (RotateKey env digest rnd aid clock p rid expected s) = s')"
proof (cases "newKeyToken digest rnd (pr_TenantID p) rid")
  case (Inr tv)
  then show ?thesis
    using withTx_cases [of env "rotateTx aid clock p rid expected (snd tv)" s]
    by (cases tv) (auto simp: RotateKey_def)
qed (simp add: RotateKey_def)

lemma Mutate_effect:
  "snd (Mutate env ne aid clock now p m s) = s
   \<or> (\<exists>current data out s'. mutateTx aid clock now current m data s = Inr (out, s')
        \<and> (mu_Delete m \<or> validateResource ne (mu_Kind m) (mu_Data m) = Inr data)
        \<and> snd (Mutate env ne aid clock now p m s) = s')"
proof -
  have auth: "(\<exists>e. withTx env (authorizeTx p) s = (Inl e, s)) \<or> (\<exists>c. withTx env (authorizeTx p) s = (Inr c, s))"
    using withTx_cases [of env "authorizeTx p" s] by (auto simp: authorizeTx_def bindR_Inr)
  show ?thesis
  proof (cases "if mu_Delete m then Inr OtherRes else validateResource ne (mu_Kind m) (mu_Data m)")
    case (Inl e)
    with auth show ?thesis by (auto simp: Mutate_def)
  next
    case (Inr data)
    with auth show ?thesis
    proof (elim disjE exE)
      fix c assume c: "withTx env (authorizeTx p) s = (Inr c, s)"
      show ?thesis
        using withTx_cases [of env "mutateTx aid clock now c m data" s] Inr c
        by (auto simp: Mutate_def split: if_splits)
    qed (auto simp: Mutate_def)
  qed
qed

definition keysCoupled :: "Store \<Rightarrow> bool" where
  "keysCoupled s \<longleftrightarrow>
     (\<forall>t i k. map_of (st_api_keys s) (t, i) = Some k \<and> \<not> ky_revoked k \<longrightarrow>
        (\<exists>r. map_of (st_resources s) (t, ''api_keys'', i) = Some r \<and> rs_version r = ky_version k
           \<and> keyDocument (rs_data r) = ky_data k \<and> isOk (decodeKeyData (ky_data k))))"

lemma keysCoupledD:
  "keysCoupled s \<Longrightarrow> map_of (st_api_keys s) (t, i) = Some k \<Longrightarrow> \<not> ky_revoked k \<Longrightarrow>
     \<exists>r. map_of (st_resources s) (t, ''api_keys'', i) = Some r \<and> rs_version r = ky_version k
       \<and> keyDocument (rs_data r) = ky_data k \<and> isOk (decodeKeyData (ky_data k))"
  by (auto simp: keysCoupled_def)

lemma decodeKeyData_Inr: "decodeKeyData data = Inr kd \<Longrightarrow> data = Some kd"
  by (auto simp: decodeKeyData_def split: option.splits if_splits)

lemma issue_coupled:
  assumes "keysCoupled s" "issueTx aid clock p rid kd v s = Inr (out, s')" "decodeKeyData data = Inr kd"
  shows "keysCoupled s'"
  using assms(1) decodeKeyData_Inr [OF assms(3)] assms(3)
  by (auto simp: keysCoupled_def issueTx_okD(3,4) [OF assms(2)])

lemma rotate_coupled:
  assumes "keysCoupled s" "rotateTx aid clock p rid expected v s = Inr (out, s')"
  shows "keysCoupled s'"
proof -
  from rotateTx_okD [OF assms(2)] obtain k r where k: "map_of (st_api_keys s) (pr_TenantID p, rid) = Some k" "\<not> ky_revoked k"
    and r: "map_of (st_resources s) (pr_TenantID p, ''api_keys'', rid) = Some r"
    and s': "st_api_keys s' = AList.update (pr_TenantID p, rid)
         (k\<lparr>ky_version := wrap64 (expected + 1), ky_verifier := v\<rparr>) (st_api_keys s)"
      "st_resources s' = AList.update (pr_TenantID p, ''api_keys'', rid) (r\<lparr>rs_version := wrap64 (expected + 1)\<rparr>) (st_resources s)"
    by blast
  from keysCoupledD [OF assms(1) k] r assms(1) show ?thesis by (auto simp: keysCoupled_def s')
qed

lemma mutate_coupled:
  assumes "keysCoupled s" "mutateTx aid clock now p m data s = Inr (out, s')"
  shows "keysCoupled s'"
proof -
  from mutateTx_okD [OF assms(2)] obtain current version s1 where t: "pr_TenantID current = pr_TenantID p"
    and sync: "(if mu_Kind m = ''api_keys'' then syncKeyMetadataTx current m data (version + 1) s else Inr s) = Inr s1"
    and s': "st_api_keys s' = st_api_keys s1"
      "st_resources s' = (if mu_Delete m then AList.delete (pr_TenantID p, mu_Kind m, mu_ID m) (st_resources s1)
       else AList.update (pr_TenantID p, mu_Kind m, mu_ID m) \<lparr>rs_version = version + 1, rs_data = data\<rparr> (st_resources s1))"
    by metis
  show ?thesis
  proof (cases "mu_Kind m = ''api_keys''")
    case True
    with sync have "syncKeyMetadataTx current m data (version + 1) s = Inr s1" by simp
    then obtain k k' :: keyRow where s1: "st_api_keys s1 = AList.update (pr_TenantID p, mu_ID m) k' (st_api_keys s)"
      "st_resources s1 = st_resources s" "ky_version k' = version + 1" "ky_revoked k' \<longleftrightarrow> ky_revoked k \<or> mu_Delete m"
      "\<not> mu_Delete m \<longrightarrow> (\<exists>kd. decodeKeyData (keyDocument data) = Inr kd \<and> ky_data k' = Some kd \<and> issuerAllowsKey current kd)"
      unfolding t [symmetric] by (elim syncKeyMetadataTx_okD) blast
    show ?thesis
    proof (cases "mu_Delete m")
      case True
      with assms(1) s1 show ?thesis by (auto simp: keysCoupled_def s' \<open>mu_Kind m = ''api_keys''\<close>)
    next
      case False
      then obtain kd where "decodeKeyData (keyDocument data) = Inr kd" "ky_data k' = Some kd" using s1(5) by blast
      with decodeKeyData_Inr [OF this(1)] assms(1) s1(1-4) False show ?thesis
        by (auto simp: keysCoupled_def s' \<open>mu_Kind m = ''api_keys''\<close>)
    qed
  next
    case False
    with sync assms(1) show ?thesis by (auto simp: keysCoupled_def s')
  qed
qed

lemma key_step_coupled: "key_step s s' \<Longrightarrow> keysCoupled s \<Longrightarrow> keysCoupled s'"
proof (induction rule: key_step.induct)
  case (issue s env digest rnd aid clock p rid data)
  then show ?case using IssueKey_effect [of env digest rnd aid clock p rid data s] issue_coupled by metis
next
  case (rotate s env digest rnd aid clock p rid expected)
  then show ?case using RotateKey_effect [of env digest rnd aid clock p rid expected s] rotate_coupled by metis
next
  case (mutate s env ne aid clock now p m)
  then show ?case using Mutate_effect [of env ne aid clock now p m s] mutate_coupled by metis
qed

lemma key_run_coupled: "key_step\<^sup>*\<^sup>* s s' \<Longrightarrow> keysCoupled s \<Longrightarrow> keysCoupled s'"
  by (induction rule: rtranclp_induct) (auto intro: key_step_coupled)

text \<open>
  C25: Along every sequence of issues, rotations and resource mutations that starts without keys,
  an unrevoked key at a positive revision, of an enabled tenant, authenticates over a working database: its resource document and its own row stay in step, so
  every token that parses to the tenant and key, both nonempty, and has the stored digest resolves to
  the key's recorded grants at its revision.
\<close>

theorem keys_always_authenticate:
  assumes "key_step\<^sup>*\<^sup>* s0 s" and "st_api_keys s0 = []"
    and "map_of (st_api_keys s) (t, i) = Some k" "\<not> ky_revoked k" "0 < ky_version k"
    and "parseKeyToken token = Some (t, i)" "digest token = ky_verifier k"
    and "t \<noteq> ''''" "i \<noteq> ''''" "map_of (st_tenants s) t = Some (Some td)" "td_Enabled td"
  shows "\<exists>kd. ky_data k = Some kd
     \<and> AuthenticateKey sound digest token s = (Inr (principalForKey t i (ky_version k) kd), s)"
proof -
  have "keysCoupled s" using key_run_coupled [OF assms(1)] assms(2) by (simp add: keysCoupled_def)
  from keysCoupledD [OF this assms(3,4)] obtain r kd where r: "map_of (st_resources s) (t, ''api_keys'', i) = Some r"
    "rs_version r = ky_version k" "keyDocument (rs_data r) = ky_data k" "decodeKeyData (ky_data k) = Inr kd"
    by (auto simp: isOk_iff)
  then have "keyActive t i (ky_version k) kd s" using assms by (simp add: keyActive_def)
  from AuthenticateKey_sound [OF assms(6,3) _ this] assms(7) decodeKeyData_Inr [OF r(4)] show ?thesis by simp
qed

lemma mutate_revoked:
  assumes tx: "mutateTx aid clock now c m data s = Inr (out, s')"
    and k: "map_of (st_api_keys s) (t, i) = Some k" "ky_revoked k"
  shows "\<exists>k'. map_of (st_api_keys s') (t, i) = Some k' \<and> ky_revoked k'"
proof -
  from mutateTx_okD [OF tx] obtain current version s1 where
    1: "(if mu_Kind m = ''api_keys'' then syncKeyMetadataTx current m data (version + 1) s else Inr s) = Inr s1"
    "st_api_keys s' = st_api_keys s1" by metis
  show ?thesis
  proof (cases "mu_Kind m = ''api_keys''")
    case True
    with 1 have "syncKeyMetadataTx current m data (version + 1) s = Inr s1" by simp
    then obtain k1 k' where "map_of (st_api_keys s) (pr_TenantID current, mu_ID m) = Some k1"
      "st_api_keys s1 = AList.update (pr_TenantID current, mu_ID m) k' (st_api_keys s)"
      "ky_revoked k' \<longleftrightarrow> ky_revoked k1 \<or> mu_Delete m" by (elim syncKeyMetadataTx_okD) blast
    with k show ?thesis by (auto simp: 1)
  qed (use k 1 in auto)
qed

lemma key_step_revoked:
  assumes "key_step s s'" "map_of (st_api_keys s) (t, i) = Some k" "ky_revoked k"
  shows "\<exists>k'. map_of (st_api_keys s') (t, i) = Some k' \<and> ky_revoked k'"
  using assms
proof (induction rule: key_step.induct)
  case (issue s env digest rnd aid clock p rid data)
  from IssueKey_effect [of env digest rnd aid clock p rid data s] show ?case
  proof (elim disjE exE conjE)
    fix kd v out s' assume tx: "issueTx aid clock p rid kd v s = Inr (out, s')"
      and s': "snd (IssueKey env digest rnd aid clock p rid data s) = s'"
    have "(t, i) \<noteq> (pr_TenantID p, rid)" using issueTx_okD(2) [OF tx] issue by auto
    then show ?thesis using issue by (simp add: s' issueTx_okD(3) [OF tx])
  qed (use issue in simp)
next
  case (rotate s env digest rnd aid clock p rid expected)
  from RotateKey_effect [of env digest rnd aid clock p rid expected s] show ?case
  proof (elim disjE exE conjE)
    fix v out s' assume tx: "rotateTx aid clock p rid expected v s = Inr (out, s')"
      and s': "snd (RotateKey env digest rnd aid clock p rid expected s) = s'"
    from rotateTx_okD [OF tx] obtain k1 k2 where "map_of (st_api_keys s) (pr_TenantID p, rid) = Some k1"
      "\<not> ky_revoked k1" "st_api_keys s' = AList.update (pr_TenantID p, rid) k2 (st_api_keys s)" by blast
    with rotate show ?thesis by (auto simp: s')
  qed (use rotate in simp)
next
  case (mutate s env ne aid clock now p m)
  then show ?case using Mutate_effect [of env ne aid clock now p m s] mutate_revoked by metis
qed

text \<open>
  C24: Revocation is final.  Once a key is revoked, no sequence of issues, rotations and mutations
  makes a token of that key authenticate again.
\<close>

theorem revoked_forever:
  assumes "key_step\<^sup>*\<^sup>* s s'" and "map_of (st_api_keys s) (t, i) = Some k" "ky_revoked k"
    and "parseKeyToken token = Some (t, i)"
  shows "fst (AuthenticateKey env digest token s') = Inl unauthorized"
proof -
  from assms(1) have "\<exists>k'. map_of (st_api_keys s') (t, i) = Some k' \<and> ky_revoked k'"
    by (induction rule: rtranclp_induct) (use assms(2,3) in \<open>auto dest: key_step_revoked\<close>)
  then show ?thesis using assms(4)
    by (auto simp: AuthenticateKey_def authenticateTx_def withTx_def split: option.splits)
qed

theorem keys_always_authenticate_witness:
  "\<exists>s. key_step\<^sup>*\<^sup>* ownedStore s
     \<and> isOk (fst (AuthenticateKey sound (\<lambda>t. t) (keyToken ''t1'' ''k1'' zeroSecret) s))"
proof -
  let ?token = "keyToken ''t1'' ''k1'' zeroSecret"
  obtain out s where i: "IssueKey sound (\<lambda>t. t) (Inr zeroSecret) ''a1'' 0 samplePrincipal ''k1'' (Some sampleKey) ownedStore
      = (Inr (out, ?token), s)"
    and tx: "issueTx ''a1'' 0 samplePrincipal ''k1'' sampleKey ?token ownedStore = Inr (out, s)"
    using IssueKey_sample by blast
  have run: "key_step\<^sup>*\<^sup>* ownedStore s"
    using key_step.issue [of ownedStore sound "\<lambda>t. t" "Inr zeroSecret" "''a1''" 0 samplePrincipal "''k1''" "Some sampleKey"]
    by (simp add: i)
  obtain td where td: "map_of (st_tenants s) ''t1'' = Some (Some td)" "td_Enabled td"
    using resolvePrincipalTx_tenant [OF samplePrincipal_resolved] issueTx_okD(5) [OF tx] samplePrincipal_fields by auto
  have parse: "parseKeyToken ?token = Some (''t1'', ''k1'')"
    using sample_coordinates validKeyCoordinate_examples by (intro parse_keyToken) (simp_all add: zeroSecret_def)
  have "map_of (st_api_keys s) (''t1'', ''k1'')
      = Some \<lparr>ky_version = 1, ky_verifier = ?token, ky_data = Some sampleKey, ky_revoked = False\<rparr>"
    by (simp add: issueTx_okD(3) [OF tx] samplePrincipal_fields)
  from keys_always_authenticate [OF run ownedStore_tables(2) this _ _ parse, of "\<lambda>t. t" td] td run
  show ?thesis by (auto simp: isOk_iff)
qed

theorem revoked_forever_witness:
  "fst (AuthenticateKey sound (\<lambda>t. t) (keyToken ''t1'' ''k1'' zeroSecret)
     (snd (IssueKey sound (\<lambda>t. t) (Inr zeroSecret) ''a1'' 0 samplePrincipal ''k1'' (Some sampleKey)
        (ownedStore\<lparr>st_api_keys := [((''t1'', ''k1''), \<lparr>ky_version = 2, ky_verifier = keyToken ''t1'' ''k1'' zeroSecret,
           ky_data = Some sampleKey, ky_revoked = True\<rparr>)]\<rparr>)))) = Inl unauthorized"
proof (rule revoked_forever)
  show "parseKeyToken (keyToken ''t1'' ''k1'' zeroSecret) = Some (''t1'', ''k1'')"
    using sample_coordinates validKeyCoordinate_examples by (intro parse_keyToken) (simp_all add: zeroSecret_def)
qed (rule r_into_rtranclp, rule key_step.issue, simp, simp)

section \<open>Enforced limits follow their resource\<close>

definition limitRow :: "int64 \<Rightarrow> PolicyLimitData \<Rightarrow> string \<Rightarrow> string \<Rightarrow> policyLimitRow option" where
  "limitRow now x wid kind =
     map_option (\<lambda>(k, maximum, window).
        \<lparr>lm_maximum = maximum, lm_reserve = (if kind = ''cost'' then maximum else 1), lm_version = 1\<rparr>)
       (find (\<lambda>(k, maximum, window). k = kind \<and> 0 < maximum \<and> limitWindow now window = wid) (limitDims x))"

lemma installDim_limits:
  "map_of (st_policy_limits (installDim now t x (kind, maximum, window) s)) (t', sc, i, w, kd) =
     (if 0 < maximum \<and> (t', sc, i, w, kd) = (t, pd_Scope x, pd_ScopeID x, limitWindow now window, kind)
      then Some \<lparr>lm_maximum = maximum, lm_reserve = (if kind = ''cost'' then maximum else 1),
             lm_version = (case map_of (st_policy_limits s) (t', sc, i, w, kd) of None \<Rightarrow> 1 | Some r \<Rightarrow> lm_version r + 1)\<rparr>
      else map_of (st_policy_limits s) (t', sc, i, w, kd))"
  by (auto simp: installDim_def Let_def)

text \<open>Installing dimensions of distinct kinds, starting from a scope without rows.\<close>

lemma fold_installDim_limits:
  assumes "distinct (map fst ds)" and "\<forall>d \<in> set ds. \<forall>w. map_of (st_policy_limits s) (t, pd_Scope x, pd_ScopeID x, w, fst d) = None"
  shows "map_of (st_policy_limits (fold (installDim now t x) ds s)) (t, pd_Scope x, pd_ScopeID x, w, kd) =
     (case find (\<lambda>(k, maximum, window). k = kd \<and> 0 < maximum \<and> limitWindow now window = w) ds of
        None \<Rightarrow> map_of (st_policy_limits s) (t, pd_Scope x, pd_ScopeID x, w, kd)
      | Some (k, maximum, window) \<Rightarrow>
          Some \<lparr>lm_maximum = maximum, lm_reserve = (if kd = ''cost'' then maximum else 1), lm_version = 1\<rparr>)"
  using assms
proof (induction ds arbitrary: s)
  case (Cons d ds)
  obtain k maximum window where d: "d = (k, maximum, window)" by (cases d) auto
  let ?P = "\<lambda>(k, maximum, window). k = kd \<and> 0 < maximum \<and> limitWindow now window = w"
  have "\<forall>e \<in> set ds. \<forall>w. map_of (st_policy_limits (installDim now t x d s)) (t, pd_Scope x, pd_ScopeID x, w, fst e) = None"
    using Cons.prems unfolding d by (force simp: installDim_limits)
  then have IH: "map_of (st_policy_limits (fold (installDim now t x) (d # ds) s)) (t, pd_Scope x, pd_ScopeID x, w, kd) =
     (case find ?P ds of
        None \<Rightarrow> map_of (st_policy_limits (installDim now t x d s)) (t, pd_Scope x, pd_ScopeID x, w, kd)
      | Some (k, maximum, window) \<Rightarrow>
          Some \<lparr>lm_maximum = maximum, lm_reserve = (if kd = ''cost'' then maximum else 1), lm_version = 1\<rparr>)"
    using Cons.IH [of "installDim now t x d s"] Cons.prems(1) by simp
  show ?case
  proof (cases "kd = k")
    case True
    then have "find ?P ds = None" using Cons.prems(1) by (force simp: d find_None_iff)
    with True Cons.prems(2) show ?thesis unfolding IH by (auto simp: d installDim_limits)
  next
    case False
    then have "find ?P (d # ds) = find ?P ds" by (simp add: d)
    moreover have "map_of (st_policy_limits (installDim now t x d s)) (t, pd_Scope x, pd_ScopeID x, w, kd)
        = map_of (st_policy_limits s) (t, pd_Scope x, pd_ScopeID x, w, kd)"
      using False by (simp add: d installDim_limits)
    ultimately show ?thesis unfolding IH by presburger
  qed
qed simp

lemma map_of_filter_keys: "map_of (filter (\<lambda>kv. P (fst kv)) xs) k = (if P k then map_of xs k else None)"
  by (induction xs) auto

lemma deleteScope_limits:
  "map_of (st_policy_limits (deleteScope t sc i s)) (t', sc', i', w, kd) =
     (if t' = t \<and> sc' = sc \<and> i' = i then None else map_of (st_policy_limits s) (t', sc', i', w, kd))"
proof -
  have "st_policy_limits (deleteScope t sc i s)
      = filter (\<lambda>kv. (\<lambda>(t', sc', i', w, kd). \<not> (t' = t \<and> sc' = sc \<and> i' = i)) (fst kv)) (st_policy_limits s)"
    by (auto simp: deleteScope_def intro!: filter_cong)
  then show ?thesis by (simp add: map_of_filter_keys)
qed

lemma installDim_other:
  "(t', sc, i) \<noteq> (t, pd_Scope x, pd_ScopeID x) \<Longrightarrow>
     map_of (st_policy_limits (fold (installDim now t x) ds s)) (t', sc, i, w, kd) = map_of (st_policy_limits s) (t', sc, i, w, kd)"
  by (induction ds arbitrary: s) (auto simp: installDim_limits split_paired_all)

lemma installDim_reserved:
  "map_of (st_allowances s) key = Some a \<Longrightarrow> map_of (st_allowances (fold (installDim now t x) ds s)) key = Some a"
proof (induction ds arbitrary: s)
  case (Cons d ds)
  have "map_of (st_allowances (installDim now t x d s)) key = Some a"
    using Cons.prems by (auto simp: installDim_def insertNew_def Let_def split: prod.splits option.splits)
  then show ?case using Cons.IH by simp
qed simp

lemma limitDims_distinct: "distinct (map fst (limitDims x))"
  by (simp add: limitDims_def)

text \<open>The maximum and reserve that are enforced at a key, and whether the stored document named a scope.\<close>

definition limitAt :: "Store \<Rightarrow> limitKey \<Rightarrow> (int64 \<times> int64) option" where
  "limitAt s K = map_option (\<lambda>r. (lm_maximum r, lm_reserve r)) (map_of (st_policy_limits s) K)"

definition hadScope :: "PolicyLimitData option \<Rightarrow> string \<Rightarrow> string \<Rightarrow> bool" where
  "hadScope old sc i = (case old of None \<Rightarrow> False | Some d \<Rightarrow> pd_Scope d \<noteq> '''' \<and> pd_Scope d = sc \<and> pd_ScopeID d = i)"

lemma fold_installDim_at:
  assumes "distinct (map fst ds)"
  shows "limitAt (fold (installDim now t x) ds s) (t, pd_Scope x, pd_ScopeID x, w, kd) =
     (case find (\<lambda>(k, maximum, window). k = kd \<and> 0 < maximum \<and> limitWindow now window = w) ds of
        None \<Rightarrow> limitAt s (t, pd_Scope x, pd_ScopeID x, w, kd)
      | Some (k, maximum, window) \<Rightarrow> Some (maximum, if kd = ''cost'' then maximum else 1))"
  using assms
proof (induction ds arbitrary: s)
  case (Cons d ds)
  obtain k maximum window where d: "d = (k, maximum, window)" by (cases d) auto
  let ?P = "\<lambda>(k, maximum, window). k = kd \<and> 0 < maximum \<and> limitWindow now window = w"
  have IH: "limitAt (fold (installDim now t x) (d # ds) s) (t, pd_Scope x, pd_ScopeID x, w, kd) =
     (case find ?P ds of None \<Rightarrow> limitAt (installDim now t x d s) (t, pd_Scope x, pd_ScopeID x, w, kd)
      | Some (k, maximum, window) \<Rightarrow> Some (maximum, if kd = ''cost'' then maximum else 1))"
    using Cons.IH [of "installDim now t x d s"] Cons.prems by simp
  show ?case
  proof (cases "kd = k")
    case True
    then have "find ?P ds = None" using Cons.prems by (force simp: d find_None_iff)
    with True show ?thesis unfolding IH by (auto simp: d limitAt_def installDim_limits)
  next
    case False
    then have "find ?P (d # ds) = find ?P ds" by (simp add: d)
    moreover have "limitAt (installDim now t x d s) (t, pd_Scope x, pd_ScopeID x, w, kd) = limitAt s (t, pd_Scope x, pd_ScopeID x, w, kd)"
      using False by (simp add: d limitAt_def installDim_limits)
    ultimately show ?thesis unfolding IH by presburger
  qed
qed simp

lemma syncPolicyLimit_eq:
  assumes "syncPolicyLimit now p m s = Inr s'" and "mu_Kind m = ''policy_limits''" "\<not> mu_Delete m"
    and "mu_Data m = PolicyLimitRes x"
  obtains s1 where "s' = fold (installDim now (pr_TenantID p) x) (limitDims x) s1" "st_allowances s1 = st_allowances s"
    "\<forall>t sc i w kd. map_of (st_policy_limits s1) (t, sc, i, w, kd) =
       (if t = pr_TenantID p \<and> hadScope (storedLimit (pr_TenantID p) (mu_ID m) s) sc i then None else map_of (st_policy_limits s) (t, sc, i, w, kd))"
proof -
  define s1 where "s1 = (case storedLimit (pr_TenantID p) (mu_ID m) s of None \<Rightarrow> s
     | Some old \<Rightarrow> if pd_Scope old \<noteq> '''' then deleteScope (pr_TenantID p) (pd_Scope old) (pd_ScopeID old) s else s)"
  have "s' = fold (installDim now (pr_TenantID p) x) (limitDims x) s1"
    using assms by (auto simp: syncPolicyLimit_def Let_def s1_def split: if_splits)
  moreover have "st_allowances s1 = st_allowances s" by (simp add: s1_def deleteScope_def split: option.split)
  moreover have "map_of (st_policy_limits s1) (t, sc, i, w, kd) =
       (if t = pr_TenantID p \<and> hadScope (storedLimit (pr_TenantID p) (mu_ID m) s) sc i then None else map_of (st_policy_limits s) (t, sc, i, w, kd))"
    for t sc i w kd
    by (auto simp: s1_def hadScope_def deleteScope_limits split: option.split)
  ultimately show thesis using that by blast
qed

lemma reinstalled_rows:
  "map_of (st_policy_limits (fold (installDim now t x) (limitDims x) (deleteScope t (pd_Scope x) (pd_ScopeID x) s)))
     (t, pd_Scope x, pd_ScopeID x, w, kd) = limitRow now x w kd"
  unfolding limitRow_def
  by (subst fold_installDim_limits [OF limitDims_distinct]) (auto simp: deleteScope_limits split: option.splits)

text \<open>
  C28: Writing a limit resource makes the positive dimensions of the new document, each in its current window, the
  enforced limits of the scope it names. The other rows of that scope go away if the stored document named
  the scope too, and otherwise stay; when the scope moves, every row of the old scope goes away; the rows of all
  other scopes and tenants, and every counter already running, keep their values.
\<close>

theorem limits_follow_resource:
  assumes "syncPolicyLimit now p m s = Inr s'" and "mu_Kind m = ''policy_limits''" "\<not> mu_Delete m"
    and "mu_Data m = PolicyLimitRes x"
  shows "limitAt s' (pr_TenantID p, pd_Scope x, pd_ScopeID x, w, kd) =
       (case limitRow now x w kd of
          Some l \<Rightarrow> Some (lm_maximum l, lm_reserve l)
        | None \<Rightarrow> if hadScope (storedLimit (pr_TenantID p) (mu_ID m) s) (pd_Scope x) (pd_ScopeID x) then None
                 else limitAt s (pr_TenantID p, pd_Scope x, pd_ScopeID x, w, kd))
     \<and> ((t, sc, i) \<noteq> (pr_TenantID p, pd_Scope x, pd_ScopeID x) \<longrightarrow>
          map_of (st_policy_limits s') (t, sc, i, w, kd) =
            (if t = pr_TenantID p \<and> hadScope (storedLimit (pr_TenantID p) (mu_ID m) s) sc i then None
             else map_of (st_policy_limits s) (t, sc, i, w, kd)))
     \<and> (map_of (st_allowances s) key = Some a \<longrightarrow> map_of (st_allowances s') key = Some a)"
proof -
  obtain s1 where s': "s' = fold (installDim now (pr_TenantID p) x) (limitDims x) s1" and "st_allowances s1 = st_allowances s"
    and rows: "\<forall>t sc i w kd. map_of (st_policy_limits s1) (t, sc, i, w, kd) =
       (if t = pr_TenantID p \<and> hadScope (storedLimit (pr_TenantID p) (mu_ID m) s) sc i then None else map_of (st_policy_limits s) (t, sc, i, w, kd))"
    by (rule syncPolicyLimit_eq [OF assms])
  then have "map_of (st_allowances s') key = Some a" if "map_of (st_allowances s) key = Some a"
    unfolding s' using that by (intro installDim_reserved) simp
  moreover have "limitAt s1 (pr_TenantID p, pd_Scope x, pd_ScopeID x, w, kd) =
      (if hadScope (storedLimit (pr_TenantID p) (mu_ID m) s) (pd_Scope x) (pd_ScopeID x) then None
       else limitAt s (pr_TenantID p, pd_Scope x, pd_ScopeID x, w, kd))"
    by (simp add: limitAt_def rows)
  then have "limitAt s' (pr_TenantID p, pd_Scope x, pd_ScopeID x, w, kd) =
       (case limitRow now x w kd of
          Some l \<Rightarrow> Some (lm_maximum l, lm_reserve l)
        | None \<Rightarrow> if hadScope (storedLimit (pr_TenantID p) (mu_ID m) s) (pd_Scope x) (pd_ScopeID x) then None
                 else limitAt s (pr_TenantID p, pd_Scope x, pd_ScopeID x, w, kd))"
    unfolding s' by (subst fold_installDim_at [OF limitDims_distinct]) (auto simp: limitRow_def split: option.split)
  moreover have "map_of (st_policy_limits s') (t, sc, i, w, kd) = map_of (st_policy_limits s1) (t, sc, i, w, kd)"
    if "(t, sc, i) \<noteq> (pr_TenantID p, pd_Scope x, pd_ScopeID x)"
    unfolding s' by (rule installDim_other [OF that])
  ultimately show ?thesis by (simp add: rows)
qed

text \<open>Two limit resources of the same tenant scope, one for requests and one for tokens.\<close>

definition limitDoc :: "int64 \<Rightarrow> int64 \<Rightarrow> PolicyLimitData" where
  "limitDoc requests tokens =
     \<lparr>pd_Scope = ''tenant'', pd_ScopeID = ''t1'', pd_RequestsPerMinute = requests, pd_TokensPerMinute = tokens,
      pd_MaxCost = 0, pd_Concurrency = 0, pd_CostWindow = '''', pd_OutstandingJobs = 0\<rparr>"

definition limitMutation :: "string \<Rightarrow> PolicyLimitData \<Rightarrow> Mutation" where
  "limitMutation rid x = \<lparr>mu_Kind = ''policy_limits'', mu_ID = rid, mu_ExpectedVersion = 1, mu_Delete = False,
     mu_Data = PolicyLimitRes x\<rparr>"

definition twoLimits :: Store where
  "twoLimits = fold (installDim 0 ''t1'' (limitDoc 0 100)) (limitDims (limitDoc 0 100))
     (fold (installDim 0 ''t1'' (limitDoc 10 0)) (limitDims (limitDoc 10 0))
       (emptyStore\<lparr>st_resources :=
          [((''t1'', ''policy_limits'', ''a''), \<lparr>rs_version = 1, rs_data = PolicyLimitRes (limitDoc 10 0)\<rparr>),
           ((''t1'', ''policy_limits'', ''b''), \<lparr>rs_version = 1, rs_data = PolicyLimitRes (limitDoc 0 100)\<rparr>)]\<rparr>))"

lemma twoLimits_stored:
  "storedLimit ''t1'' ''a'' twoLimits = Some (limitDoc 10 0)" "storedLimit ''t1'' ''b'' twoLimits = Some (limitDoc 0 100)"
  by (simp_all add: storedLimit_def twoLimits_def fold_installDim_frame)

lemma limitDoc_scope [simp]: "pd_Scope (limitDoc r t) = ''tenant''" "pd_ScopeID (limitDoc r t) = ''t1''"
  by (simp_all add: limitDoc_def)

lemma limitMutation_fields [simp]:
  "mu_Kind (limitMutation rid x) = ''policy_limits''" "mu_ID (limitMutation rid x) = rid"
  "\<not> mu_Delete (limitMutation rid x)" "mu_Data (limitMutation rid x) = PolicyLimitRes x"
  by (simp_all add: limitMutation_def)

lemma update_a:
  "syncPolicyLimit 0 samplePrincipal (limitMutation ''a'' (limitDoc 20 0)) twoLimits
     = Inr (fold (installDim 0 ''t1'' (limitDoc 20 0)) (limitDims (limitDoc 20 0)) (deleteScope ''t1'' ''tenant'' ''t1'' twoLimits))"
  by (simp add: syncPolicyLimit_def twoLimits_stored samplePrincipal_fields Let_def)

theorem limits_follow_resource_witness:
  "\<exists>s'. syncPolicyLimit 0 samplePrincipal (limitMutation ''a'' (limitDoc 20 0)) twoLimits = Inr s'
     \<and> limitAt s' (''t1'', ''tenant'', ''t1'', limitWindow 0 ''60'', ''requests'') = Some (20, 1)
     \<and> limitAt s' (''t1'', ''tenant'', ''t1'', limitWindow 0 ''60'', ''tokens'') = None"
proof -
  have r: "limitRow 0 (limitDoc 20 0) (limitWindow 0 ''60'') ''requests'' = Some \<lparr>lm_maximum = 20, lm_reserve = 1, lm_version = 1\<rparr>"
    "limitRow 0 (limitDoc 20 0) (limitWindow 0 ''60'') ''tokens'' = None"
    by (simp_all add: limitRow_def limitDims_def limitDoc_def)
  have "hadScope (storedLimit ''t1'' ''a'' twoLimits) ''tenant'' ''t1''" by (simp add: hadScope_def twoLimits_stored)
  with r show ?thesis
    using limits_follow_resource [OF update_a, of "limitDoc 20 0" "limitWindow 0 ''60''" "''requests''"]
      limits_follow_resource [OF update_a, of "limitDoc 20 0" "limitWindow 0 ''60''" "''tokens''"] update_a
    by (simp add: samplePrincipal_fields)
qed

text \<open>
  C30: Two limit resources may name the same scope, and then updating one silently stops the other
  from being enforced: the token limit of the second resource has a row before the update and none,
  in any window, after it, although its resource is still stored and the configuration is valid.
\<close>

theorem second_limit_lost:
  "\<exists>s'. syncPolicyLimit 0 samplePrincipal (limitMutation ''a'' (limitDoc 20 0)) twoLimits = Inr s'
     \<and> storedLimit ''t1'' ''b'' s' = Some (limitDoc 0 100) \<and> validateTenantTx ''t1'' s' = Inr ()
     \<and> map_of (st_policy_limits twoLimits) (''t1'', ''tenant'', ''t1'', limitWindow 0 ''60'', ''tokens'') \<noteq> None
     \<and> (\<forall>w. map_of (st_policy_limits s') (''t1'', ''tenant'', ''t1'', w, ''tokens'') = None)"
proof (intro exI conjI)
  let ?s = "fold (installDim 0 ''t1'' (limitDoc 20 0)) (limitDims (limitDoc 20 0)) (deleteScope ''t1'' ''tenant'' ''t1'' twoLimits)"
  show "syncPolicyLimit 0 samplePrincipal (limitMutation ''a'' (limitDoc 20 0)) twoLimits = Inr ?s" by (rule update_a)
  have res: "st_resources ?s = st_resources twoLimits" by (simp add: fold_installDim_frame deleteScope_def)
  then show "storedLimit ''t1'' ''b'' ?s = Some (limitDoc 0 100)" using twoLimits_stored(2) by (simp add: storedLimit_def)
  show "validateTenantTx ''t1'' ?s = Inr ()"
    unfolding validateTenantTx_def tenantRows_def kindRows_def res
    by (simp add: twoLimits_def fold_installDim_frame check_def decoded_def limitScopeOk_def)
  show "map_of (st_policy_limits twoLimits) (''t1'', ''tenant'', ''t1'', limitWindow 0 ''60'', ''tokens'') \<noteq> None"
    by (simp add: twoLimits_def limitDims_def installDim_limits) (simp add: limitDoc_def)
  show "\<forall>w. map_of (st_policy_limits ?s) (''t1'', ''tenant'', ''t1'', w, ''tokens'') = None"
    using reinstalled_rows [of 0 "''t1''" "limitDoc 20 0" twoLimits _ "''tokens''"]
    by (simp add: limitRow_def limitDims_def) (simp add: limitDoc_def)
qed

end
