(* ===== verification/Json.thy ===== *)
theory Json
  imports Go_Strings
begin

text \<open>
  Decoded JSON documents, as \<open>encoding/json\<close> sees them.  An object keeps its members in document
  order with duplicates.  Decoding into \<open>any\<close> lets the last duplicate win (\<open>jget\<close>); decoding into a
  struct matches member names without regard to case and reports a member of the wrong type as an
  error wherever it stands (\<open>jfieldInt\<close>).  A number is \<open>JInt\<close> when its literal is an integer and
  \<open>JFloat\<close> otherwise.
\<close>

datatype json =
    JNull
  | JBool bool
  | JInt int
  | JFloat string
  | JStr string
  | JArr "json list"
  | JObj "(string \<times> json) list"

fun jget :: "string \<Rightarrow> (string \<times> json) list \<Rightarrow> json option" where
  "jget k [] = None"
| "jget k ((k', v) # rest) =
     (case jget k rest of Some w \<Rightarrow> Some w | None \<Rightarrow> if k' = k then Some v else None)"

fun jstr :: "json option \<Rightarrow> string option" where
  "jstr (Some (JStr s)) = Some s"
| "jstr _ = None"

fun jobj :: "json option \<Rightarrow> (string \<times> json) list option" where
  "jobj (Some (JObj m)) = Some m"
| "jobj _ = None"

lemma jget_iff: "jget k m = map_of (rev m) k"
  by (induction m) (auto simp: map_add_def split: option.splits)

lemma jget_mem: "jget k m = Some v \<Longrightarrow> (k, v) \<in> set m"
  by (induction m) (auto split: option.splits if_splits)

lemma size_member:
  "(k, v) \<in> set m \<Longrightarrow> size v < Suc (size_list (\<lambda>x. Suc (size (snd x))) m)"
  by (induction m) auto

lemma jget_size [termination_simp]:
  "jget k m = Some v \<Longrightarrow> size v < Suc (size_list (\<lambda>x. Suc (size (snd x))) m)"
  by (rule size_member [OF jget_mem])

section \<open>Integer members of a struct\<close>

definition i64Range :: "int \<Rightarrow> bool" where
  "i64Range x \<longleftrightarrow> - 9223372036854775808 \<le> x \<and> x \<le> 9223372036854775807"

text \<open>
  A member decoded into \<open>*int64\<close>: the outer \<open>None\<close> is a type error, the inner \<open>None\<close> a nil pointer.
\<close>

fun decodeIntPtr :: "json \<Rightarrow> int option option" where
  "decodeIntPtr JNull = Some None"
| "decodeIntPtr (JInt x) = (if i64Range x then Some (Some x) else None)"
| "decodeIntPtr _ = None"

fun jfieldInt :: "string \<Rightarrow> int option \<Rightarrow> (string \<times> json) list \<Rightarrow> int option option" where
  "jfieldInt name acc [] = Some acc"
| "jfieldInt name acc ((k, v) # rest) =
     (if equalFold k name then
        (case decodeIntPtr v of None \<Rightarrow> None | Some p \<Rightarrow> jfieldInt name p rest)
      else jfieldInt name acc rest)"

lemma jfieldInt_range: "jfieldInt name acc m = Some (Some x) \<Longrightarrow> (\<And>y. acc = Some y \<Longrightarrow> i64Range y) \<Longrightarrow> i64Range x"
proof (induction m arbitrary: acc)
  case (Cons kv m)
  obtain k v where "kv = (k, v)" by (cases kv)
  with Cons show ?case
    by (cases v) (auto split: if_splits)
qed auto

end
