(* ===== verification/Cache_Pricing.thy ===== *)
theory Cache_Pricing
  imports Json Core_Types
begin

text \<open>
  Which prompt-cache prices a request needs: the inspection of the request body in
  \<open>store/policy_plan.go\<close>.  It follows the containers that providers read cache directives from and
  nothing else.
\<close>

section \<open>Definitions\<close>

record cachePricingRequirements =
  cq_read :: bool
  cq_write :: bool
  cq_breakpoints :: nat
  cq_ttl :: "string list"
  cq_otherTTL :: bool
  cq_openAITTL :: string

definition noRequirements :: cachePricingRequirements where
  "noRequirements = \<lparr>cq_read = False, cq_write = False, cq_breakpoints = 0, cq_ttl = [], cq_otherTTL = False,
     cq_openAITTL = ''''\<rparr>"

definition addWriteTTL :: "string \<Rightarrow> cachePricingRequirements \<Rightarrow> cachePricingRequirements" where
  "addWriteTTL ttl r0 =
     (let r = r0\<lparr>cq_write := True\<rparr> in
      if ttl = '''' then r
      else if ttl = ''5m'' \<or> ttl = ''1h'' then r\<lparr>cq_ttl := List.insert ttl (cq_ttl r)\<rparr>
      else r\<lparr>cq_otherTTL := True\<rparr>)"

definition cacheStringField :: "(string \<times> json) list \<Rightarrow> string \<Rightarrow> string" where
  "cacheStringField m key = (case jstr (jget key m) of Some s \<Rightarrow> s | None \<Rightarrow> '''')"

text \<open>A member that requests a cache write when present, with its time to live when it is an object.\<close>

definition writeDirective :: "string \<Rightarrow> (string \<times> json) list \<Rightarrow> cachePricingRequirements \<Rightarrow> cachePricingRequirements" where
  "writeDirective key m r =
     (case jget key m of
        None \<Rightarrow> r
      | Some v \<Rightarrow>
          (case jobj (Some v) of
             Some object \<Rightarrow> addWriteTTL (cacheStringField object ''ttl'') r
           | None \<Rightarrow> addWriteTTL '''' r))"

definition blockKinds :: "string list" where
  "blockKinds = [''text'', ''thinking'', ''image'', ''document'', ''tool_use'', ''tool_result'', ''input_text'',
     ''input_image'', ''input_file'']"

definition semanticBlock :: "(string \<times> json) list \<Rightarrow> bool" where
  "semanticBlock m =
     (jget ''cachePoint'' m \<noteq> None
      \<or> (case jstr (jget ''type'' m) of Some kind \<Rightarrow> kind \<in> set blockKinds | None \<Rightarrow> False))"

definition blockKind :: "(string \<times> json) list \<Rightarrow> string" where
  "blockKind m = (case jstr (jget ''type'' m) of Some kind \<Rightarrow> kind | None \<Rightarrow> '''')"

definition blockDirectives :: "bool \<Rightarrow> (string \<times> json) list \<Rightarrow> cachePricingRequirements \<Rightarrow> cachePricingRequirements" where
  "blockDirectives breakpoints m r =
     (let r2 = writeDirective ''cachePoint'' m (writeDirective ''cache_control'' m r) in
      if breakpoints \<and> (blockKind m = ''text'' \<or> blockKind m = ''input_text'') \<and> jget ''prompt_cache_breakpoint'' m \<noteq> None
      then r2\<lparr>cq_breakpoints := cq_breakpoints r2 + 1\<rparr> else r2)"

fun inspectCacheBlocks :: "json \<Rightarrow> bool \<Rightarrow> cachePricingRequirements \<Rightarrow> cachePricingRequirements" where
  "inspectCacheBlocks (JArr xs) breakpoints r = fold (\<lambda>item. inspectCacheBlocks item breakpoints) xs r"
| "inspectCacheBlocks (JObj m) breakpoints r =
     (if \<not> semanticBlock m then r
      else if blockKind m = ''tool_result'' then
        (case jget ''content'' m of
           None \<Rightarrow> blockDirectives breakpoints m r
         | Some child \<Rightarrow> inspectCacheBlocks child breakpoints (blockDirectives breakpoints m r))
      else blockDirectives breakpoints m r)"
| "inspectCacheBlocks _ breakpoints r = r"

definition inChild :: "string \<Rightarrow> (json \<Rightarrow> cachePricingRequirements \<Rightarrow> cachePricingRequirements)
    \<Rightarrow> (string \<times> json) list \<Rightarrow> cachePricingRequirements \<Rightarrow> cachePricingRequirements" where
  "inChild key f m r = (case jget key m of None \<Rightarrow> r | Some child \<Rightarrow> f child r)"

fun inspectCacheContainers :: "json \<Rightarrow> cachePricingRequirements \<Rightarrow> cachePricingRequirements" where
  "inspectCacheContainers (JArr xs) r = fold inspectCacheContainers xs r"
| "inspectCacheContainers (JObj m) r =
     inChild ''parts'' (\<lambda>v. inspectCacheBlocks v False) m (inChild ''content'' (\<lambda>v. inspectCacheBlocks v True) m r)"
| "inspectCacheContainers _ r = r"

definition inspectCacheSystem :: "json \<Rightarrow> cachePricingRequirements \<Rightarrow> cachePricingRequirements" where
  "inspectCacheSystem v r =
     (case Option.bind (jobj (Some v)) (jget ''parts'') of
        Some child \<Rightarrow> inspectCacheBlocks child False r
      | None \<Rightarrow> inspectCacheBlocks v True r)"

fun inspectCacheTools :: "json \<Rightarrow> cachePricingRequirements \<Rightarrow> cachePricingRequirements" where
  "inspectCacheTools (JArr xs) r = fold inspectCacheTools xs r"
| "inspectCacheTools (JObj m) r = writeDirective ''cachePoint'' m (writeDirective ''cache_control'' m r)"
| "inspectCacheTools _ r = r"

definition readMember :: "string \<Rightarrow> (string \<times> json) list \<Rightarrow> cachePricingRequirements \<Rightarrow> cachePricingRequirements" where
  "readMember key m r =
     (case jstr (jget key m) of Some s \<Rightarrow> if s \<noteq> '''' then r\<lparr>cq_read := True\<rparr> else r | None \<Rightarrow> r)"

definition cacheOptions :: "(string \<times> json) list \<Rightarrow> cachePricingRequirements \<Rightarrow> cachePricingRequirements" where
  "cacheOptions m r =
     (case jobj (jget ''prompt_cache_options'' m) of
        None \<Rightarrow> r
      | Some options \<Rightarrow>
          let mode = cacheStringField options ''mode'';
              ttl = cacheStringField options ''ttl'';
              r1 = (if mode \<noteq> '''' then r\<lparr>cq_read := True\<rparr> else r);
              r2 = (if mode = ''explicit'' \<or> ttl \<noteq> '''' then addWriteTTL ttl r1 else r1)
          in if ttl \<noteq> '''' then r2\<lparr>cq_openAITTL := ttl\<rparr> else r2)"

definition toolConfig :: "(string \<times> json) list \<Rightarrow> cachePricingRequirements \<Rightarrow> cachePricingRequirements" where
  "toolConfig m r =
     (case jobj (jget ''toolConfig'' m) of None \<Rightarrow> r | Some config \<Rightarrow> inChild ''tools'' inspectCacheTools config r)"

definition closeBreakpoints :: "cachePricingRequirements \<Rightarrow> cachePricingRequirements" where
  "closeBreakpoints r = (if cq_breakpoints r > 0 then addWriteTTL (cq_openAITTL r) r else r)"

definition inspectCacheJSON :: "json \<Rightarrow> cachePricingRequirements \<Rightarrow> bool \<Rightarrow> cachePricingRequirements" where
  "inspectCacheJSON v r root =
     (case jobj (Some v) of
        None \<Rightarrow> r
      | Some m \<Rightarrow>
          if \<not> root then inspectCacheContainers v r
          else
            (closeBreakpoints \<circ> toolConfig m \<circ> inChild ''tools'' inspectCacheTools m
             \<circ> inChild ''content'' (\<lambda>v. inspectCacheBlocks v True) m
             \<circ> inChild ''systemInstruction'' inspectCacheSystem m \<circ> inChild ''system'' inspectCacheSystem m
             \<circ> inChild ''contents'' inspectCacheContainers m \<circ> inChild ''input'' inspectCacheContainers m
             \<circ> inChild ''messages'' inspectCacheContainers m
             \<circ> cacheOptions m \<circ> readMember ''prompt_cache_retention'' m \<circ> readMember ''prompt_cache_key'' m
             \<circ> writeDirective ''cache_control'' m \<circ> readMember ''cachedContent'' m) r)"

definition cachePricingRequired :: "json option \<Rightarrow> cachePricingRequirements" where
  "cachePricingRequired body =
     (case body of None \<Rightarrow> noRequirements | Some v \<Rightarrow> inspectCacheJSON v noRequirements True)"

definition cachePricingAvailable :: "PriceSchedule option \<Rightarrow> cachePricingRequirements \<Rightarrow> bool" where
  "cachePricingAvailable price req =
     (if \<not> cq_read req \<and> \<not> cq_write req then True
      else case price of
        None \<Rightarrow> False
      | Some p \<Rightarrow>
          if cq_read req \<and> ps_CachedInputPerMillion p = None then False
          else if \<not> cq_write req then True
          else if cq_otherTTL req \<and> ps_CacheWriteInputPerMillion p = None then False
          else if cq_ttl req = [] then ps_CacheWriteInputPerMillion p \<noteq> None
          else list_all (\<lambda>ttl.
            if ttl = ''5m'' then \<not> (ps_CacheWrite5mPerMillion p = None \<and> ps_CacheWriteInputPerMillion p = None)
            else if ttl = ''1h'' then \<not> (ps_CacheWrite1hPerMillion p = None \<and> ps_CacheWriteInputPerMillion p = None)
            else True) (cq_ttl req))"

end
