(* ===== verification/Policy_Plan.thy ===== *)
theory Policy_Plan
  imports Cache_Pricing Policy Resources Routing
begin

text \<open>
  Planning an attempt, from \<open>store/policy_plan.go\<close>: \<open>PlanAttempt\<close> checks a principal against the
  target it names and bounds tokens and cost before any transaction; \<open>derivePlanTx\<close> repeats every
  decision on the stored state inside the admission transaction and attaches the allowances of all
  matching limits.  The request body is its decoded JSON, \<open>None\<close> when it is empty and
  \<open>Some (Inl ())\<close> when it is not JSON.  The scan over the limit rows reads the rows that are there
  when the query starts, in key order.
\<close>

section \<open>Grants\<close>

definition hasString :: "string list \<Rightarrow> string \<Rightarrow> bool" where
  "hasString values want = list_ex (\<lambda>v. v = ''*'' \<or> v = want) values"

definition hasOperation :: "Operation list \<Rightarrow> Operation \<Rightarrow> bool" where
  "hasOperation values want = list_ex (\<lambda>v. v = ''*'' \<or> v = want) values"

definition connectionGrant :: "Principal \<Rightarrow> string \<Rightarrow> bool" where
  "connectionGrant p connection =
     (hasString (pr_Connections p) connection \<or> hasString (pr_Permissions p) (''connection:'' @ connection)
      \<or> hasString (pr_Permissions p) (''connection/'' @ connection) \<or> hasString (pr_Permissions p) ''connections:*'')"

definition permitted :: "Principal \<Rightarrow> string \<Rightarrow> string \<Rightarrow> Operation \<Rightarrow> bool" where
  "permitted p alias connection op =
     (if pr_Role p = ''admin'' then True
      else if alias \<noteq> '''' \<and> \<not> hasString (pr_Aliases p) alias \<and> \<not> hasString (pr_Permissions p) (''alias:'' @ alias)
              \<and> \<not> hasString (pr_Permissions p) (''alias/'' @ alias) then False
      else if connection \<noteq> '''' \<and> \<not> connectionGrant p connection then False
      else hasOperation (pr_Operations p) op \<or> hasString (pr_Permissions p) (''operation:'' @ op)
        \<or> hasString (pr_Permissions p) (''operation/'' @ op))"

definition hasOperationStrings :: "string list \<Rightarrow> Operation \<Rightarrow> bool" where
  "hasOperationStrings values want = list_ex (\<lambda>v. v = ''*'' \<or> v = want) values"

section \<open>Planning\<close>

definition planIdentity :: "Principal \<Rightarrow> AttemptPlan \<Rightarrow> unit res" where
  "planIdentity p inp =
     (if pr_TenantID p = '''' \<or> (pr_KeyID p = '''' \<and> pr_SessionID p = '''') then
        Inl (Problem ''authentication_required'' 401 ''authenticated key or admin session is required'')
      else if pr_KeyID p \<noteq> '''' \<and> pr_KeyRevision p \<le> 0 then
        Inl (Problem ''authentication_required'' 401 ''authenticated key is required'')
      else if \<not> validRef (ap_RequestID inp) \<or> \<not> validRef (ap_AttemptID inp) \<or> isZeroTime (ap_Deadline inp) then
        Inl (Problem ''invalid_attempt'' 400 ''attempt identity and deadline are required'')
      else if (ap_TenantID inp \<noteq> '''' \<and> ap_TenantID inp \<noteq> pr_TenantID p)
              \<or> (ap_KeyID inp \<noteq> '''' \<and> ap_KeyID inp \<noteq> pr_KeyID p) then
        Inl (Problem ''forbidden'' 403 ''attempt binding is immutable'')
      else Inr ())"

type_synonym body = "(unit + json) option"

definition boundMeta :: "body \<Rightarrow> (int64 option \<times> int64 option) option" where
  "boundMeta body =
     (case body of
        None \<Rightarrow> Some (None, None)
      | Some (Inl _) \<Rightarrow> None
      | Some (Inr JNull) \<Rightarrow> Some (None, None)
      | Some (Inr v) \<Rightarrow>
          (case jobj (Some v) of
             None \<Rightarrow> None
           | Some m \<Rightarrow>
               (case jfieldInt ''max_tokens'' None m of
                  None \<Rightarrow> None
                | Some maxTokens \<Rightarrow>
                    (case jfieldInt ''max_output_tokens'' None m of
                       None \<Rightarrow> None
                     | Some maxOutputTokens \<Rightarrow> Some (maxTokens, maxOutputTokens)))))"

definition outputBound :: "int64 option \<Rightarrow> int64 option \<times> int64 option \<Rightarrow> int64 option" where
  "outputBound limit meta =
     (let asked = (case snd meta of Some x \<Rightarrow> Some x | None \<Rightarrow> fst meta) in
      case limit of
        None \<Rightarrow> None
      | Some lim \<Rightarrow> (case asked of None \<Rightarrow> Some lim | Some x \<Rightarrow> if x > lim then Some lim else Some x))"

definition decodedBody :: "body \<Rightarrow> json option" where
  "decodedBody body = (case body of Some (Inr v) \<Rightarrow> Some v | _ \<Rightarrow> None)"

definition boundCost :: "int64 option \<Rightarrow> int64 option \<Rightarrow> PriceSchedule \<Rightarrow> bool \<Rightarrow> int64 option res" where
  "boundCost input outp price cacheRates =
     (case (input, outp) of
        (Some i, Some u) \<Rightarrow>
          if \<not> cacheRates then Inr None
          else (case EstimateBound i u (Some price) of
                  Inr cost \<Rightarrow> Inr (Some cost)
                | Inl e \<Rightarrow> if e \<noteq> ErrUnknownCost then
                            Inl (Problem ''unsupported_policy'' 400 ''cost bound is not representable'')
                          else Inr None)
      | _ \<Rightarrow> Inr None)"

definition boundModel :: "AttemptPlan \<Rightarrow> Model \<Rightarrow> body \<Rightarrow> AttemptPlan res" where
  "boundModel out m body =
     (case boundMeta body of
        None \<Rightarrow> Inl (Problem ''invalid_request'' 400 ''request metadata is invalid'')
      | Some meta \<Rightarrow>
          let input = md_ContextLimit m;
              outp = outputBound (md_OutputLimit m) meta;
              negative = (\<lambda>v. case v of None \<Rightarrow> False | Some x \<Rightarrow> x < 0);
              out1 = out\<lparr>ap_InputBound := (case input of None \<Rightarrow> ap_InputBound out | Some x \<Rightarrow> Some x),
                         ap_OutputBound := (case outp of None \<Rightarrow> ap_OutputBound out | Some x \<Rightarrow> Some x)\<rparr>
          in if negative input \<or> negative outp then
               Inl (Problem ''unsupported_policy'' 400 ''negative token bound'')
             else case md_Price m of
               None \<Rightarrow> Inr out1
             | Some price \<Rightarrow>
                 let cacheRates = cachePricingAvailable (Some price) (cachePricingRequired (decodedBody body)) in
                 bindR (boundCost input outp price cacheRates) (\<lambda>cost.
                 let known = (case cost of Some c \<Rightarrow> Some c | None \<Rightarrow> ap_MaximumCost out);
                     bound = (if cacheRates \<and> known = None \<and> ps_UnitOperation price = ap_Operation out
                              then ps_MaximumUnitCost price else known)
                 in Inr (out1\<lparr>ap_PriceVersion := ps_Version price, ap_MaximumCost := bound\<rparr>)))"

datatype target =
    ModelTarget Connection Model string
  | ConnectionTarget Connection string string
  | NilModelTarget
  | NilConnectionTarget
  | OtherTarget

definition staleConnection :: "string \<Rightarrow> Connection \<Rightarrow> Connection option \<Rightarrow> bool" where
  "staleConnection tenant c snapConn =
     (case snapConn of
        None \<Rightarrow> True
      | Some sc \<Rightarrow> cn_TenantID sc \<noteq> tenant \<or> (cn_Version c \<noteq> 0 \<and> cn_Version c \<noteq> cn_Version sc)
                   \<or> cn_AccountID c \<noteq> cn_AccountID sc)"

definition aliasMatches :: "RuntimeSnapshot \<Rightarrow> string \<Rightarrow> string \<Rightarrow> string \<Rightarrow> unit res" where
  "aliasMatches snap alias connection model =
     (if alias = '''' then Inr ()
      else case map_of (sn_Aliases snap) alias of
        None \<Rightarrow> Inl (Problem ''invalid_target'' 404 ''alias is not configured'')
      | Some targets \<Rightarrow>
          if list_ex (\<lambda>rt. rt_ConnectionID rt = connection \<and> rt_ModelID rt = model) targets then Inr ()
          else Inl (Problem ''invalid_target'' 400 ''alias target is not configured''))"

text \<open>The target part of a plan: the bounded plan, the alias, the connection, the model and the account.\<close>

definition planTarget :: "Principal \<Rightarrow> RuntimeSnapshot \<Rightarrow> target \<Rightarrow> Operation \<Rightarrow> body \<Rightarrow> AttemptPlan
    \<Rightarrow> (AttemptPlan \<times> string \<times> string \<times> string \<times> string) res" where
  "planTarget p snap tgt op body out =
     (case tgt of
        NilModelTarget \<Rightarrow> Inl (Problem ''invalid_target'' 400 ''nil model target'')
      | NilConnectionTarget \<Rightarrow> Inl (Problem ''invalid_target'' 400 ''nil connection target'')
      | OtherTarget \<Rightarrow> Inl (Problem ''invalid_target'' 400 ''unsupported target'')
      | ConnectionTarget c action rid \<Rightarrow>
          if \<not> validRef (cn_ID c) \<or> cn_TenantID c \<noteq> pr_TenantID p then
            Inl (Problem ''invalid_target'' 400 ''connection target is invalid'')
          else if staleConnection (pr_TenantID p) c (map_of (sn_Connections snap) (cn_ID c)) then
            Inl (Problem ''invalid_target'' 409 ''connection snapshot is stale'')
          else Inr (out, '''', cn_ID c, '''', cn_AccountID c)
      | ModelTarget c tm alias \<Rightarrow>
          let connection = cn_ID c; model = md_CatalogID tm in
          if \<not> validRef connection \<or> \<not> validRef model \<or> \<not> validRef (md_ID tm)
             \<or> cn_TenantID c \<noteq> pr_TenantID p \<or> md_ConnectionID tm \<noteq> connection then
            Inl (Problem ''invalid_target'' 400 ''model target references are invalid'')
          else if staleConnection (pr_TenantID p) c (map_of (sn_Connections snap) connection) then
            Inl (Problem ''invalid_target'' 409 ''connection snapshot is stale'')
          else case map_of (sn_Models snap) model of
            None \<Rightarrow> Inl (Problem ''invalid_target'' 404 ''model is not configured'')
          | Some sm \<Rightarrow>
              if md_ConnectionID sm \<noteq> connection then Inl (Problem ''invalid_target'' 404 ''model is not configured'')
              else bindR (aliasMatches snap (alias) connection model) (\<lambda>_.
                if \<not> hasOperation (md_Operations sm) op then
                  Inl (Problem ''operation_not_supported'' 400 ''model does not support operation'')
                else bindR (boundModel (out\<lparr>ap_Alias := alias\<rparr>) sm body) (\<lambda>bounded.
                  Inr (bounded, alias, connection, model, cn_AccountID c))))"

definition PlanAttempt :: "Principal \<Rightarrow> RuntimeSnapshot \<Rightarrow> target \<Rightarrow> Operation \<Rightarrow> body \<Rightarrow> AttemptPlan \<Rightarrow> AttemptPlan res" where
  "PlanAttempt p snap tgt op body inp =
     (if \<not> validRef op then Inl (Problem ''invalid_target'' 400 ''operation is required'')
      else bindR (planIdentity p inp) (\<lambda>_.
        if sn_Revision snap < 0 then Inl (Problem ''invalid_configuration'' 500 ''negative configuration revision'')
        else
          bindR (planTarget p snap tgt op body
                   (inp\<lparr>ap_TenantID := pr_TenantID p, ap_KeyID := pr_KeyID p, ap_KeyRevision := pr_KeyRevision p,
                        ap_ConfigRevision := sn_Revision snap, ap_Allowances := [], ap_MaximumCost := None,
                        ap_PriceVersion := '''', ap_Operation := op\<rparr>))
            (\<lambda>(out, alias, connection, model, account).
            if (ap_ConnectionID inp \<noteq> '''' \<and> ap_ConnectionID inp \<noteq> connection)
               \<or> (ap_ModelID inp \<noteq> '''' \<and> ap_ModelID inp \<noteq> model)
               \<or> (ap_AccountID inp \<noteq> '''' \<and> ap_AccountID inp \<noteq> account) then
              Inl (Problem ''forbidden'' 403 ''attempt target binding is immutable'')
            else if alias = '''' \<and> op = ''realtime'' \<and> pr_NativeAccount p \<and> pr_Realtime p then
              (if \<not> connectionGrant p connection then
                 Inl (Problem ''forbidden'' 403 ''native realtime connection grant is required'')
               else Inr (out\<lparr>ap_ConnectionID := connection, ap_ModelID := model, ap_AccountID := account\<rparr>))
            else if \<not> permitted p alias connection op then
              Inl (Problem ''forbidden'' 403 ''key is not permitted for target operation'')
            else Inr (out\<lparr>ap_ConnectionID := connection, ap_ModelID := model, ap_AccountID := account\<rparr>))))"

section \<open>Limits of an attempt\<close>

definition policyScopeMatches :: "string \<Rightarrow> string \<Rightarrow> AttemptPlan \<Rightarrow> bool" where
  "policyScopeMatches scope rid p =
     (if scope = ''tenant'' then rid = ap_TenantID p
      else if scope = ''key'' then rid = ap_KeyID p
      else if scope = ''connection'' then rid = ap_ConnectionID p
      else if scope = ''account'' then rid = ap_AccountID p
      else if scope = ''model'' then rid = ap_ModelID p
      else False)"

text \<open>
  \<open>fmt.Sscan\<close> of the start of a minute window, on the decimal text that \<open>currentWindowID\<close> writes.
\<close>

definition scanInt :: "string \<Rightarrow> int64 option" where
  "scanInt t =
     (case t of
        [] \<Rightarrow> None
      | c # rest \<Rightarrow>
          if c = CHR ''-'' then (if rest \<noteq> [] \<and> list_all isDigit rest then Some (- int (parseNat rest)) else None)
          else if list_all isDigit t then Some (int (parseNat t)) else None)"

definition windowActive :: "string \<Rightarrow> string \<Rightarrow> int64 \<Rightarrow> Store \<Rightarrow> bool" where
  "windowActive tenant wid now s =
     (if wid = ''total'' then True
      else case map_of (st_quota_windows s) (tenant, wid) of
        Some w \<Rightarrow> qw_starts w \<le> now \<and> now < qw_ends w
      | None \<Rightarrow>
          if hasPrefix wid ''60:'' then
            (case scanInt (drop 3 wid) of Some start \<Rightarrow> start \<le> now \<and> now < start + 60 | None \<Rightarrow> False)
          else False)"

definition windowPrefix :: "string \<Rightarrow> string" where
  "windowPrefix wid = takeWhile (\<lambda>c. c \<noteq> CHR '':'') wid"

definition rollWindow :: "int64 \<Rightarrow> limitKey \<Rightarrow> policyLimitRow \<Rightarrow> string \<Rightarrow> Store \<Rightarrow> Store" where
  "rollWindow now key row nw s =
     (case key of (tenant, scope, rid, wid, kind) \<Rightarrow>
        s\<lparr>st_quota_windows := AList.update (tenant, nw)
             \<lparr>qw_starts = fst (windowBounds now (windowPrefix wid)), qw_ends = snd (windowBounds now (windowPrefix wid))\<rparr>
             (st_quota_windows s),
          st_policy_limits := insertNew (tenant, scope, rid, nw, kind)
             \<lparr>lm_maximum = lm_maximum row, lm_reserve = lm_reserve row, lm_version = 1\<rparr> (st_policy_limits s),
          st_allowances := insertNew (tenant, scope, rid, nw, kind) \<lparr>aw_reserved = 0, aw_version = 1\<rparr> (st_allowances s)\<rparr>)"

definition requiredAmount :: "AttemptPlan \<Rightarrow> string \<Rightarrow> int64 res" where
  "requiredAmount p kind =
     (if kind = ''tokens'' then
        (case (ap_InputBound p, ap_OutputBound p) of
           (Some i, Some u) \<Rightarrow>
             (case CheckedAdd i u of
                Inr r \<Rightarrow> Inr r
              | Inl _ \<Rightarrow> Inl (Problem ''unsupported_policy'' 400 ''token bound is not representable''))
         | _ \<Rightarrow> Inl (Problem ''unsupported_policy'' 400 ''token policy requires bounded input and output''))
      else if kind = ''cost'' then
        (case ap_MaximumCost p of
           Some c \<Rightarrow> Inr c
         | None \<Rightarrow> Inl (Problem ''unsupported_policy'' 400 ''cost policy requires bounded price''))
      else Inr 1)"

definition limitStep :: "int64 \<Rightarrow> AttemptPlan \<Rightarrow> bool \<Rightarrow> limitKey \<times> policyLimitRow \<Rightarrow> Allowance list \<times> Store
    \<Rightarrow> (Allowance list \<times> Store) res" where
  "limitStep now p create kr acc =
     (case kr of ((tenant, scope, rid, wid, kind), row) \<Rightarrow>
        if \<not> policyScopeMatches scope rid p \<or> lm_maximum row \<le> 0 then Inr acc
        else
          let s = snd acc;
              active = windowActive tenant wid now s;
              nw = currentWindowID now (windowPrefix wid);
              roll = \<not> active \<and> create \<and> nw \<noteq> '''';
              s1 = (if roll then rollWindow now (fst kr) row nw s else s);
              wid1 = (if roll then nw else wid)
          in if active \<or> roll then
               bindR (requiredAmount p kind) (\<lambda>required.
               Inr (fst acc @ [\<lparr>al_ScopeKind = scope, al_ScopeID = rid, al_WindowID = wid1, al_Kind = kind,
                     al_Maximum = lm_maximum row, al_Reserve = required\<rparr>], s1))
             else Inr (fst acc, s1))"

definition resolveAllowances :: "int64 \<Rightarrow> bool \<Rightarrow> AttemptPlan \<Rightarrow> Store \<Rightarrow> (AttemptPlan \<times> Store) res" where
  "resolveAllowances now create p s =
     bindR (foldR (limitStep now p create)
              (sort_key fst (filter (\<lambda>((t, k), r). t = ap_TenantID p) (st_policy_limits s))) ([], s))
       (\<lambda>(allowances, s'). Inr (p\<lparr>ap_Allowances := allowances\<rparr>, s'))"

section \<open>The authoritative plan\<close>

definition validatePlan :: "AttemptPlan \<Rightarrow> unit res" where
  "validatePlan p =
     (if ap_TenantID p = '''' \<or> ap_RequestID p = '''' \<or> ap_AttemptID p = '''' then
        Inl (GoErr ''attempt identity is required'')
      else if isZeroTime (ap_Deadline p) then Inl (GoErr ''attempt deadline is required'')
      else if list_ex (\<lambda>a. al_ScopeKind a = '''' \<or> al_ScopeID a = '''' \<or> al_WindowID a = '''' \<or> al_Kind a = ''''
                \<or> al_Maximum a < 0 \<or> al_Reserve a < 0 \<or> al_Reserve a > al_Maximum a) (ap_Allowances p) then
        Inl (GoErr ''invalid allowance'')
      else Inr ())"

definition planMaximumCost :: "int64 option \<Rightarrow> int64 option \<Rightarrow> PriceSchedule option \<Rightarrow> Operation \<Rightarrow> int64 option res" where
  "planMaximumCost input outp price operation =
     (case price of
        None \<Rightarrow> Inr None
      | Some pr \<Rightarrow>
          let unit = (if ps_UnitOperation pr = operation then ps_MaximumUnitCost pr else None) in
          (case (input, outp) of
             (Some i, Some u) \<Rightarrow>
               (case EstimateBound i u (Some pr) of
                  Inr cost \<Rightarrow> Inr (Some cost)
                | Inl e \<Rightarrow> if e \<noteq> ErrUnknownCost then Inl e else Inr unit)
           | _ \<Rightarrow> Inr unit))"

definition authRequired :: "string \<Rightarrow> go_error" where
  "authRequired msg = Problem ''authentication_required'' 401 msg"

definition sessionGuard :: "int64 \<Rightarrow> Principal option \<Rightarrow> AttemptPlan \<Rightarrow> Store \<Rightarrow> unit res" where
  "sessionGuard now ctxP p s =
     (case ctxP of
        None \<Rightarrow> Inl (authRequired ''admin session is required'')
      | Some caller \<Rightarrow>
          if pr_TenantID caller \<noteq> ap_TenantID p \<or> pr_SessionID caller = '''' \<or> pr_SubjectID caller = '''' then
            Inl (authRequired ''admin session is required'')
          else case durableGetAny asSession ''admin_session'' (pr_SessionID caller) s of
            Inl _ \<Rightarrow> Inl (authRequired ''admin session is invalid'')
          | Inr (t, v, sess) \<Rightarrow>
              if unixTime (ss_ExpiresAt sess) \<le> now \<or> pr_TenantID (ss_Principal sess) \<noteq> ap_TenantID p
                 \<or> pr_SubjectID (ss_Principal sess) \<noteq> pr_SubjectID caller then
                Inl (authRequired ''admin session is invalid'')
              else case resolveMembershipTx (ap_TenantID p) (pr_SubjectID caller) s of
                Inl _ \<Rightarrow> Inl (authRequired ''admin session is invalid'')
              | Inr current \<Rightarrow>
                  if pr_Role current \<in> {''owner'', ''admin'', ''operator''} then Inr ()
                  else Inl (Problem ''forbidden'' 403 ''admin role cannot execute playground''))"

definition keyGuard :: "AttemptPlan \<Rightarrow> Store \<Rightarrow> unit res" where
  "keyGuard p s =
     (case resolveActiveKeyTx (ap_TenantID p) (ap_KeyID p) (ap_KeyRevision p) s of
        Inl _ \<Rightarrow> Inl (authRequired ''key is not active'')
      | Inr activeKey \<Rightarrow>
          if pr_Role activeKey \<noteq> ''admin'' \<and> \<not> connectionGrant activeKey (ap_ConnectionID p)
             \<and> \<not> hasString (pr_Permissions activeKey) ''*'' then
            Inl (Problem ''forbidden'' 403 ''key is not permitted for connection'')
          else Inr ())"

definition stale :: "string \<Rightarrow> go_error" where
  "stale msg = Problem ''configuration_stale'' 409 msg"

definition priceGuard :: "AttemptPlan \<Rightarrow> PriceSchedule option \<Rightarrow> unit res" where
  "priceGuard p price =
     (case price of
        Some pr \<Rightarrow>
          if ps_Version pr \<noteq> ap_PriceVersion p then Inl (stale ''price version changed'')
          else (case ap_MaximumCost p of
            None \<Rightarrow> Inr ()
          | Some c \<Rightarrow>
              (case planMaximumCost (ap_InputBound p) (ap_OutputBound p) price (ap_Operation p) of
                 Inl _ \<Rightarrow> Inl (Problem ''invalid_configuration'' 500 ''stored price is invalid'')
               | Inr want \<Rightarrow> if want = Some c then Inr () else Inl (stale ''cost bound changed'')))
      | None \<Rightarrow>
          if ap_MaximumCost p \<noteq> None \<or> ap_PriceVersion p \<noteq> '''' then Inl (stale ''price bound changed'') else Inr ())"

definition modelGuard :: "AttemptPlan \<Rightarrow> Store \<Rightarrow> unit res" where
  "modelGuard p s =
     (if ap_ModelID p = '''' then Inr ()
      else case map_of (st_resources s) (ap_TenantID p, ''models'', ap_ModelID p) of
        None \<Rightarrow> Inl (Problem ''invalid_target'' 404 ''model is not configured'')
      | Some r \<Rightarrow>
          (case asModel (rs_data r) of
             None \<Rightarrow> Inl (Problem ''invalid_configuration'' 500 ''stored model reference is invalid'')
           | Some mx \<Rightarrow>
               if \<not> mo_Enabled mx \<or> mo_UpstreamID mx = '''' \<or> mo_ConnectionID mx \<noteq> ap_ConnectionID p then
                 Inl (Problem ''invalid_configuration'' 500 ''stored model reference is invalid'')
               else if \<not> hasOperationStrings (mo_Operations mx) (ap_Operation p) then
                 Inl (Problem ''unsupported_operation'' 400 ''model operation is disabled'')
               else if (case ap_InputBound p of None \<Rightarrow> False | Some i \<Rightarrow>
                         (case mo_ContextLimit mx of None \<Rightarrow> True | Some lim \<Rightarrow> lim < 0 \<or> i \<noteq> lim)) then
                 Inl (stale ''approved input context bound changed'')
               else if (case ap_OutputBound p of None \<Rightarrow> False | Some u \<Rightarrow>
                         (case mo_OutputLimit mx of None \<Rightarrow> True | Some lim \<Rightarrow> lim < 0 \<or> u < 0 \<or> u > lim)) then
                 Inl (stale ''approved output bound changed'')
               else priceGuard p (mo_Price mx)))"

definition connectionGuard :: "AttemptPlan \<Rightarrow> Store \<Rightarrow> unit res" where
  "connectionGuard p s =
     (if \<not> validRef (ap_ConnectionID p) then Inl (Problem ''invalid_target'' 400 ''connection reference is required'')
      else case map_of (st_resources s) (ap_TenantID p, ''connections'', ap_ConnectionID p) of
        None \<Rightarrow> Inl (Problem ''invalid_target'' 404 ''connection is not configured'')
      | Some r \<Rightarrow>
          (case asConnection (rs_data r) of
             None \<Rightarrow> Inl (stale ''connection binding invalid'')
           | Some cx \<Rightarrow>
               if \<not> cd_Enabled cx \<or> cd_Connector cx = '''' \<or> ap_AccountID p \<noteq> cd_AccountID cx then
                 Inl (stale ''connection binding invalid'')
               else Inr ()))"

definition derivePlanTx :: "int64 \<Rightarrow> Principal option \<Rightarrow> AttemptPlan \<Rightarrow> Store \<Rightarrow> (AttemptPlan \<times> Store) res" where
  "derivePlanTx now ctxP p s =
     bindR (validatePlan p) (\<lambda>_.
     bindR (if ap_KeyID p = '''' then sessionGuard now ctxP p s else keyGuard p s) (\<lambda>_.
     case st_config s of
       None \<Rightarrow> Inl ErrNoRows
     | Some cfg \<Rightarrow>
         if cfg < 0 \<or> ap_ConfigRevision p < 0 \<or> cfg \<noteq> ap_ConfigRevision p then
           Inl (stale ''configuration changed; retry planning'')
         else
           bindR (connectionGuard p s) (\<lambda>_.
           bindR (modelGuard p s) (\<lambda>_.
           resolveAllowances now True p s))))"

section \<open>Every matching limit is attached\<close>

lemma foldR_at:
  assumes "foldR f xs s = Inr s'" and "x \<in> set xs"
  obtains ys zs s1 s2 where "xs = ys @ x # zs" "foldR f ys s = Inr s1" "f x s1 = Inr s2" "foldR f zs s2 = Inr s'"
proof -
  from assms(2) obtain ys zs where xs: "xs = ys @ x # zs" by (meson split_list)
  with assms(1) show thesis by (auto simp: foldR_append bindR_Inr intro: that)
qed

lemma currentWindowID_prefix: "currentWindowID now pre \<noteq> '''' \<longleftrightarrow> pre \<in> {''60'', ''daily'', ''monthly''}"
  by (auto simp: currentWindowID_def Let_def)

lemma bounds_contain:
  assumes "0 \<le> now" and "pre \<in> {''60'', ''daily'', ''monthly''}"
  shows "fst (windowBounds now pre) \<le> now \<and> now < snd (windowBounds now pre)"
  using assms window_contains_minute [of now] window_contains_day [of now] window_contains_month [of now]
  by (auto simp: windowBounds_def Let_def)

lemma rollWindow_active:
  assumes "0 \<le> now" and "currentWindowID now (windowPrefix wid) = nw" "nw \<noteq> ''''"
    and "windowActive tenant w now s \<or> w = nw"
  shows "windowActive tenant w now (rollWindow now (tenant, scope, rid, wid, kind) row nw s)"
proof -
  have "fst (windowBounds now (windowPrefix wid)) \<le> now \<and> now < snd (windowBounds now (windowPrefix wid))"
    using assms currentWindowID_prefix [of now "windowPrefix wid"] by (intro bounds_contain) auto
  then show ?thesis using assms(4) by (auto simp: windowActive_def rollWindow_def split: option.splits if_splits)
qed

lemma limitStep_keeps:
  assumes "limitStep now p c ((tenant, k), row) (as, s) = Inr (as', s')" and "0 \<le> now"
  shows "(\<exists>bs. as' = as @ bs) \<and> (windowActive tenant w now s \<longrightarrow> windowActive tenant w now s')"
proof -
  obtain scope rid wid kind where "k = (scope, rid, wid, kind)" by (cases k)
  with assms show ?thesis
    by (auto simp: limitStep_def Let_def bindR_Inr intro: rollWindow_active split: if_splits)
qed

lemma limitSteps_keep:
  assumes "foldR (limitStep now p c) rows (as, s) = Inr (as', s')" and "0 \<le> now"
    and "\<forall>((t, k), r) \<in> set rows. t = tenant"
  shows "(\<exists>bs. as' = as @ bs) \<and> (windowActive tenant w now s \<longrightarrow> windowActive tenant w now s')"
  using assms(1,3)
proof (induction rows arbitrary: as s)
  case (Cons row rows)
  obtain k r where row: "row = ((tenant, k), r)" using Cons.prems(2) by auto
  from Cons.prems(1) obtain as1 s1 where 1: "limitStep now p c row (as, s) = Inr (as1, s1)"
    and rest: "foldR (limitStep now p c) rows (as1, s1) = Inr (as', s')" by (auto simp: bindR_Inr)
  from limitStep_keeps [OF 1 [unfolded row] assms(2), of w] Cons.IH [OF rest] Cons.prems(2)
  show ?case by auto
qed simp

definition coversLimit :: "limitKey \<Rightarrow> policyLimitRow \<Rightarrow> Allowance \<Rightarrow> bool" where
  "coversLimit key row a =
     (case key of (tenant, scope, rid, wid, kind) \<Rightarrow>
        al_ScopeKind a = scope \<and> al_ScopeID a = rid \<and> al_Kind a = kind \<and> al_Maximum a = lm_maximum row)"

lemma limitStep_attaches:
  assumes "limitStep now p True ((tenant, scope, rid, wid, kind), row) (as, s) = Inr (as', s')" and "0 \<le> now"
    and "policyScopeMatches scope rid p" "0 < lm_maximum row"
    and "wid = ''total'' \<or> windowPrefix wid \<in> {''60'', ''daily'', ''monthly''}"
  shows "\<exists>a \<in> set as'. coversLimit (tenant, scope, rid, wid, kind) row a \<and> requiredAmount p kind = Inr (al_Reserve a)
    \<and> windowActive tenant (al_WindowID a) now s'"
proof -
  have roll: "\<not> windowActive tenant wid now s \<Longrightarrow> currentWindowID now (windowPrefix wid) \<noteq> ''''"
    using assms(5) by (auto simp: windowActive_def currentWindowID_prefix)
  show ?thesis
  proof (cases "windowActive tenant wid now s")
    case True
    then show ?thesis using assms(1,3,4) by (auto simp: limitStep_def Let_def bindR_Inr coversLimit_def)
  next
    case False
    from False roll [OF False] assms(1-4) show ?thesis
      by (auto simp: limitStep_def Let_def bindR_Inr coversLimit_def intro: rollWindow_active)
  qed
qed

lemma resolveAllowances_attaches:
  assumes "resolveAllowances now True p s = Inr (p', s')" and "0 \<le> now"
    and row: "((ap_TenantID p, scope, rid, wid, kind), row) \<in> set (st_policy_limits s)"
    and "policyScopeMatches scope rid p" "0 < lm_maximum row"
    and "wid = ''total'' \<or> windowPrefix wid \<in> {''60'', ''daily'', ''monthly''}"
  shows "\<exists>a \<in> set (ap_Allowances p'). coversLimit (ap_TenantID p, scope, rid, wid, kind) row a
    \<and> requiredAmount p kind = Inr (al_Reserve a) \<and> windowActive (ap_TenantID p) (al_WindowID a) now s'"
proof -
  let ?rows = "sort_key fst (filter (\<lambda>((t, k), r). t = ap_TenantID p) (st_policy_limits s))"
  obtain as where run: "foldR (limitStep now p True) ?rows ([], s) = Inr (as, s')" and p': "p' = p\<lparr>ap_Allowances := as\<rparr>"
    using assms(1) by (auto simp: resolveAllowances_def bindR_pair_Inr)
  have "((ap_TenantID p, scope, rid, wid, kind), row) \<in> set ?rows" using row by simp
  from foldR_at [OF run this] obtain ys zs a1 s1 a2 s2 where rows: "?rows = ys @ ((ap_TenantID p, scope, rid, wid, kind), row) # zs"
    and at: "limitStep now p True ((ap_TenantID p, scope, rid, wid, kind), row) (a1, s1) = Inr (a2, s2)"
    and rest: "foldR (limitStep now p True) zs (a2, s2) = Inr (as, s')" by (metis surj_pair)
  have "set zs \<subseteq> set ?rows" unfolding rows by auto
  then have "\<forall>((t, k), r) \<in> set zs. t = ap_TenantID p" by auto
  note keep = limitSteps_keep [OF rest assms(2) this]
  from limitStep_attaches [OF at assms(2,4,5,6)] obtain a where a: "a \<in> set a2"
    "coversLimit (ap_TenantID p, scope, rid, wid, kind) row a" "requiredAmount p kind = Inr (al_Reserve a)"
    "windowActive (ap_TenantID p) (al_WindowID a) now s2" by blast
  then have "a \<in> set as" "windowActive (ap_TenantID p) (al_WindowID a) now s'"
    using keep [of "al_WindowID a"] by auto
  with a show ?thesis by (auto simp: p')
qed

text \<open>
  C32: No limit is skipped.  When the authoritative plan of an attempt is accepted, every stored limit
  that matches its tenant, key, connection, account or model has an allowance in the plan, with the
  limit's maximum, the full amount the attempt may consume, and a window that contains the present.
\<close>

theorem derived_plan_complete:
  assumes "derivePlanTx now ctxP p s = Inr (p', s')" and "0 \<le> now"
    and "((ap_TenantID p, scope, rid, wid, kind), row) \<in> set (st_policy_limits s)"
    and "policyScopeMatches scope rid p" "0 < lm_maximum row"
    and "wid = ''total'' \<or> windowPrefix wid \<in> {''60'', ''daily'', ''monthly''}"
  shows "\<exists>a \<in> set (ap_Allowances p'). coversLimit (ap_TenantID p, scope, rid, wid, kind) row a
    \<and> requiredAmount p kind = Inr (al_Reserve a) \<and> windowActive (ap_TenantID p) (al_WindowID a) now s'"
proof -
  have "resolveAllowances now True p s = Inr (p', s')"
    using assms(1) by (auto simp: derivePlanTx_def bindR_Inr)
  from resolveAllowances_attaches [OF this assms(2-6)] show ?thesis .
qed

section \<open>Rolled windows are counted twice\<close>

lemma currentWindowID_colon:
  "currentWindowID now pre \<noteq> '''' \<Longrightarrow> windowPrefix (currentWindowID now pre) = pre"
  by (auto simp: currentWindowID_def windowPrefix_def Let_def split: if_splits)

lemma rollWindow_inactive:
  assumes "\<not> windowActive tenant w now s" "w \<noteq> nw"
  shows "\<not> windowActive tenant w now (rollWindow now (tenant, scope, rid, wid, kind) row nw s)"
  using assms by (auto simp: windowActive_def rollWindow_def split: option.splits if_splits)

definition sameAllowance :: "string \<Rightarrow> string \<Rightarrow> string \<Rightarrow> string \<Rightarrow> Allowance \<Rightarrow> bool" where
  "sameAllowance scope rid wid kind a =
     (al_ScopeKind a = scope \<and> al_ScopeID a = rid \<and> al_WindowID a = wid \<and> al_Kind a = kind)"

text \<open>A window that is over stays over while the limits are resolved, as no window but the current one is written.\<close>

lemma limitStep_stale:
  assumes "limitStep now p c ((tenant, k), row) (as, s) = Inr (as', s')"
    and "\<not> windowActive tenant wid now s" "wid \<noteq> currentWindowID now (windowPrefix wid)"
  shows "\<not> windowActive tenant wid now s'"
proof -
  obtain scope rid w kind where k: "k = (scope, rid, w, kind)" by (cases k)
  have "wid \<noteq> currentWindowID now (windowPrefix w)" if "currentWindowID now (windowPrefix w) \<noteq> ''''"
    using assms(3) currentWindowID_colon [OF that] by auto
  with assms(1,2) show ?thesis
    by (auto simp: k limitStep_def Let_def bindR_Inr dest: rollWindow_inactive split: if_splits)
qed

lemma limitStep_current:
  assumes "limitStep now p True ((tenant, scope, rid, w, kind), row) (as, s) = Inr (as', s')"
    and "policyScopeMatches scope rid p" "0 < lm_maximum row" "nw = currentWindowID now (windowPrefix w)" "nw \<noteq> ''''"
    and "w = nw \<or> \<not> windowActive tenant w now s"
  shows "length (filter (sameAllowance scope rid nw kind) as') = Suc (length (filter (sameAllowance scope rid nw kind) as))"
  using assms by (auto simp: limitStep_def Let_def bindR_Inr sameAllowance_def split: if_splits)

lemma limitSteps_count:
  assumes "foldR (limitStep now p True) rows (as, s) = Inr (as', s')" and "0 \<le> now"
    and "\<forall>((t, k), r) \<in> set rows. t = tenant"
    and "policyScopeMatches scope rid p" "nw = currentWindowID now (windowPrefix wid)" "nw \<noteq> ''''" "wid \<noteq> nw"
    and "\<not> windowActive tenant wid now s"
  shows "length (filter (sameAllowance scope rid nw kind) as)
      + length (filter (\<lambda>(k, r). (k = (tenant, scope, rid, wid, kind) \<or> k = (tenant, scope, rid, nw, kind)) \<and> 0 < lm_maximum r) rows)
      \<le> length (filter (sameAllowance scope rid nw kind) as')"
  using assms(1,3,8)
proof (induction rows arbitrary: as s)
  case (Cons row rows)
  let ?K = "sameAllowance scope rid nw kind"
  let ?Q = "\<lambda>(k, r). (k = (tenant, scope, rid, wid, kind) \<or> k = (tenant, scope, rid, nw, kind)) \<and> 0 < lm_maximum r"
  obtain k r where row: "row = ((tenant, k), r)" using Cons.prems(2) by auto
  from Cons.prems(1) obtain as1 s1 where 1: "limitStep now p True row (as, s) = Inr (as1, s1)"
    and rest: "foldR (limitStep now p True) rows (as1, s1) = Inr (as', s')" by (auto simp: bindR_Inr)
  have "\<not> windowActive tenant wid now s1"
    using limitStep_stale [OF 1 [unfolded row]] Cons.prems(3) assms(5,7) by blast
  then have IH: "length (filter ?K as1) + length (filter ?Q rows) \<le> length (filter ?K as')"
    using Cons.IH [OF rest] Cons.prems(2) by simp
  have pre: "nw = currentWindowID now (windowPrefix nw)" using currentWindowID_colon assms(5,6) by metis
  show ?case
  proof (cases "?Q row")
    case True
    then obtain w where k: "k = (scope, rid, w, kind)" "w = wid \<or> w = nw" "0 < lm_maximum r" by (auto simp: row)
    have "length (filter ?K as1) = Suc (length (filter ?K as))"
      using limitStep_current [OF 1 [unfolded row k(1)] assms(4) k(3)] k(2) pre assms(5,6) Cons.prems(3) by blast
    with IH True show ?thesis by simp
  next
    case False
    obtain bs where "as1 = as @ bs" using limitStep_keeps [OF 1 [unfolded row] assms(2)] by blast
    then have "length (filter ?K as) \<le> length (filter ?K as1)" by simp
    with IH False show ?thesis by auto
  qed
qed simp

lemma two_members:
  assumes "x \<in> set xs" "y \<in> set xs" "x \<noteq> y" "Q x" "Q y"
  shows "2 \<le> length (filter Q xs)"
proof -
  have "{x, y} \<subseteq> set (filter Q xs)" using assms by auto
  then have "card {x, y} \<le> card (set (filter Q xs))" by (intro card_mono) simp_all
  also have "\<dots> \<le> length (filter Q xs)" by (rule card_length)
  finally show ?thesis using assms(3) by simp
qed

text \<open>
  C35: A window that has rolled over is charged twice.  Once both the row of a past window and the row
  of the present window of one limit are stored, as they are from the first admission after the
  rollover on, every later plan carries two allowances for the same counter, so each attempt
  reserves twice its amount.
\<close>

theorem rolled_window_twice:
  assumes "resolveAllowances now True p s = Inr (p', s')" and "0 \<le> now"
    and "policyScopeMatches scope rid p" "nw = currentWindowID now (windowPrefix wid)" "nw \<noteq> ''''" "wid \<noteq> nw"
    and "\<not> windowActive (ap_TenantID p) wid now s"
    and "((ap_TenantID p, scope, rid, wid, kind), old) \<in> set (st_policy_limits s)" "0 < lm_maximum old"
    and "((ap_TenantID p, scope, rid, nw, kind), new) \<in> set (st_policy_limits s)" "0 < lm_maximum new"
  shows "2 \<le> length (filter (sameAllowance scope rid nw kind) (ap_Allowances p'))"
proof -
  let ?rows = "sort_key fst (filter (\<lambda>((t, k), r). t = ap_TenantID p) (st_policy_limits s))"
  let ?Q = "\<lambda>(k, r). (k = (ap_TenantID p, scope, rid, wid, kind) \<or> k = (ap_TenantID p, scope, rid, nw, kind)) \<and> 0 < lm_maximum r"
  obtain as where run: "foldR (limitStep now p True) ?rows ([], s) = Inr (as, s')" and p': "p' = p\<lparr>ap_Allowances := as\<rparr>"
    using assms(1) by (auto simp: resolveAllowances_def bindR_pair_Inr)
  have "2 \<le> length (filter ?Q ?rows)"
    by (rule two_members [of "((ap_TenantID p, scope, rid, wid, kind), old)" _ "((ap_TenantID p, scope, rid, nw, kind), new)"])
      (use assms in auto)
  also have "\<dots> \<le> length (filter (sameAllowance scope rid nw kind) as)"
    using limitSteps_count [OF run assms(2) _ assms(3-7), of kind] by force
  finally show ?thesis by (simp add: p')
qed

section \<open>Examples\<close>

text \<open>
  A tenant with one key, one connection and two limits: five concurrent requests, and ten requests
  per minute whose row is that of the first minute.
\<close>

definition planKey :: keyData where
  "planKey = sampleKey\<lparr>kd_Connections := [''c1'']\<rparr>"

definition planConnection :: ConnectionData where
  "planConnection = \<lparr>cd_Connector = ''openai'', cd_AccountID = ''a1'', cd_BaseURL = '''', cd_Region = '''', cd_Project = '''',
     cd_Dedicated = False, cd_Enabled = True, cd_Settings = [], cd_ClientProfile = None\<rparr>"

definition planStore :: Store where
  "planStore = emptyStore\<lparr>
     st_tenants := [(''t1'', Some \<lparr>td_Name = ''T'', td_Enabled = True, td_AllowedOrigins = [], td_MaxBodyBytes = 0, td_MaxEventBytes = 0\<rparr>)],
     st_api_keys := [((''t1'', ''k1''), \<lparr>ky_version = 1, ky_verifier = ''v1'', ky_data = Some planKey, ky_revoked = False\<rparr>)],
     st_resources := [((''t1'', ''api_keys'', ''k1''), \<lparr>rs_version = 1, rs_data = KeyRes planKey 0\<rparr>),
       ((''t1'', ''connections'', ''c1''), \<lparr>rs_version = 1, rs_data = ConnectionRes planConnection\<rparr>)],
     st_policy_limits := [((''t1'', ''tenant'', ''t1'', ''total'', ''concurrency''), \<lparr>lm_maximum = 5, lm_reserve = 1, lm_version = 1\<rparr>),
       ((''t1'', ''tenant'', ''t1'', ''60:0'', ''requests''), \<lparr>lm_maximum = 10, lm_reserve = 1, lm_version = 1\<rparr>)],
     st_quota_windows := [((''t1'', ''60:0''), \<lparr>qw_starts = 0, qw_ends = 60\<rparr>)],
     st_allowances := [((''t1'', ''tenant'', ''t1'', ''total'', ''concurrency''), \<lparr>aw_reserved = 0, aw_version = 1\<rparr>),
       ((''t1'', ''tenant'', ''t1'', ''60:0'', ''requests''), \<lparr>aw_reserved = 0, aw_version = 1\<rparr>)]\<rparr>"

definition samplePlan :: AttemptPlan where
  "samplePlan = \<lparr>ap_TenantID = ''t1'', ap_RequestID = ''r1'', ap_AttemptID = ''at1'', ap_KeyID = ''k1'', ap_ConnectionID = ''c1'',
     ap_AccountID = ''a1'', ap_ModelID = '''', ap_PriceVersion = '''', ap_KeyRevision = 1, ap_ConfigRevision = 0,
     ap_MaximumCost = None, ap_Deadline = 600 * second, ap_Allowances = [], ap_Operation = ''generate'', ap_Alias = '''',
     ap_InputBound = None, ap_OutputBound = None, ap_UnitCount = None\<rparr>"

lemma resolveAllowances_ok:
  assumes "\<forall>((t, sc, i, w, kd), r) \<in> set (st_policy_limits s). isOk (requiredAmount p kd)"
  shows "\<exists>p' s'. resolveAllowances now c p s = Inr (p', s')"
proof -
  let ?rows = "sort_key fst (filter (\<lambda>((t, k), r). t = ap_TenantID p) (st_policy_limits s))"
  have "\<exists>acc. foldR (limitStep now p c) ?rows ([], s) = Inr acc \<and> True"
  proof (rule foldR_ok)
    fix x acc assume "x \<in> set ?rows"
    with assms obtain t sc i w kd r a where "x = ((t, sc, i, w, kd), r)" "requiredAmount p kd = Inr a"
      by (fastforce simp: isOk_iff)
    then show "\<exists>acc'. limitStep now p c x acc = Inr acc' \<and> True" by (simp add: limitStep_def Let_def)
  qed simp
  then show ?thesis by (auto simp: resolveAllowances_def)
qed

lemma planKey_decoded: "decodeKeyData (Some planKey) = Inr planKey"
  by (simp add: decodeKeyData_def planKey_def sampleKey_def validKeyOperations_def keyOperations_def)

lemma planStore_key: "resolveActiveKeyTx ''t1'' ''k1'' 1 planStore = Inr (principalForKey ''t1'' ''k1'' 1 planKey)"
  using planKey_decoded by (simp add: resolveActiveKeyTx_iff keyActive_def planStore_def)

lemma planKey_grants: "connectionGrant (principalForKey ''t1'' ''k1'' 1 planKey) ''c1''"
  by (simp add: connectionGrant_def principalForKey_def planKey_def sampleKey_def hasString_def)

lemma requiredAmount_sample: "requiredAmount samplePlan ''requests'' = Inr 1" "requiredAmount samplePlan ''concurrency'' = Inr 1"
  by (simp_all add: requiredAmount_def)

lemma samplePlan_guards:
  "validatePlan samplePlan = Inr ()" "keyGuard samplePlan planStore = Inr ()"
  "connectionGuard samplePlan planStore = Inr ()" "modelGuard samplePlan planStore = Inr ()"
proof -
  show "validatePlan samplePlan = Inr ()"
    by (simp add: validatePlan_def samplePlan_def isZeroTime_def zeroTime_def second_def)
  show "keyGuard samplePlan planStore = Inr ()"
    using planKey_grants planStore_key by (simp add: keyGuard_def samplePlan_def)
  have "validRef ''c1''" by (simp add: validRef_def str_eval)
  then show "connectionGuard samplePlan planStore = Inr ()"
    by (simp add: connectionGuard_def samplePlan_def planStore_def planConnection_def)
  show "modelGuard samplePlan planStore = Inr ()" by (simp add: modelGuard_def samplePlan_def)
qed

lemma derive_sample: "\<exists>p' s'. derivePlanTx now ctxP samplePlan planStore = Inr (p', s') \<and> resolveAllowances now True samplePlan planStore = Inr (p', s')"
proof -
  have "\<exists>p' s'. resolveAllowances now True samplePlan planStore = Inr (p', s')"
    by (rule resolveAllowances_ok) (simp add: planStore_def requiredAmount_sample)
  moreover have "st_config planStore = Some 0" by (simp add: planStore_def emptyStore_def)
  ultimately show ?thesis
    using samplePlan_guards by (simp add: derivePlanTx_def) (simp add: samplePlan_def)
qed

theorem derived_plan_complete_witness:
  "\<exists>p' s'. derivePlanTx 30 None samplePlan planStore = Inr (p', s')
     \<and> (\<exists>a \<in> set (ap_Allowances p'). al_Kind a = ''requests'' \<and> al_Maximum a = 10 \<and> al_Reserve a = 1)"
proof -
  obtain p' s' where d: "derivePlanTx 30 None samplePlan planStore = Inr (p', s')" using derive_sample by blast
  have "\<exists>a \<in> set (ap_Allowances p'). coversLimit (ap_TenantID samplePlan, ''tenant'', ''t1'', ''60:0'', ''requests'')
      \<lparr>lm_maximum = 10, lm_reserve = 1, lm_version = 1\<rparr> a
    \<and> requiredAmount samplePlan ''requests'' = Inr (al_Reserve a) \<and> windowActive (ap_TenantID samplePlan) (al_WindowID a) 30 s'"
    by (rule derived_plan_complete [OF d])
      (simp_all add: planStore_def samplePlan_def policyScopeMatches_def windowPrefix_def)
  with d show ?thesis by (auto simp: coversLimit_def requiredAmount_sample)
qed

definition rolledStore :: Store where
  "rolledStore = planStore\<lparr>
     st_policy_limits := st_policy_limits planStore @
       [((''t1'', ''tenant'', ''t1'', currentWindowID 90 ''60'', ''requests''), \<lparr>lm_maximum = 10, lm_reserve = 1, lm_version = 1\<rparr>)]\<rparr>"

theorem rolled_window_twice_witness:
  "\<exists>p' s'. resolveAllowances 90 True samplePlan rolledStore = Inr (p', s')
     \<and> 2 \<le> length (filter (sameAllowance ''tenant'' ''t1'' (currentWindowID 90 ''60'') ''requests'') (ap_Allowances p'))"
proof -
  have lim: "st_policy_limits rolledStore = st_policy_limits planStore @
      [((''t1'', ''tenant'', ''t1'', currentWindowID 90 ''60'', ''requests''), \<lparr>lm_maximum = 10, lm_reserve = 1, lm_version = 1\<rparr>)]"
    "map_of (st_quota_windows rolledStore) (''t1'', ''60:0'') = Some \<lparr>qw_starts = 0, qw_ends = 60\<rparr>"
    by (simp_all add: rolledStore_def planStore_def)
  have pl: "st_policy_limits planStore = [((''t1'', ''tenant'', ''t1'', ''total'', ''concurrency''), \<lparr>lm_maximum = 5, lm_reserve = 1, lm_version = 1\<rparr>),
       ((''t1'', ''tenant'', ''t1'', ''60:0'', ''requests''), \<lparr>lm_maximum = 10, lm_reserve = 1, lm_version = 1\<rparr>)]"
    by (simp add: planStore_def)
  obtain p' s' where r: "resolveAllowances 90 True samplePlan rolledStore = Inr (p', s')"
    using resolveAllowances_ok [of rolledStore samplePlan 90 True] by (auto simp: lim pl requiredAmount_sample)
  have t: "ap_TenantID samplePlan = ''t1''" by (simp add: samplePlan_def)
  have ids: "currentWindowID 90 ''60'' = ''60:60''" by (simp add: currentWindowID_def tquo_def formatInt_def formatNat.simps digitChar_def str_eval)
  have "2 \<le> length (filter (sameAllowance ''tenant'' ''t1'' (currentWindowID 90 ''60'') ''requests'') (ap_Allowances p'))"
    by (rule rolled_window_twice [OF r, where wid = "''60:0''" and old = "\<lparr>lm_maximum = 10, lm_reserve = 1, lm_version = 1\<rparr>"
          and new = "\<lparr>lm_maximum = 10, lm_reserve = 1, lm_version = 1\<rparr>"])
      (simp_all add: t lim pl policyScopeMatches_def windowPrefix_def windowActive_def ids)
  with r show ?thesis by blast
qed

end
