(* ===== verification/Admission.thy ===== *)
theory Admission
  imports Policy_Plan
begin

text \<open>
  Admission and settlement of attempts, from \<open>store/admission.go\<close>.  \<open>BeginAttempt\<close> reserves every
  allowance of the authoritative plan in one transaction and records the attempt with what it holds;
  \<open>MarkAccepted\<close> records dispatch; \<open>FinalizeAttempt\<close> moves the attempt to its outcome, brings every hold
  to what was used and charges the ledger once.  The database clock is \<open>now\<close>, the process clock \<open>clock\<close>.
  SQL arithmetic is exact: the guarded updates compare before they add, and an addition beyond
  the 64-bit range is never below a 64-bit maximum in either dialect.
\<close>

section \<open>Beginning an attempt\<close>

definition allowanceAmount :: "Allowance \<Rightarrow> int64" where
  "allowanceAmount a = al_Reserve a"

definition limitOf :: "string \<Rightarrow> Allowance \<Rightarrow> limitKey" where
  "limitOf tenant a = (tenant, al_ScopeKind a, al_ScopeID a, al_WindowID a, al_Kind a)"

definition attemptAmount :: "AttemptPlan \<Rightarrow> Allowance \<Rightarrow> int64 res" where
  "attemptAmount p a =
     (if al_Kind a = ''cost'' then
        (case ap_MaximumCost p of
           None \<Rightarrow> Inl (Problem ''unsupported_policy'' 400 ''cost policy requires a bounded model price'')
         | Some c \<Rightarrow> Inr c)
      else if al_Kind a = ''tokens'' then
        (case (ap_InputBound p, ap_OutputBound p) of
           (Some i, Some u) \<Rightarrow>
             (case CheckedAdd i u of
                Inl _ \<Rightarrow> Inl (Problem ''unsupported_policy'' 400 ''token bound is not representable'')
              | Inr r \<Rightarrow> Inr r)
         | _ \<Rightarrow> Inl (Problem ''unsupported_policy'' 400 ''token policy requires bounded input and output''))
      else if al_Kind a = ''requests'' \<or> al_Kind a = ''concurrency'' \<or> al_Kind a = ''jobs'' then Inr 1
      else Inr (allowanceAmount a))"

definition quotaExceeded :: "string \<Rightarrow> go_error" where
  "quotaExceeded msg = Problem ''quota_exceeded'' 429 msg"

definition addReserved :: "limitKey \<Rightarrow> int64 \<Rightarrow> allowanceRow \<Rightarrow> Store \<Rightarrow> Store" where
  "addReserved key delta r s =
     s\<lparr>st_allowances := AList.update key
         \<lparr>aw_reserved = aw_reserved r + delta, aw_version = aw_version r + 1\<rparr> (st_allowances s)\<rparr>"

definition reserveAllowance :: "int64 \<Rightarrow> AttemptPlan \<Rightarrow> bool \<Rightarrow> Allowance \<Rightarrow> int64 list \<times> Store \<Rightarrow> (int64 list \<times> Store) res" where
  "reserveAllowance now p seenRequest a acc =
     (let held = fst acc; s = snd acc; key = limitOf (ap_TenantID p) a in
      bindR (attemptAmount p a) (\<lambda>amount.
      if amount = 0 \<or> (seenRequest \<and> al_Kind a = ''requests'') then Inr (held @ [0], s)
      else case map_of (st_policy_limits s) key of
        None \<Rightarrow> Inl (stale ''allowance policy is not configured'')
      | Some lim \<Rightarrow>
          if al_Maximum a \<le> 0 \<or> lm_maximum lim \<le> 0 \<or> al_Maximum a > lm_maximum lim \<or> amount > lm_maximum lim then
            Inl (quotaExceeded ''required allowance exceeds current policy'')
          else if al_WindowID a \<noteq> ''total''
                  \<and> (case map_of (st_quota_windows s) (ap_TenantID p, al_WindowID a) of
                       None \<Rightarrow> True
                     | Some w \<Rightarrow> now < qw_starts w \<or> now \<ge> qw_ends w) then
            Inl (quotaExceeded ''allowance window is expired'')
          else case map_of (st_allowances s) key of
            None \<Rightarrow> Inl (quotaExceeded ''allowance exceeded'')
          | Some r \<Rightarrow>
              if aw_reserved r + amount \<le> al_Maximum a then Inr (held @ [amount], addReserved key amount r s)
              else Inl (quotaExceeded ''allowance exceeded'')))"

definition sameAttempt :: "AttemptPlan \<Rightarrow> AttemptPlan \<Rightarrow> bool" where
  "sameAttempt a b =
     (ap_TenantID a = ap_TenantID b \<and> ap_RequestID a = ap_RequestID b \<and> ap_AttemptID a = ap_AttemptID b
      \<and> ap_KeyID a = ap_KeyID b \<and> ap_ConnectionID a = ap_ConnectionID b \<and> ap_AccountID a = ap_AccountID b
      \<and> ap_ModelID a = ap_ModelID b \<and> ap_KeyRevision a = ap_KeyRevision b
      \<and> ap_ConfigRevision a = ap_ConfigRevision b \<and> ap_Deadline a = ap_Deadline b)"

definition replayAttempt :: "AttemptPlan \<Rightarrow> AttemptPlan \<Rightarrow> attemptRow \<Rightarrow> AttemptPermit res" where
  "replayAttempt p submitted row =
     (case at_Data row of
        None \<Rightarrow> Inl (Problem ''invalid_configuration'' 500 ''stored attempt envelope is invalid'')
      | Some old \<Rightarrow>
          let original = (if ap_AttemptID (ev_Submitted old) = '''' then ev_Plan old else ev_Submitted old) in
          if \<not> sameAttempt original submitted then
            Inl (Problem ''conflict'' 409 ''attempt identity is already bound to another plan'')
          else if at_State row = ''dispatch_intent'' \<or> at_State row = ''accepted'' then
            Inr \<lparr>pm_TenantID = ap_TenantID p, pm_RequestID = ap_RequestID p, pm_AttemptID = ap_AttemptID p,
                 pm_ConfigRevision = ap_ConfigRevision (ev_Plan old)\<rparr>
          else Inl (Problem ''attempt_already_settled'' 409 ''attempt already finalized''))"

definition pinnedPrice :: "AttemptPlan \<Rightarrow> Store \<Rightarrow> PriceSchedule option res" where
  "pinnedPrice p s =
     (if ap_ModelID p = '''' then Inr None
      else case map_of (st_resources s) (ap_TenantID p, ''models'', ap_ModelID p) of
        None \<Rightarrow> Inl ErrNoRows
      | Some r \<Rightarrow>
          (case asModel (rs_data r) of
             None \<Rightarrow> Inl decodeError
           | Some mx \<Rightarrow>
               (case mo_Price mx of
                  None \<Rightarrow> Inr None
                | Some pr \<Rightarrow>
                    if ps_Version pr \<noteq> ap_PriceVersion p then Inl (stale ''price version changed'') else Inr (Some pr))))"

definition activeKeyGuard :: "AttemptPlan \<Rightarrow> Store \<Rightarrow> unit res" where
  "activeKeyGuard p s =
     (if ap_KeyID p = '''' then Inr ()
      else case map_of (st_api_keys s) (ap_TenantID p, ap_KeyID p) of
        None \<Rightarrow> Inl (authRequired ''key was rotated or revoked'')
      | Some k \<Rightarrow>
          if ky_revoked k \<or> (ap_KeyRevision p \<noteq> 0 \<and> ky_version k \<noteq> ap_KeyRevision p) then
            Inl (authRequired ''key was rotated or revoked'')
          else Inr ())"

definition seenRequest :: "AttemptPlan \<Rightarrow> Store \<Rightarrow> bool" where
  "seenRequest p s = list_ex (\<lambda>((t, a), r). t = ap_TenantID p \<and> at_RequestID r = ap_RequestID p) (st_attempts s)"

definition newEnvelope :: "AttemptPlan \<Rightarrow> AttemptPlan \<Rightarrow> string \<Rightarrow> int64 list \<Rightarrow> int64 \<Rightarrow> PriceSchedule option \<Rightarrow> attemptEnvelope" where
  "newEnvelope p submitted subject held now price =
     \<lparr>ev_Plan = p, ev_Submitted = submitted, ev_SubjectID = subject, ev_Outcome = None, ev_Held = held,
      ev_ChargedCost = 0, ev_ChargedCostKnown = False, ev_Reconciled = False, ev_AcceptedEvidence = '''',
      ev_UpdatedAt = now, ev_ConcurrencyReleased = False, ev_Price = price\<rparr>"

definition insertAttempt :: "AttemptPlan \<Rightarrow> int64 \<Rightarrow> int64 \<Rightarrow> attemptEnvelope \<Rightarrow> Store \<Rightarrow> Store" where
  "insertAttempt p cfg now ev s =
     s\<lparr>st_attempts := AList.update (ap_TenantID p, ap_AttemptID p)
         \<lparr>at_RequestID = ap_RequestID p, at_State = ''dispatch_intent'', at_Version = cfg,
          at_Deadline = unixTime (ap_Deadline p), at_UpdatedAt = now, at_Data = Some ev\<rparr> (st_attempts s)\<rparr>"

definition admitNew :: "int64 \<Rightarrow> Principal option \<Rightarrow> int64 \<Rightarrow> AttemptPlan \<Rightarrow> AttemptPlan \<Rightarrow> AttemptPermit txn" where
  "admitNew now ctxP cfg submitted p s =
     bindR (foldR (reserveAllowance now p (seenRequest p s)) (ap_Allowances p) ([], s)) (\<lambda>(held, s2).
     bindR (pinnedPrice p s2) (\<lambda>price.
     Inr (\<lparr>pm_TenantID = ap_TenantID p, pm_RequestID = ap_RequestID p, pm_AttemptID = ap_AttemptID p,
           pm_ConfigRevision = cfg\<rparr>,
          insertAttempt p cfg now
            (newEnvelope p submitted (case ctxP of None \<Rightarrow> '''' | Some c \<Rightarrow> pr_SubjectID c) held now price) s2)))"

definition beginTx :: "int64 \<Rightarrow> Principal option \<Rightarrow> AttemptPlan \<Rightarrow> AttemptPermit txn" where
  "beginTx now ctxP submitted s0 =
     (if unixTime (ap_Deadline submitted) \<le> now then
        Inl (Problem ''deadline_exceeded'' 408 ''attempt deadline has expired'')
      else bindR (derivePlanTx now ctxP submitted s0) (\<lambda>(p, s).
        bindR (activeKeyGuard p s) (\<lambda>_.
        case st_config s of
          None \<Rightarrow> Inl (GoErr ''read config revision: sql: no rows in result set'')
        | Some cfg \<Rightarrow>
            if ap_ConfigRevision p \<noteq> 0 \<and> cfg \<noteq> ap_ConfigRevision p then
              Inl (stale ''configuration changed; retry planning'')
            else (case map_of (st_attempts s) (ap_TenantID p, ap_AttemptID p) of
              Some row \<Rightarrow> bindR (replayAttempt p submitted row) (\<lambda>permit. Inr (permit, s))
            | None \<Rightarrow> admitNew now ctxP cfg submitted p s))))"

definition BeginAttempt :: "txEnv \<Rightarrow> int64 \<Rightarrow> Principal option \<Rightarrow> AttemptPlan \<Rightarrow> Store \<Rightarrow> AttemptPermit res \<times> Store" where
  "BeginAttempt env now ctxP p s =
     (case validatePlan p of
        Inl e \<Rightarrow> (Inl e, s)
      | Inr _ \<Rightarrow> withTx env (beginTx now ctxP p) s)"

section \<open>Settling an attempt\<close>

definition padHeld :: "attemptEnvelope \<Rightarrow> int64 list" where
  "padHeld ev =
     (let n = length (ev_Held ev) in
      if n < length (ap_Allowances (ev_Plan ev)) then ev_Held ev @ map allowanceAmount (drop n (ap_Allowances (ev_Plan ev)))
      else ev_Held ev)"

definition loadAttempt :: "string \<Rightarrow> string \<Rightarrow> Store \<Rightarrow> (attemptEnvelope \<times> string \<times> int64) res" where
  "loadAttempt tenant rid s =
     (case map_of (st_attempts s) (tenant, rid) of
        None \<Rightarrow> Inl ErrNoRows
      | Some row \<Rightarrow>
          (case at_Data row of
             None \<Rightarrow> Inl decodeError
           | Some ev0 \<Rightarrow>
               let known = ev_ChargedCostKnown ev0 \<or> ev_ChargedCost ev0 \<noteq> 0
                     \<or> (case ev_Outcome ev0 of None \<Rightarrow> False | Some o1 \<Rightarrow> ao_ActualCost o1 \<noteq> None);
                   ev = ev0\<lparr>ev_ChargedCostKnown := known, ev_Held := padHeld ev0\<rparr>
               in if ap_TenantID (ev_Plan ev) \<noteq> tenant \<or> ap_AttemptID (ev_Plan ev) \<noteq> rid \<or> ap_RequestID (ev_Plan ev) = '''' then
                    Inl (Problem ''conflict'' 409 ''stored attempt identity differs'')
                  else Inr (ev, at_State row, at_Version row)))"

definition saveAttempt :: "attemptEnvelope \<Rightarrow> string \<Rightarrow> int64 \<Rightarrow> Store \<Rightarrow> Store res" where
  "saveAttempt ev state version s =
     (let key = (ap_TenantID (ev_Plan ev), ap_AttemptID (ev_Plan ev)) in
      case map_of (st_attempts s) key of
        None \<Rightarrow> Inl (GoErr ''attempt changed during finalization'')
      | Some row \<Rightarrow>
          if at_Version row \<noteq> version then Inl (GoErr ''attempt changed during finalization'')
          else Inr (s\<lparr>st_attempts := AList.update key
                 (row\<lparr>at_State := state, at_Version := at_Version row + 1, at_Deadline := unixTime (ap_Deadline (ev_Plan ev)),
                      at_UpdatedAt := ev_UpdatedAt ev, at_Data := Some ev\<rparr>) (st_attempts s)\<rparr>))"

definition adjustHoldMode :: "nat \<Rightarrow> int64 \<Rightarrow> bool \<Rightarrow> attemptEnvelope \<times> Store \<Rightarrow> (attemptEnvelope \<times> Store) res" where
  "adjustHoldMode index target allowOverrun es =
     (let ev = fst es; s = snd es in
      if index \<ge> length (ap_Allowances (ev_Plan ev)) \<or> target < 0 then Inl (GoErr ''invalid hold adjustment'')
      else
        let current = ev_Held ev ! index;
            a = ap_Allowances (ev_Plan ev) ! index;
            key = limitOf (ap_TenantID (ev_Plan ev)) a;
            done = (\<lambda>delta r. Inr (ev\<lparr>ev_Held := (ev_Held ev)[index := target]\<rparr>, addReserved key delta r s))
        in if target = current then Inr es
           else if target < current then
             (case map_of (st_allowances s) key of
                None \<Rightarrow> Inl (GoErr ''allowance changed during settlement'')
              | Some r \<Rightarrow>
                  if aw_reserved r \<ge> current - target then done (target - current) r
                  else Inl (GoErr ''allowance changed during settlement''))
           else if allowOverrun then
             (case map_of (st_allowances s) key of
                None \<Rightarrow> Inl (GoErr ''allowance changed or overflows during settlement'')
              | Some r \<Rightarrow>
                  if aw_reserved r \<le> maxInt64 - (target - current) then done (target - current) r
                  else Inl (GoErr ''allowance changed or overflows during settlement''))
           else if al_Maximum a < target - current then Inl (quotaExceeded ''allowance adjustment exceeded'')
           else
             (case map_of (st_allowances s) key of
                None \<Rightarrow> Inl (quotaExceeded ''allowance adjustment exceeded'')
              | Some r \<Rightarrow>
                  if aw_reserved r \<le> al_Maximum a - (target - current) then done (target - current) r
                  else Inl (quotaExceeded ''allowance adjustment exceeded'')))"

definition adjustHold :: "nat \<Rightarrow> int64 \<Rightarrow> attemptEnvelope \<times> Store \<Rightarrow> (attemptEnvelope \<times> Store) res" where
  "adjustHold index target es = adjustHoldMode index target False es"

definition adjustIncurredHold :: "nat \<Rightarrow> int64 \<Rightarrow> attemptEnvelope \<times> Store \<Rightarrow> (attemptEnvelope \<times> Store) res" where
  "adjustIncurredHold index target es = adjustHoldMode index target True es"

definition usageFields :: "Usage \<Rightarrow> int64 option list" where
  "usageFields u =
     [us_Input u, us_Output u, us_Total u, us_CachedInput u, us_CacheWriteInput u, us_CacheWrite5mInput u,
      us_CacheWrite1hInput u, us_ReasoningOutput u, us_ToolInput u]"

text \<open>\<open>normalizeUsage\<close>: the usage with its total filled in, whether it is valid, whether its total is known.\<close>

definition normalizeUsage :: "Usage option \<Rightarrow> Usage option \<times> bool \<times> bool" where
  "normalizeUsage input =
     (case input of
        None \<Rightarrow> (None, True, False)
      | Some u \<Rightarrow>
          if list_ex (\<lambda>v. case v of None \<Rightarrow> False | Some x \<Rightarrow> x < 0) (usageFields u) then (None, False, False)
          else (case (us_Input u, us_Output u) of
            (Some i, Some n) \<Rightarrow>
              (case CheckedAdd i n of
                 Inl _ \<Rightarrow> (Some u, True, False)
               | Inr tot \<Rightarrow>
                   (case us_Total u of
                      None \<Rightarrow> (Some (u\<lparr>us_Total := Some tot\<rparr>), True, True)
                    | Some t \<Rightarrow> (Some u, True, t = tot)))
          | _ \<Rightarrow> (Some u, True, us_Total u \<noteq> None)))"

definition alreadySettled :: go_error where
  "alreadySettled = Problem ''attempt_already_settled'' 409 ''attempt already finalized''"

text \<open>Whether an attempt in a state may move on: \<open>False\<close> when the call is a harmless repetition.\<close>

definition transitionGuard :: "string \<Rightarrow> string \<Rightarrow> bool res" where
  "transitionGuard state nxt =
     (if state = ''settled'' \<or> state = ''not_executed'' then (if state = nxt then Inr False else Inl alreadySettled)
      else if state = ''outcome_unknown'' then (if nxt = ''outcome_unknown'' then Inr False else Inl alreadySettled)
      else if state = ''job_pending'' then
        (if nxt = ''job_pending'' then Inr False
         else if nxt \<noteq> ''settled'' \<and> nxt \<noteq> ''outcome_unknown'' then Inl alreadySettled
         else Inr True)
      else if state = ''dispatch_intent'' \<or> state = ''accepted'' then Inr True
      else Inl (GoErr ''invalid attempt state''))"

record settlement =
  sl_State :: string
  sl_Outcome :: AttemptOutcome
  sl_UsageValid :: bool
  sl_TotalKnown :: bool
  sl_CostKnown :: bool

definition negativeCost :: "int64 option \<Rightarrow> bool" where
  "negativeCost c = (case c of None \<Rightarrow> False | Some x \<Rightarrow> x < 0)"

definition hasKind :: "string \<Rightarrow> Allowance list \<Rightarrow> bool" where
  "hasKind kind as = list_ex (\<lambda>a. al_Kind a = kind) as"

text \<open>What the reported outcome settles: the final state and the evidence that is known.\<close>

definition settle :: "string \<Rightarrow> AttemptOutcome \<Rightarrow> attemptEnvelope \<Rightarrow> settlement" where
  "settle nxt0 o0 ev =
     (let (usage, usageValid, totalKnown) = normalizeUsage (ao_Usage o0);
          bad = negativeCost (ao_ActualCost o0);
          nxt1 = (if bad \<and> nxt0 = ''settled'' then ''outcome_unknown'' else nxt0);
          cost1 = (if bad then None else ao_ActualCost o0);
          cost2 = (if nxt1 = ''settled'' \<and> cost1 = None \<and> usageValid then
                     (case EstimateUsageCost usage (ev_Price ev) of Inr c \<Rightarrow> Some c | Inl _ \<Rightarrow> None)
                   else cost1);
          costKnown = (nxt1 \<noteq> ''not_executed'' \<and> cost2 \<noteq> None);
          as = ap_Allowances (ev_Plan ev);
          nxt2 = (if nxt1 = ''settled'' \<and> ((hasKind ''cost'' as \<and> \<not> costKnown) \<or> (hasKind ''tokens'' as \<and> \<not> totalKnown))
                  then ''outcome_unknown'' else nxt1)
      in \<lparr>sl_State = nxt2, sl_Outcome = o0\<lparr>ao_State := nxt2, ao_Usage := usage, ao_ActualCost := cost2\<rparr>,
          sl_UsageValid = usageValid, sl_TotalKnown = totalKnown, sl_CostKnown = costKnown\<rparr>)"

definition holdTarget :: "settlement \<Rightarrow> Allowance \<Rightarrow> int64 \<Rightarrow> int64" where
  "holdTarget sl a current =
     (let nxt = sl_State sl in
      if nxt = ''not_executed'' then 0
      else if al_Kind a = ''concurrency'' \<and> (nxt = ''settled'' \<or> nxt = ''job_pending'') then 0
      else if al_Kind a = ''jobs'' \<and> nxt = ''settled'' then 0
      else if al_Kind a = ''tokens'' \<and> (nxt = ''settled'' \<or> nxt = ''outcome_unknown'') \<and> sl_UsageValid sl \<and> sl_TotalKnown sl
              \<and> (case ao_Usage (sl_Outcome sl) of None \<Rightarrow> False | Some u \<Rightarrow> us_Total u \<noteq> None) then
        the (us_Total (the (ao_Usage (sl_Outcome sl))))
      else if al_Kind a = ''cost'' \<and> (nxt = ''settled'' \<or> nxt = ''outcome_unknown'') \<and> sl_CostKnown sl then
        the (ao_ActualCost (sl_Outcome sl))
      else current)"

definition settleHold :: "settlement \<Rightarrow> nat \<Rightarrow> attemptEnvelope \<times> Store \<Rightarrow> (attemptEnvelope \<times> Store) res" where
  "settleHold sl i es =
     (let current = ev_Held (fst es) ! i;
          target = holdTarget sl (ap_Allowances (ev_Plan (fst es)) ! i) current
      in if target > current then adjustIncurredHold i target es else adjustHold i target es)"

definition chargeOnce :: "int64 \<Rightarrow> settlement \<Rightarrow> attemptEnvelope \<times> Store \<Rightarrow> attemptEnvelope \<times> Store" where
  "chargeOnce clock sl es =
     (let ev = fst es; s = snd es; o1 = sl_Outcome sl in
      if (sl_State sl = ''settled'' \<or> sl_State sl = ''outcome_unknown'') \<and> sl_CostKnown sl \<and> \<not> ev_ChargedCostKnown ev then
        (ev\<lparr>ev_ChargedCost := the (ao_ActualCost o1), ev_ChargedCostKnown := True\<rparr>,
         s\<lparr>st_usage_ledger := insertNew (ao_TenantID o1, ao_AttemptID o1 @ '':charge'')
             \<lparr>lg_attempt = ao_AttemptID o1, lg_kind = ''charge'', lg_amount = ao_ActualCost o1, lg_created = clock\<rparr>
             (st_usage_ledger s)\<rparr>)
      else es)"

text \<open>The writes of a settlement: every hold, the charge and the attempt's row.\<close>

definition applySettlement :: "int64 \<Rightarrow> settlement \<Rightarrow> attemptEnvelope \<Rightarrow> int64 \<Rightarrow> Store \<Rightarrow> Store res" where
  "applySettlement clock sl ev version s =
     bindR (foldR (settleHold sl) [0..<length (ap_Allowances (ev_Plan ev))] (ev, s)) (\<lambda>es.
     saveAttempt ((fst (chargeOnce clock sl es))\<lparr>ev_Outcome := Some (sl_Outcome sl), ev_UpdatedAt := clock\<rparr>)
       (sl_State sl) version (snd (chargeOnce clock sl es)))"

definition finalState :: "AttemptOutcome \<Rightarrow> string" where
  "finalState o0 = (if ao_State o0 = '''' then ''settled'' else ao_State o0)"

definition finalizeTx :: "int64 \<Rightarrow> AttemptOutcome \<Rightarrow> unit txn" where
  "finalizeTx clock o0 s =
     bindR (loadAttempt (ao_TenantID o0) (ao_AttemptID o0) s) (\<lambda>(ev, state, version).
     if ao_RequestID o0 \<noteq> '''' \<and> ao_RequestID o0 \<noteq> ap_RequestID (ev_Plan ev) then
       Inl (Problem ''conflict'' 409 ''request identity differs'')
     else if finalState o0 \<notin> {''settled'', ''outcome_unknown'', ''not_executed'', ''job_pending''} then
       Inl (GoErr ''invalid terminal attempt state'')
     else bindR (transitionGuard state (finalState o0)) (\<lambda>proceed.
       if \<not> proceed then Inr ((), s)
       else bindR (applySettlement clock (settle (finalState o0) o0 ev) ev version s) (\<lambda>s'. Inr ((), s'))))"

definition FinalizeAttempt :: "txEnv \<Rightarrow> int64 \<Rightarrow> AttemptOutcome \<Rightarrow> Store \<Rightarrow> unit res \<times> Store" where
  "FinalizeAttempt env clock o0 s =
     (if ao_TenantID o0 = '''' \<or> ao_AttemptID o0 = '''' then (Inl (GoErr ''attempt identity is required''), s)
      else withTx env (finalizeTx clock o0) s)"

definition acceptTx :: "int64 \<Rightarrow> AttemptPermit \<Rightarrow> string \<Rightarrow> unit txn" where
  "acceptTx clock permit evidence s =
     bindR (loadAttempt (pm_TenantID permit) (pm_AttemptID permit) s) (\<lambda>(ev, state, version).
     if state = ''accepted'' then
       (if ev_AcceptedEvidence ev = evidence then Inr ((), s)
        else Inl (Problem ''conflict'' 409 ''accepted evidence differs''))
     else if state \<noteq> ''dispatch_intent'' then Inl (GoErr ''attempt is not dispatchable'')
     else if pm_RequestID permit \<noteq> '''' \<and> pm_RequestID permit \<noteq> ap_RequestID (ev_Plan ev) then
       Inl (Problem ''conflict'' 409 ''request identity differs'')
     else bindR (saveAttempt (ev\<lparr>ev_AcceptedEvidence := evidence, ev_UpdatedAt := clock\<rparr>) ''accepted'' version s)
       (\<lambda>s'. Inr ((), s')))"

definition MarkAccepted :: "txEnv \<Rightarrow> int64 \<Rightarrow> AttemptPermit \<Rightarrow> string \<Rightarrow> Store \<Rightarrow> unit res \<times> Store" where
  "MarkAccepted env clock permit evidence s =
     (if pm_TenantID permit = '''' \<or> pm_AttemptID permit = '''' \<or> evidence = '''' then
        (Inl (GoErr ''accepted evidence is required''), s)
      else withTx env (acceptTx clock permit evidence) s)"

section \<open>Holds and reservations\<close>

text \<open>
  What an attempt holds of one counter, what all attempts hold of it together, and what the counter
  says is reserved.
\<close>

definition heldAt :: "limitKey \<Rightarrow> attemptEnvelope \<Rightarrow> int" where
  "heldAt K ev = (\<Sum>i<length (ap_Allowances (ev_Plan ev)).
     if limitOf (ap_TenantID (ev_Plan ev)) (ap_Allowances (ev_Plan ev) ! i) = K then ev_Held ev ! i else 0)"

definition rowHeld :: "limitKey \<Rightarrow> attemptRow \<Rightarrow> int" where
  "rowHeld K row = (case at_Data row of None \<Rightarrow> 0 | Some ev \<Rightarrow> heldAt K ev)"

definition heldTotal :: "Store \<Rightarrow> limitKey \<Rightarrow> int" where
  "heldTotal s K = sum_list (map (\<lambda>(k, row). rowHeld K row) (st_attempts s))"

definition reservedAt :: "Store \<Rightarrow> limitKey \<Rightarrow> int" where
  "reservedAt s K = (case map_of (st_allowances s) K of None \<Rightarrow> 0 | Some r \<Rightarrow> aw_reserved r)"

definition slack :: "Store \<Rightarrow> limitKey \<Rightarrow> int" where
  "slack s K = reservedAt s K - heldTotal s K"

definition envelopeOk :: "string \<times> string \<Rightarrow> attemptEnvelope \<Rightarrow> bool" where
  "envelopeOk key ev \<longleftrightarrow>
     ap_TenantID (ev_Plan ev) = fst key \<and> ap_AttemptID (ev_Plan ev) = snd key \<and> ap_RequestID (ev_Plan ev) \<noteq> ''''
     \<and> length (ev_Held ev) = length (ap_Allowances (ev_Plan ev)) \<and> list_all (\<lambda>h. 0 \<le> h) (ev_Held ev)"

definition backed :: "Store \<Rightarrow> attemptEnvelope \<Rightarrow> bool" where
  "backed s ev = list_all (\<lambda>a. map_of (st_allowances s) (limitOf (ap_TenantID (ev_Plan ev)) a) \<noteq> None)
     (ap_Allowances (ev_Plan ev))"

definition rowsOk :: "Store \<Rightarrow> bool" where
  "rowsOk s \<longleftrightarrow> tbl_ok (st_attempts s)
     \<and> list_all (\<lambda>(key, row). \<exists>ev. at_Data row = Some ev \<and> envelopeOk key ev \<and> backed s ev) (st_attempts s)"

lemma sum_list_update_table:
  fixes f :: "'k \<times> 'v \<Rightarrow> int"
  assumes "tbl_ok t"
  shows "sum_list (map f (AList.update k v t)) = sum_list (map f t) + f (k, v)
     - (case map_of t k of None \<Rightarrow> 0 | Some w \<Rightarrow> f (k, w))"
  using assms
proof (induction t)
  case (Cons kw t)
  then show ?case by (cases kw) (auto simp: tbl_ok_def map_of_eq_None_iff split: option.splits)
qed simp

lemma heldTotal_update:
  assumes "tbl_ok (st_attempts s)"
  shows "heldTotal (s\<lparr>st_attempts := AList.update key row (st_attempts s)\<rparr>) K = heldTotal s K + rowHeld K row
     - (case map_of (st_attempts s) key of None \<Rightarrow> 0 | Some r \<Rightarrow> rowHeld K r)"
  using sum_list_update_table [OF assms, of "\<lambda>(k, row). rowHeld K row" key row]
  by (auto simp: heldTotal_def split: option.splits)

lemma heldTotal_frame: "st_attempts s' = st_attempts s \<Longrightarrow> heldTotal s' K = heldTotal s K"
  by (simp add: heldTotal_def)

lemma reservedAt_frame: "st_allowances s' = st_allowances s \<Longrightarrow> reservedAt s' K = reservedAt s K"
  by (simp add: reservedAt_def)

lemma reservedAt_add:
  assumes "map_of (st_allowances s) key = Some r"
  shows "reservedAt (addReserved key delta r s) K = reservedAt s K + (if key = K then delta else 0)"
  using assms by (auto simp: reservedAt_def addReserved_def)

lemma addReserved_frame [simp]:
  "st_attempts (addReserved key delta r s) = st_attempts s" "st_usage_ledger (addReserved key delta r s) = st_usage_ledger s"
  "st_policy_limits (addReserved key delta r s) = st_policy_limits s" "st_resources (addReserved key delta r s) = st_resources s"
  "map_of (st_allowances (addReserved key delta r s)) k = None \<longleftrightarrow> k \<noteq> key \<and> map_of (st_allowances s) k = None"
  by (simp_all add: addReserved_def)

lemma heldAt_change:
  assumes "i < length (ap_Allowances (ev_Plan ev))" "length (ev_Held ev) = length (ap_Allowances (ev_Plan ev))"
  shows "heldAt K (ev\<lparr>ev_Held := (ev_Held ev)[i := t]\<rparr>) =
     heldAt K ev + (if limitOf (ap_TenantID (ev_Plan ev)) (ap_Allowances (ev_Plan ev) ! i) = K then t - ev_Held ev ! i else 0)"
proof -
  let ?n = "length (ap_Allowances (ev_Plan ev))"
  let ?f = "\<lambda>held j. if limitOf (ap_TenantID (ev_Plan ev)) (ap_Allowances (ev_Plan ev) ! j) = K then held ! j else (0::int)"
  have rest: "(\<Sum>j\<in>{..<?n} - {i}. ?f ((ev_Held ev)[i := t]) j) = (\<Sum>j\<in>{..<?n} - {i}. ?f (ev_Held ev) j)"
    by (rule sum.cong) auto
  have "(\<Sum>j<?n. ?f ((ev_Held ev)[i := t]) j) = ?f ((ev_Held ev)[i := t]) i + (\<Sum>j\<in>{..<?n} - {i}. ?f (ev_Held ev) j)"
    using assms(1) rest by (subst sum.remove [of "{..<?n}" i]) auto
  moreover have "(\<Sum>j<?n. ?f (ev_Held ev) j) = ?f (ev_Held ev) i + (\<Sum>j\<in>{..<?n} - {i}. ?f (ev_Held ev) j)"
    using assms(1) by (subst sum.remove [of "{..<?n}" i]) auto
  ultimately show ?thesis using assms by (simp add: heldAt_def cong: if_cong)
qed

section \<open>Adjusting a hold\<close>

text \<open>An adjustment changes the counter by exactly what it changes the hold by.\<close>

lemma adjustHoldMode_okD:
  assumes "adjustHoldMode i target mode (ev, s) = Inr (ev', s')"
    and "length (ev_Held ev) = length (ap_Allowances (ev_Plan ev))"
  shows "i < length (ap_Allowances (ev_Plan ev))" "0 \<le> target" "ev' = ev\<lparr>ev_Held := (ev_Held ev)[i := target]\<rparr>"
    "reservedAt s' K - heldAt K ev' = reservedAt s K - heldAt K ev"
    "st_attempts s' = st_attempts s" "st_usage_ledger s' = st_usage_ledger s"
    "map_of (st_allowances s') k = None \<longleftrightarrow> map_of (st_allowances s) k = None"
    "st_policy_limits s' = st_policy_limits s"
proof -
  let ?key = "limitOf (ap_TenantID (ev_Plan ev)) (ap_Allowances (ev_Plan ev) ! i)"
  show i: "i < length (ap_Allowances (ev_Plan ev))" and "0 \<le> target"
    using assms(1) by (auto simp: adjustHoldMode_def Let_def split: if_splits)
  have "(ev' = ev \<and> s' = s \<and> target = ev_Held ev ! i) \<or>
      (\<exists>r. map_of (st_allowances s) ?key = Some r \<and> ev' = ev\<lparr>ev_Held := (ev_Held ev)[i := target]\<rparr>
         \<and> s' = addReserved ?key (target - ev_Held ev ! i) r s)"
    using assms(1) by (auto simp: adjustHoldMode_def Let_def split: if_splits option.splits)
  then show "ev' = ev\<lparr>ev_Held := (ev_Held ev)[i := target]\<rparr>"
    "reservedAt s' K - heldAt K ev' = reservedAt s K - heldAt K ev"
    "st_attempts s' = st_attempts s" "st_usage_ledger s' = st_usage_ledger s"
    "map_of (st_allowances s') k = None \<longleftrightarrow> map_of (st_allowances s) k = None"
    "st_policy_limits s' = st_policy_limits s"
    using heldAt_change [OF i assms(2), of K target] by (auto simp: reservedAt_add)
qed

text \<open>When an adjustment succeeds: lowering needs the amount in the counter, raising needs room below the largest integer.\<close>

lemma adjustHoldMode_succeeds:
  assumes "i < length (ap_Allowances (ev_Plan ev))" "0 \<le> target"
    and "map_of (st_allowances s) (limitOf (ap_TenantID (ev_Plan ev)) (ap_Allowances (ev_Plan ev) ! i)) = Some r"
    and "target < ev_Held ev ! i \<Longrightarrow> ev_Held ev ! i - target \<le> aw_reserved r"
    and "ev_Held ev ! i < target \<Longrightarrow> mode \<and> aw_reserved r \<le> maxInt64 - (target - ev_Held ev ! i)"
  shows "\<exists>es. adjustHoldMode i target mode (ev, s) = Inr es"
  using assms by (auto simp: adjustHoldMode_def Let_def)

section \<open>Settlement keeps the books\<close>

definition adjusted :: "attemptEnvelope \<Rightarrow> Store \<Rightarrow> attemptEnvelope \<Rightarrow> Store \<Rightarrow> bool" where
  "adjusted ev s ev' s' \<longleftrightarrow>
     (\<exists>held. ev' = ev\<lparr>ev_Held := held\<rparr> \<and> length held = length (ev_Held ev)
        \<and> (list_all (\<lambda>h. 0 \<le> h) (ev_Held ev) \<longrightarrow> list_all (\<lambda>h. 0 \<le> h) held))
     \<and> (\<forall>K. reservedAt s' K - heldAt K ev' = reservedAt s K - heldAt K ev)
     \<and> st_attempts s' = st_attempts s \<and> st_usage_ledger s' = st_usage_ledger s \<and> st_policy_limits s' = st_policy_limits s
     \<and> (\<forall>k. map_of (st_allowances s') k = None \<longleftrightarrow> map_of (st_allowances s) k = None)"

lemma adjusted_refl: "adjusted ev s ev s"
  by (auto simp: adjusted_def intro!: exI [of _ "ev_Held ev"])

lemma adjusted_trans:
  assumes 1: "adjusted ev s ev1 s1" and 2: "adjusted ev1 s1 ev2 s2"
  shows "adjusted ev s ev2 s2"
proof -
  from 1 obtain h1 where h1: "ev1 = ev\<lparr>ev_Held := h1\<rparr>" "length h1 = length (ev_Held ev)"
    "list_all (\<lambda>h. 0 \<le> h) (ev_Held ev) \<longrightarrow> list_all (\<lambda>h. 0 \<le> h) h1" by (auto simp: adjusted_def)
  from 2 obtain h2 where h2: "ev2 = ev1\<lparr>ev_Held := h2\<rparr>" "length h2 = length (ev_Held ev1)"
    "list_all (\<lambda>h. 0 \<le> h) (ev_Held ev1) \<longrightarrow> list_all (\<lambda>h. 0 \<le> h) h2" by (auto simp: adjusted_def)
  from h1 h2 have "ev2 = ev\<lparr>ev_Held := h2\<rparr> \<and> length h2 = length (ev_Held ev)
      \<and> (list_all (\<lambda>h. 0 \<le> h) (ev_Held ev) \<longrightarrow> list_all (\<lambda>h. 0 \<le> h) h2)" by simp
  with 1 2 show ?thesis unfolding adjusted_def by auto
qed

lemma adjustHoldMode_adjusted:
  assumes "adjustHoldMode i target mode (ev, s) = Inr (ev', s')"
    and "length (ev_Held ev) = length (ap_Allowances (ev_Plan ev))"
  shows "adjusted ev s ev' s'"
proof -
  note d = adjustHoldMode_okD [OF assms]
  have "list_all (\<lambda>h. 0 \<le> h) (ev_Held ev) \<longrightarrow> list_all (\<lambda>h. 0 \<le> h) ((ev_Held ev)[i := target])"
    using d(2) by (auto simp: list_all_iff dest!: subsetD [OF set_update_subset_insert])
  with d show ?thesis unfolding adjusted_def by auto
qed

lemma adjusted_length:
  "adjusted ev s ev' s' \<Longrightarrow> ev_Plan ev' = ev_Plan ev \<and> length (ev_Held ev') = length (ev_Held ev)
     \<and> ev_ChargedCostKnown ev' = ev_ChargedCostKnown ev \<and> ev_ChargedCost ev' = ev_ChargedCost ev
     \<and> ev_Price ev' = ev_Price ev"
  by (auto simp: adjusted_def)

text \<open>A loop over the holds, each step of which leaves them alone or adjusts one.\<close>

lemma adjustLoop:
  assumes "foldR f is (ev, s) = Inr (ev', s')" and "length (ev_Held ev) = length (ap_Allowances (ev_Plan ev))"
    and body: "\<And>i es es'. f i es = Inr es' \<Longrightarrow> es' = es \<or> (\<exists>t mode. adjustHoldMode i t mode es = Inr es')"
  shows "adjusted ev s ev' s'"
proof -
  have "adjusted ev s (fst (ev', s')) (snd (ev', s'))"
  proof (rule foldR_invariant [OF assms(1), where P = "\<lambda>es. adjusted ev s (fst es) (snd es)"])
    fix i es es' assume inv: "adjusted ev s (fst es) (snd es)" and step: "f i es = Inr es'"
    from body [OF step] have "es' = es \<or> adjusted (fst es) (snd es) (fst es') (snd es')"
      using adjustHoldMode_adjusted [of i _ _ "fst es" "snd es" "fst es'" "snd es'"] adjusted_length [OF inv] assms(2) by auto
    with inv show "adjusted ev s (fst es') (snd es')" by (auto intro: adjusted_trans)
  qed (simp add: adjusted_refl)
  then show ?thesis by simp
qed

lemma settleHolds_adjusted:
  assumes "foldR (settleHold sl) is (ev, s) = Inr (ev', s')"
    and "length (ev_Held ev) = length (ap_Allowances (ev_Plan ev))"
  shows "adjusted ev s ev' s'"
  by (rule adjustLoop [OF assms])
     (auto simp: settleHold_def adjustHold_def adjustIncurredHold_def Let_def split: if_splits)

lemma rowsOkD:
  assumes "rowsOk s" "map_of (st_attempts s) key = Some row"
  shows "\<exists>ev. at_Data row = Some ev \<and> envelopeOk key ev \<and> backed s ev"
  using assms map_of_SomeD [OF assms(2)] by (auto simp: rowsOk_def list_all_iff)

lemma padHeld_ok: "length (ev_Held ev) = length (ap_Allowances (ev_Plan ev)) \<Longrightarrow> padHeld ev = ev_Held ev"
  by (simp add: padHeld_def)

lemma heldAt_cong: "ev_Plan ev' = ev_Plan ev \<Longrightarrow> ev_Held ev' = ev_Held ev \<Longrightarrow> heldAt K ev' = heldAt K ev"
  by (simp add: heldAt_def cong: if_cong)

lemma loadAttempt_ok:
  assumes "rowsOk s" "loadAttempt tenant rid s = Inr (ev, state, version)"
  shows "\<exists>row ev0. map_of (st_attempts s) (tenant, rid) = Some row \<and> at_Data row = Some ev0
     \<and> state = at_State row \<and> version = at_Version row \<and> envelopeOk (tenant, rid) ev \<and> backed s ev
     \<and> ev_Plan ev = ev_Plan ev0 \<and> ev_Held ev = ev_Held ev0 \<and> ev_ChargedCost ev = ev_ChargedCost ev0
     \<and> (\<not> ev_ChargedCostKnown ev \<longrightarrow> ev_ChargedCost ev0 = 0 \<and> \<not> ev_ChargedCostKnown ev0)"
proof -
  from assms(2) obtain row ev0 where row: "map_of (st_attempts s) (tenant, rid) = Some row" "at_Data row = Some ev0"
    and ev: "ev = ev0\<lparr>ev_ChargedCostKnown := ev_ChargedCostKnown ev, ev_Held := padHeld ev0\<rparr>"
      "state = at_State row" "version = at_Version row"
    and known: "\<not> ev_ChargedCostKnown ev \<longrightarrow> ev_ChargedCost ev0 = 0 \<and> \<not> ev_ChargedCostKnown ev0"
    by (auto simp: loadAttempt_def Let_def)
  from rowsOkD [OF assms(1) row(1)] row(2) have ok: "envelopeOk (tenant, rid) ev0" "backed s ev0" by auto
  then have "padHeld ev0 = ev_Held ev0" by (simp add: envelopeOk_def padHeld_ok)
  then have same: "ev_Plan ev = ev_Plan ev0" "ev_Held ev = ev_Held ev0" "ev_ChargedCost ev = ev_ChargedCost ev0"
    by (subst ev(1), simp)+
  from ok same have "envelopeOk (tenant, rid) ev" "backed s ev" by (auto simp: envelopeOk_def backed_def)
  with row ev(2,3) same known show ?thesis by blast
qed

text \<open>
  The effect of an operation on one attempt: its row is replaced, its plan is kept, and every
  counter moves with what the attempt holds.
\<close>

definition moved :: "string \<times> string \<Rightarrow> string \<Rightarrow> attemptEnvelope \<Rightarrow> Store \<Rightarrow> Store \<Rightarrow> bool" where
  "moved key state ev s s' \<longleftrightarrow>
     (\<exists>row ev0 row'. map_of (st_attempts s) key = Some row \<and> at_Data row = Some ev0
        \<and> st_attempts s' = AList.update key row' (st_attempts s) \<and> at_Data row' = Some ev
        \<and> at_State row' = state \<and> at_RequestID row' = at_RequestID row
        \<and> ev_Plan ev = ev_Plan ev0 \<and> envelopeOk key ev
        \<and> (\<forall>K. reservedAt s' K - heldAt K ev = reservedAt s K - heldAt K ev0))
     \<and> (\<forall>k. map_of (st_allowances s') k = None \<longleftrightarrow> map_of (st_allowances s) k = None)
     \<and> st_policy_limits s' = st_policy_limits s"

lemma moved_books:
  assumes "rowsOk s" "moved key state ev s s'"
  shows "slack s' K = slack s K" "rowsOk s'"
proof -
  from assms(2) obtain row ev0 row' where m: "map_of (st_attempts s) key = Some row" "at_Data row = Some ev0"
    "st_attempts s' = AList.update key row' (st_attempts s)" "at_Data row' = Some ev" "ev_Plan ev = ev_Plan ev0" "envelopeOk key ev"
    "\<And>K. reservedAt s' K - heldAt K ev = reservedAt s K - heldAt K ev0"
    and dom: "\<And>k. map_of (st_allowances s') k = None \<longleftrightarrow> map_of (st_allowances s) k = None"
    by (auto simp: moved_def)
  have "heldTotal s' K = heldTotal (s\<lparr>st_attempts := AList.update key row' (st_attempts s)\<rparr>) K"
    by (rule heldTotal_frame) (simp add: m(3))
  also have "\<dots> = heldTotal s K + heldAt K ev - heldAt K ev0"
    using assms(1) m by (simp add: heldTotal_update rowsOk_def rowHeld_def)
  finally show "slack s' K = slack s K" using m(7) [of K] by (simp add: slack_def)
  have keep: "backed s' e = backed s e" for e by (simp add: backed_def dom)
  have "backed s ev" using rowsOkD [OF assms(1) m(1)] m(2,5) by (auto simp: backed_def)
  moreover have "tbl_ok (st_attempts s')" using assms(1) by (simp add: m(3) rowsOk_def)
  moreover have "\<exists>e. at_Data r = Some e \<and> envelopeOk k e \<and> backed s' e" if "(k, r) \<in> set (st_attempts s')" for k r
  proof -
    have "map_of (st_attempts s') k = Some r" using that calculation(2) by (simp add: tbl_ok_def map_of_is_SomeI)
    then have "(k = key \<and> r = row') \<or> map_of (st_attempts s) k = Some r" by (auto simp: m(3) split: if_splits)
    then show ?thesis using rowsOkD [OF assms(1), of k r] m(4,6) calculation(1) by (auto simp: keep)
  qed
  ultimately show "rowsOk s'" by (auto simp: rowsOk_def list_all_iff)
qed

lemma saveAttempt_moved:
  assumes "saveAttempt ev' state version s2 = Inr s3" and "rowsOk s"
    and row: "map_of (st_attempts s) key = Some row" "at_Data row = Some ev0" "\<And>K. heldAt K ev0 = heldAt K ev" "ev_Plan ev = ev_Plan ev0"
    and adj: "adjusted ev s ev1 s1" "envelopeOk key ev"
    and s2: "st_attempts s2 = st_attempts s1" "st_allowances s2 = st_allowances s1" "st_policy_limits s2 = st_policy_limits s1"
    and ev': "ev_Plan ev' = ev_Plan ev1" "ev_Held ev' = ev_Held ev1"
  shows "moved key state ev' s s3"
proof -
  note plan = adjusted_length [OF adj(1)]
  have key: "(ap_TenantID (ev_Plan ev'), ap_AttemptID (ev_Plan ev')) = key"
    using adj(2) plan ev' by (cases key) (simp add: envelopeOk_def)
  have at: "st_attempts s1 = st_attempts s" and books: "\<And>K. reservedAt s1 K - heldAt K ev1 = reservedAt s K - heldAt K ev"
    and dom: "\<And>k. map_of (st_allowances s1) k = None \<longleftrightarrow> map_of (st_allowances s) k = None"
    and nonneg: "list_all (\<lambda>h. 0 \<le> h) (ev_Held ev) \<longrightarrow> list_all (\<lambda>h. 0 \<le> h) (ev_Held ev1)"
    and lim: "st_policy_limits s1 = st_policy_limits s"
    using adj(1) by (auto simp: adjusted_def)
  from assms(1) obtain row2 where row2: "map_of (st_attempts s2) key = Some row2"
    and s3: "s3 = s2\<lparr>st_attempts := AList.update key (row2\<lparr>at_State := state, at_Version := at_Version row2 + 1,
        at_Deadline := unixTime (ap_Deadline (ev_Plan ev')), at_UpdatedAt := ev_UpdatedAt ev', at_Data := Some ev'\<rparr>) (st_attempts s2)\<rparr>"
    unfolding saveAttempt_def Let_def key by (auto split: if_splits)
  have "row2 = row" using row2 row(1) by (simp add: s2 at)
  moreover have "envelopeOk key ev'" using adj(2) plan ev' nonneg by (simp add: envelopeOk_def)
  moreover have "reservedAt s3 K - heldAt K ev' = reservedAt s K - heldAt K ev0" for K
    using books [of K] heldAt_cong [OF ev'] by (simp add: s3 row(3) reservedAt_def s2)
  ultimately show ?thesis
    unfolding moved_def using row plan ev' dom lim by (auto simp: s3 s2 at)
qed

lemma finalizeTx_okD:
  assumes "finalizeTx clock o0 s = Inr (u, s')"
  obtains ev state version where "loadAttempt (ao_TenantID o0) (ao_AttemptID o0) s = Inr (ev, state, version)"
    "ao_RequestID o0 = '''' \<or> ao_RequestID o0 = ap_RequestID (ev_Plan ev)"
    "finalState o0 \<in> {''settled'', ''outcome_unknown'', ''not_executed'', ''job_pending''}"
    "transitionGuard state (finalState o0) = Inr False \<and> s' = s
     \<or> transitionGuard state (finalState o0) = Inr True
       \<and> applySettlement clock (settle (finalState o0) o0 ev) ev version s = Inr s'"
proof -
  from assms obtain ev state version where load: "loadAttempt (ao_TenantID o0) (ao_AttemptID o0) s = Inr (ev, state, version)"
    and 1: "\<not> (ao_RequestID o0 \<noteq> '''' \<and> ao_RequestID o0 \<noteq> ap_RequestID (ev_Plan ev))"
      "finalState o0 \<in> {''settled'', ''outcome_unknown'', ''not_executed'', ''job_pending''}"
    and 2: "bindR (transitionGuard state (finalState o0)) (\<lambda>proceed. if \<not> proceed then Inr ((), s)
       else bindR (applySettlement clock (settle (finalState o0) o0 ev) ev version s) (\<lambda>s'. Inr ((), s'))) = Inr (u, s')"
    unfolding finalizeTx_def by (cases "loadAttempt (ao_TenantID o0) (ao_AttemptID o0) s") (auto split: if_splits)
  from 2 obtain b where "transitionGuard state (finalState o0) = Inr b" "if b then
      applySettlement clock (settle (finalState o0) o0 ev) ev version s = Inr s' else s' = s"
    by (auto simp: bindR_Inr split: if_splits)
  then show thesis using that [OF load _ 1(2)] 1(1) by (cases b) auto
qed

lemma applySettlement_moved:
  assumes "rowsOk s" "loadAttempt tenant rid s = Inr (ev, state, version)" "applySettlement clock sl ev version s = Inr s'"
  obtains ev' where "moved (tenant, rid) (sl_State sl) ev' s s'"
proof -
  from assms(3) obtain ev1 s1 where fold: "foldR (settleHold sl) [0..<length (ap_Allowances (ev_Plan ev))] (ev, s) = Inr (ev1, s1)"
    and save: "saveAttempt ((fst (chargeOnce clock sl (ev1, s1)))\<lparr>ev_Outcome := Some (sl_Outcome sl), ev_UpdatedAt := clock\<rparr>)
       (sl_State sl) version (snd (chargeOnce clock sl (ev1, s1))) = Inr s'"
    by (auto simp: applySettlement_def bindR_Inr)
  from loadAttempt_ok [OF assms(1,2)] obtain row ev0 where row: "map_of (st_attempts s) (tenant, rid) = Some row"
    "at_Data row = Some ev0" "envelopeOk (tenant, rid) ev" "ev_Plan ev = ev_Plan ev0" "ev_Held ev = ev_Held ev0"
    using loadAttempt_ok [OF assms(1,2)] by blast
  have held: "heldAt K ev0 = heldAt K ev" for K using heldAt_cong [OF row(4,5)] by simp
  have adj: "adjusted ev s ev1 s1"
    using settleHolds_adjusted [OF fold] row(3) by (simp add: envelopeOk_def)
  have ch: "ev_Plan (fst (chargeOnce clock sl (ev1, s1))) = ev_Plan ev1" "ev_Held (fst (chargeOnce clock sl (ev1, s1))) = ev_Held ev1"
    "st_attempts (snd (chargeOnce clock sl (ev1, s1))) = st_attempts s1" "st_allowances (snd (chargeOnce clock sl (ev1, s1))) = st_allowances s1"
    "st_policy_limits (snd (chargeOnce clock sl (ev1, s1))) = st_policy_limits s1"
    by (auto simp: chargeOnce_def Let_def)
  have "moved (tenant, rid) (sl_State sl)
      ((fst (chargeOnce clock sl (ev1, s1)))\<lparr>ev_Outcome := Some (sl_Outcome sl), ev_UpdatedAt := clock\<rparr>) s s'"
    by (rule saveAttempt_moved [OF save assms(1) row(1,2) held row(4) adj row(3)]) (simp_all add: ch)
  then show thesis by (rule that)
qed

lemma finalizeTx_moved:
  assumes "rowsOk s" "finalizeTx clock o0 s = Inr (u, s')"
  shows "s' = s \<or> (\<exists>state ev. moved (ao_TenantID o0, ao_AttemptID o0) state ev s s')"
  using assms(2)
proof (rule finalizeTx_okD)
  fix ev state version
  assume load: "loadAttempt (ao_TenantID o0) (ao_AttemptID o0) s = Inr (ev, state, version)"
    and "transitionGuard state (finalState o0) = Inr False \<and> s' = s \<or> transitionGuard state (finalState o0) = Inr True
       \<and> applySettlement clock (settle (finalState o0) o0 ev) ev version s = Inr s'"
  then show ?thesis using applySettlement_moved [OF assms(1) load, of clock "settle (finalState o0) o0 ev" s'] by blast
qed

lemma acceptTx_moved:
  assumes "rowsOk s" "acceptTx clock permit evidence s = Inr (u, s')"
  shows "s' = s \<or> (\<exists>ev. moved (pm_TenantID permit, pm_AttemptID permit) ''accepted'' ev s s')"
proof -
  from assms(2) obtain ev state version where load: "loadAttempt (pm_TenantID permit) (pm_AttemptID permit) s = Inr (ev, state, version)"
    and "s' = s \<or> saveAttempt (ev\<lparr>ev_AcceptedEvidence := evidence, ev_UpdatedAt := clock\<rparr>) ''accepted'' version s = Inr s'"
    by (auto simp: acceptTx_def bindR_Inr split: prod.splits if_splits)
  then consider "s' = s" | "saveAttempt (ev\<lparr>ev_AcceptedEvidence := evidence, ev_UpdatedAt := clock\<rparr>) ''accepted'' version s = Inr s'"
    by blast
  then show ?thesis
  proof cases
    case 2
    from loadAttempt_ok [OF assms(1) load] obtain row ev0 where row: "map_of (st_attempts s) (pm_TenantID permit, pm_AttemptID permit) = Some row"
      "at_Data row = Some ev0" "envelopeOk (pm_TenantID permit, pm_AttemptID permit) ev" "ev_Plan ev = ev_Plan ev0" "ev_Held ev = ev_Held ev0"
      using loadAttempt_ok [OF assms(1) load] by blast
    have held: "heldAt K ev0 = heldAt K ev" for K using heldAt_cong [OF row(4,5)] by simp
    have "moved (pm_TenantID permit, pm_AttemptID permit) ''accepted'' (ev\<lparr>ev_AcceptedEvidence := evidence, ev_UpdatedAt := clock\<rparr>) s s'"
      by (rule saveAttempt_moved [OF 2 assms(1) row(1,2) held row(4) adjusted_refl row(3)]) simp_all
    then show ?thesis by blast
  qed simp
qed

section \<open>Admission keeps the books\<close>

text \<open>Keys of the tables are tuples: quantifiers over them stay whole below.\<close>

declare split_paired_All [simp del] split_paired_Ex [simp del]

definition limitsBacked :: "Store \<Rightarrow> bool" where
  "limitsBacked s \<longleftrightarrow> (\<forall>(K, r) \<in> set (st_policy_limits s). map_of (st_allowances s) K \<noteq> None)"

definition grows :: "Store \<Rightarrow> Store \<Rightarrow> bool" where
  "grows s s' \<longleftrightarrow> (\<forall>k. map_of (st_allowances s) k \<noteq> None \<longrightarrow> map_of (st_allowances s') k \<noteq> None)"

lemma insertNew_None: "map_of (insertNew k v t) x = None \<longleftrightarrow> x \<noteq> k \<and> map_of t x = None"
  by (auto simp: insertNew_def split: option.splits)

lemma set_insertNew: "set (insertNew k v t) \<subseteq> insert (k, v) (set t)"
  by (auto simp: insertNew_def update_fresh map_of_eq_None_iff split: option.splits)

lemma reservedAt_insertNew:
  "reservedAt (s\<lparr>st_allowances := insertNew k \<lparr>aw_reserved = 0, aw_version = v\<rparr> (st_allowances s)\<rparr>) K = reservedAt s K"
  by (auto simp: reservedAt_def insertNew_def split: option.splits)

text \<open>Planning creates empty counters for windows that begin and changes no other one.\<close>

definition planned :: "AttemptPlan \<Rightarrow> Store \<Rightarrow> Allowance list \<times> Store \<Rightarrow> bool" where
  "planned p s acc \<longleftrightarrow>
     (\<forall>K. reservedAt (snd acc) K = reservedAt s K) \<and> st_attempts (snd acc) = st_attempts s
     \<and> st_usage_ledger (snd acc) = st_usage_ledger s \<and> grows s (snd acc) \<and> limitsBacked (snd acc)
     \<and> list_all (\<lambda>a. map_of (st_allowances (snd acc)) (limitOf (ap_TenantID p) a) \<noteq> None
          \<and> requiredAmount p (al_Kind a) = Inr (al_Reserve a)) (fst acc)"

lemma rollWindow_effect:
  assumes "limitsBacked s"
  shows "reservedAt (rollWindow now (t, sc, i, w, kd) row nw s) K = reservedAt s K"
    "st_attempts (rollWindow now (t, sc, i, w, kd) row nw s) = st_attempts s"
    "st_usage_ledger (rollWindow now (t, sc, i, w, kd) row nw s) = st_usage_ledger s"
    "grows s (rollWindow now (t, sc, i, w, kd) row nw s)" "limitsBacked (rollWindow now (t, sc, i, w, kd) row nw s)"
    "map_of (st_allowances (rollWindow now (t, sc, i, w, kd) row nw s)) (t, sc, i, nw, kd) \<noteq> None"
proof -
  have "reservedAt (rollWindow now (t, sc, i, w, kd) row nw s) K
      = reservedAt (s\<lparr>st_allowances := insertNew (t, sc, i, nw, kd) \<lparr>aw_reserved = 0, aw_version = 1\<rparr> (st_allowances s)\<rparr>) K"
    by (rule reservedAt_frame) (simp add: rollWindow_def)
  then show "reservedAt (rollWindow now (t, sc, i, w, kd) row nw s) K = reservedAt s K" by (simp add: reservedAt_insertNew)
  have lim: "st_policy_limits (rollWindow now (t, sc, i, w, kd) row nw s) = insertNew (t, sc, i, nw, kd)
      \<lparr>lm_maximum = lm_maximum row, lm_reserve = lm_reserve row, lm_version = 1\<rparr> (st_policy_limits s)"
    and all: "st_allowances (rollWindow now (t, sc, i, w, kd) row nw s)
      = insertNew (t, sc, i, nw, kd) \<lparr>aw_reserved = 0, aw_version = 1\<rparr> (st_allowances s)"
    by (simp_all add: rollWindow_def)
  show "limitsBacked (rollWindow now (t, sc, i, w, kd) row nw s)"
    unfolding limitsBacked_def lim all
  proof
    fix x assume "x \<in> set (insertNew (t, sc, i, nw, kd)
      \<lparr>lm_maximum = lm_maximum row, lm_reserve = lm_reserve row, lm_version = 1\<rparr> (st_policy_limits s))"
    then have "fst x = (t, sc, i, nw, kd) \<or> x \<in> set (st_policy_limits s)"
      using set_insertNew by fastforce
    with assms have "map_of (insertNew (t, sc, i, nw, kd) \<lparr>aw_reserved = 0, aw_version = 1\<rparr> (st_allowances s)) (fst x) \<noteq> None"
      unfolding insertNew_None limitsBacked_def by fastforce
    then show "case x of (K, r) \<Rightarrow> map_of (insertNew (t, sc, i, nw, kd) \<lparr>aw_reserved = 0, aw_version = 1\<rparr> (st_allowances s)) K \<noteq> None"
      by (cases x) simp
  qed
qed (simp_all add: rollWindow_def grows_def insertNew_None)

lemma grows_trans: "grows s s1 \<Longrightarrow> grows s1 s2 \<Longrightarrow> grows s s2"
  by (auto simp: grows_def)

lemma limitStep_planned:
  assumes "limitStep now p c row acc = Inr acc'" and "planned p s acc" and "row \<in> set (st_policy_limits s)"
    and "fst (fst row) = ap_TenantID p" "limitsBacked s"
  shows "planned p s acc'"
proof -
  obtain sc i w kd r where row: "row = ((ap_TenantID p, sc, i, w, kd), r)" using assms(4) by (cases row) auto
  let ?s = "snd acc" and ?nw = "currentWindowID now (windowPrefix w)"
  let ?roll = "rollWindow now (ap_TenantID p, sc, i, w, kd) r ?nw ?s"
  have inv: "\<And>K. reservedAt ?s K = reservedAt s K" "st_attempts ?s = st_attempts s" "st_usage_ledger ?s = st_usage_ledger s"
    "grows s ?s" "limitsBacked ?s" and all: "list_all (\<lambda>a. map_of (st_allowances ?s) (limitOf (ap_TenantID p) a) \<noteq> None
          \<and> requiredAmount p (al_Kind a) = Inr (al_Reserve a)) (fst acc)"
    using assms(2) by (auto simp: planned_def)
  note roll = rollWindow_effect [OF inv(5), of now "ap_TenantID p" sc i w kd r ?nw]
  have there: "map_of (st_allowances ?s) (ap_TenantID p, sc, i, w, kd) \<noteq> None"
    using assms(3,5) inv(4) unfolding row limitsBacked_def grows_def by blast
  have wider: "list_all (\<lambda>a. map_of (st_allowances ?roll) (limitOf (ap_TenantID p) a) \<noteq> None
          \<and> requiredAmount p (al_Kind a) = Inr (al_Reserve a)) (fst acc)"
    using all roll(4) unfolding list_all_iff grows_def by blast
  from assms(1) consider "acc' = acc" | req where "requiredAmount p kd = Inr req"
      "acc' = (fst acc @ [\<lparr>al_ScopeKind = sc, al_ScopeID = i, al_WindowID = w, al_Kind = kd, al_Maximum = lm_maximum r, al_Reserve = req\<rparr>], ?s)"
    | req where "requiredAmount p kd = Inr req"
      "acc' = (fst acc @ [\<lparr>al_ScopeKind = sc, al_ScopeID = i, al_WindowID = ?nw, al_Kind = kd, al_Maximum = lm_maximum r, al_Reserve = req\<rparr>], ?roll)"
    by (auto simp: row limitStep_def Let_def bindR_Inr split: if_splits)
  then show ?thesis
  proof cases
    case 2
    with inv all there show ?thesis by (simp add: planned_def limitOf_def)
  next
    case 3
    with inv roll wider show ?thesis by (auto simp: planned_def limitOf_def intro: grows_trans)
  qed (use assms(2) in simp)
qed

lemma resolveAllowances_planned:
  assumes "resolveAllowances now c p s = Inr (p', s')" and "limitsBacked s"
  shows "\<exists>as. p' = p\<lparr>ap_Allowances := as\<rparr> \<and> planned p s (as, s')"
proof -
  let ?rows = "sort_key fst (filter (\<lambda>((t, k), r). t = ap_TenantID p) (st_policy_limits s))"
  obtain as where run: "foldR (limitStep now p c) ?rows ([], s) = Inr (as, s')" and p': "p' = p\<lparr>ap_Allowances := as\<rparr>"
    using assms(1) by (auto simp: resolveAllowances_def bindR_pair_Inr)
  have "planned p s (as, s')"
  proof (rule foldR_invariant [OF run])
    show "planned p s ([], s)" using assms(2) by (simp add: planned_def grows_def)
    fix x acc acc' assume "x \<in> set ?rows" "planned p s acc" "limitStep now p c x acc = Inr acc'"
    then show "planned p s acc'" using limitStep_planned [of now p c x acc acc' s] assms(2) by auto
  qed
  with p' show ?thesis by blast
qed

text \<open>A plan whose bounds are 64-bit values and whose cost bound is not negative.\<close>

definition planTyped :: "AttemptPlan \<Rightarrow> bool" where
  "planTyped p \<longleftrightarrow> i64opt (ap_InputBound p) \<and> i64opt (ap_OutputBound p)
     \<and> (case ap_MaximumCost p of None \<Rightarrow> True | Some c \<Rightarrow> 0 \<le> c)"

lemma attemptAmount_nonneg:
  assumes "attemptAmount p a = Inr x" and "planTyped p" and "0 \<le> al_Reserve a"
  shows "0 \<le> x"
proof -
  have "0 \<le> r" if "ap_InputBound p = Some i" "ap_OutputBound p = Some u" "CheckedAdd i u = Inr r" for i u r
    using that assms(2) CheckedAdd_Inr [of i u r] by (auto simp: planTyped_def i64opt_def)
  then show ?thesis
    using assms by (auto simp: attemptAmount_def planTyped_def allowanceAmount_def split: option.splits if_splits sum.splits)
qed

lemma requiredAmount_nonneg:
  assumes "requiredAmount p kind = Inr x" and "planTyped p"
  shows "0 \<le> x"
proof -
  have "0 \<le> r" if "ap_InputBound p = Some i" "ap_OutputBound p = Some u" "CheckedAdd i u = Inr r" for i u r
    using that assms(2) CheckedAdd_Inr [of i u r] by (auto simp: planTyped_def i64opt_def)
  then show ?thesis
    using assms by (auto simp: requiredAmount_def planTyped_def split: option.splits if_splits sum.splits)
qed

text \<open>What a run of the reservation loop over \<open>as\<close> takes: \<open>hs\<close>, no more than the limits allow.\<close>

definition took :: "string \<Rightarrow> Allowance list \<Rightarrow> int64 list \<Rightarrow> limitKey \<Rightarrow> int" where
  "took t as hs K = (\<Sum>i<length as. if limitOf t (as ! i) = K then hs ! i else 0)"

definition reserves :: "AttemptPlan \<Rightarrow> Allowance list \<Rightarrow> int64 list \<Rightarrow> Store \<Rightarrow> Store \<Rightarrow> bool" where
  "reserves p as hs s s' \<longleftrightarrow>
     length hs = length as \<and> (\<forall>K. reservedAt s' K = reservedAt s K + took (ap_TenantID p) as hs K)
     \<and> st_attempts s' = st_attempts s \<and> st_policy_limits s' = st_policy_limits s
     \<and> (\<forall>k. map_of (st_allowances s') k = None \<longleftrightarrow> map_of (st_allowances s) k = None)
     \<and> (\<forall>K. took (ap_TenantID p) as hs K \<noteq> 0 \<longrightarrow>
          (\<exists>lim. map_of (st_policy_limits s) K = Some lim \<and> reservedAt s' K \<le> lm_maximum lim))
     \<and> (planTyped p \<and> list_all (\<lambda>a. 0 \<le> al_Reserve a) as \<longrightarrow> list_all (\<lambda>h. 0 \<le> h) hs)"

lemma took_Cons: "took t (a # as) (h # hs) K = (if limitOf t a = K then h else 0) + took t as hs K"
  unfolding took_def length_Cons sum.lessThan_Suc_shift by (simp cong: if_cong)

lemma took_Nil [simp]: "took t [] hs K = 0"
  by (simp add: took_def)

lemma reserveAllowance_okD:
  assumes "reserveAllowance now p seen a (h, s) = Inr acc'"
  shows "\<exists>x s1. acc' = (h @ [x], s1) \<and> reserves p [a] [x] s s1"
proof -
  from assms consider "acc' = (h @ [0], s)" | x lim r where "attemptAmount p a = Inr x"
      "map_of (st_policy_limits s) (limitOf (ap_TenantID p) a) = Some lim" "al_Maximum a \<le> lm_maximum lim"
      "map_of (st_allowances s) (limitOf (ap_TenantID p) a) = Some r" "aw_reserved r + x \<le> al_Maximum a"
      "acc' = (h @ [x], addReserved (limitOf (ap_TenantID p) a) x r s)"
    by (auto simp: reserveAllowance_def Let_def bindR_Inr split: if_splits option.splits)
  then show ?thesis
  proof cases
    case 1
    then show ?thesis by (auto simp: reserves_def took_Cons)
  next
    case (2 x lim r)
    then have "reserves p [a] [x] s (addReserved (limitOf (ap_TenantID p) a) x r s)"
      using attemptAmount_nonneg [OF 2(1)]
      by (auto simp: reserves_def took_Cons reservedAt_def addReserved_def split: option.splits)
    with 2(6) show ?thesis by blast
  qed
qed

lemma reserves_Cons:
  assumes "reserves p [a] [x] s s1" "reserves p as hs s1 s2"
  shows "reserves p (a # as) (x # hs) s s2"
proof -
  let ?t = "ap_TenantID p"
  have at: "reservedAt s2 K = reservedAt s K + took ?t (a # as) (x # hs) K" for K
    using assms by (simp add: reserves_def took_Cons)
  have "\<exists>lim. map_of (st_policy_limits s) K = Some lim \<and> reservedAt s2 K \<le> lm_maximum lim"
    if "took ?t (a # as) (x # hs) K \<noteq> 0" for K
  proof (cases "took ?t as hs K = 0")
    case True
    then have "took ?t [a] [x] K \<noteq> 0" "reservedAt s2 K = reservedAt s1 K"
      using that assms(2) by (auto simp: took_Cons reserves_def)
    then show ?thesis using assms(1) by (auto simp: reserves_def)
  next
    case False
    then show ?thesis using assms by (auto simp: reserves_def)
  qed
  with at assms show ?thesis by (simp add: reserves_def)
qed

lemma reserve_loop:
  assumes "foldR (reserveAllowance now p seen) as (h, s) = Inr acc'"
  shows "\<exists>hs s'. acc' = (h @ hs, s') \<and> reserves p as hs s s'"
  using assms
proof (induction as arbitrary: h s)
  case Nil
  then show ?case by (auto simp: reserves_def)
next
  case (Cons a as)
  from Cons.prems obtain acc1 where 1: "reserveAllowance now p seen a (h, s) = Inr acc1"
    and rest: "foldR (reserveAllowance now p seen) as acc1 = Inr acc'" by (auto simp: bindR_Inr)
  from reserveAllowance_okD [OF 1] obtain x s1 where x: "acc1 = (h @ [x], s1)" "reserves p [a] [x] s s1" by blast
  from Cons.IH [OF rest [unfolded x(1)]] obtain hs s' where "acc' = ((h @ [x]) @ hs, s')" "reserves p as hs s1 s'" by blast
  with reserves_Cons [OF x(2)] show ?case by auto
qed

lemma derivePlanTx_planned:
  assumes "derivePlanTx now ctxP p s = Inr (p', s')" "limitsBacked s"
  shows "\<exists>as. p' = p\<lparr>ap_Allowances := as\<rparr> \<and> planned p s (as, s') \<and> validatePlan p = Inr ()"
proof -
  from assms(1) have "resolveAllowances now True p s = Inr (p', s')" "validatePlan p = Inr ()"
    by (auto simp: derivePlanTx_def bindR_Inr split: option.splits if_splits)
  with resolveAllowances_planned [OF this(1) assms(2)] show ?thesis by blast
qed

text \<open>
  A successful begin either repeats an attempt that is on record, or reserves what \<open>hs\<close> says for the
  allowances of the authoritative plan and records it.
\<close>

definition begun :: "int64 \<Rightarrow> Principal option \<Rightarrow> AttemptPlan \<Rightarrow> Allowance list \<Rightarrow> int64 list \<Rightarrow> Store \<Rightarrow> Store \<Rightarrow> bool" where
  "begun now ctxP p as hs s1 s' \<longleftrightarrow>
     map_of (st_attempts s1) (ap_TenantID p, ap_AttemptID p) = None
     \<and> (\<exists>s2 cfg price subject. reserves (p\<lparr>ap_Allowances := as\<rparr>) as hs s1 s2
          \<and> s' = insertAttempt (p\<lparr>ap_Allowances := as\<rparr>) cfg now
                   (newEnvelope (p\<lparr>ap_Allowances := as\<rparr>) p subject hs now price) s2)"

lemma admitNew_okD:
  assumes "admitNew now ctxP cfg p p' s = Inr (permit, s')"
  shows "\<exists>hs s2 price subject. reserves p' (ap_Allowances p') hs s s2
          \<and> s' = insertAttempt p' cfg now (newEnvelope p' p subject hs now price) s2"
proof -
  from assms obtain hs s2 price where run: "foldR (reserveAllowance now p' (seenRequest p' s)) (ap_Allowances p') ([], s) = Inr (hs, s2)"
    and s': "s' = insertAttempt p' cfg now (newEnvelope p' p (case ctxP of None \<Rightarrow> '''' | Some c \<Rightarrow> pr_SubjectID c) hs now price) s2"
    by (auto simp: admitNew_def bindR_Inr)
  from reserve_loop [OF run] have "reserves p' (ap_Allowances p') hs s s2" by auto
  with s' show ?thesis by blast
qed

lemma beginTx_okD:
  assumes "beginTx now ctxP p s = Inr (permit, s')" "limitsBacked s"
  shows "\<exists>as s1. planned p s (as, s1) \<and> validatePlan p = Inr () \<and> (s' = s1 \<or> (\<exists>hs. begun now ctxP p as hs s1 s'))"
proof -
  from assms(1) obtain p' s1 where d: "derivePlanTx now ctxP p s = Inr (p', s1)"
    by (cases "derivePlanTx now ctxP p s") (auto simp: beginTx_def split: if_splits)
  then obtain cfg where run: "(case map_of (st_attempts s1) (ap_TenantID p', ap_AttemptID p') of
        Some row \<Rightarrow> bindR (replayAttempt p' p row) (\<lambda>permit. Inr (permit, s1))
      | None \<Rightarrow> admitNew now ctxP cfg p p' s1) = Inr (permit, s')"
    using assms(1) by (cases "st_config s1"; cases "activeKeyGuard p' s1") (auto simp: beginTx_def split: if_splits)
  have rest: "s' = s1 \<or> (\<exists>cfg. map_of (st_attempts s1) (ap_TenantID p', ap_AttemptID p') = None
        \<and> admitNew now ctxP cfg p p' s1 = Inr (permit, s'))"
    using run by (cases "map_of (st_attempts s1) (ap_TenantID p', ap_AttemptID p')") (auto simp: bindR_Inr)
  from derivePlanTx_planned [OF d assms(2)] obtain as where p': "p' = p\<lparr>ap_Allowances := as\<rparr>"
    and plan: "planned p s (as, s1)" "validatePlan p = Inr ()" by blast
  from rest have "s' = s1 \<or> (\<exists>hs. begun now ctxP p as hs s1 s')"
  proof
    assume "\<exists>cfg. map_of (st_attempts s1) (ap_TenantID p', ap_AttemptID p') = None \<and> admitNew now ctxP cfg p p' s1 = Inr (permit, s')"
    then obtain cfg where none: "map_of (st_attempts s1) (ap_TenantID p, ap_AttemptID p) = None"
      and admit: "admitNew now ctxP cfg p (p\<lparr>ap_Allowances := as\<rparr>) s1 = Inr (permit, s')" by (auto simp: p')
    have "(\<exists>hs s2 price subject. reserves (p\<lparr>ap_Allowances := as\<rparr>) as hs s1 s2
        \<and> s' = insertAttempt (p\<lparr>ap_Allowances := as\<rparr>) cfg now (newEnvelope (p\<lparr>ap_Allowances := as\<rparr>) p subject hs now price) s2)"
      using admitNew_okD [OF admit] by simp
    with none show ?thesis unfolding begun_def by blast
  qed simp
  with plan show ?thesis by blast
qed

lemma heldAt_new: "heldAt K (newEnvelope p q subject hs now price) = took (ap_TenantID p) (ap_Allowances p) hs K"
  by (simp add: heldAt_def newEnvelope_def took_def cong: if_cong)

lemma backed_grows: "backed s ev \<Longrightarrow> grows s s' \<Longrightarrow> backed s' ev"
  unfolding backed_def grows_def list_all_iff by blast

lemma rowsOk_grows:
  assumes "rowsOk s" "st_attempts s' = st_attempts s" "grows s s'"
  shows "rowsOk s'"
  using assms(1) backed_grows [OF _ assms(3)] unfolding rowsOk_def assms(2) list_all_iff by fastforce

lemma planned_books:
  assumes "rowsOk s" "planned p s (as, s1)"
  shows "slack s1 K = slack s K" "rowsOk s1" "limitsBacked s1"
  using assms rowsOk_grows [of s s1] by (auto simp: planned_def slack_def heldTotal_def)

lemma begun_books:
  assumes ok: "rowsOk s" "limitsBacked s" and typed: "planTyped p" and valid: "validatePlan p = Inr ()"
    and as: "list_all (\<lambda>a. map_of (st_allowances s) (limitOf (ap_TenantID p) a) \<noteq> None
          \<and> requiredAmount p (al_Kind a) = Inr (al_Reserve a)) as"
    and begun: "begun now ctxP p as hs s s'"
  shows "slack s' K = slack s K" "rowsOk s'" "limitsBacked s'"
proof -
  let ?p = "p\<lparr>ap_Allowances := as\<rparr>" and ?key = "(ap_TenantID p, ap_AttemptID p)"
  from begun obtain s2 cfg price subject where fresh: "map_of (st_attempts s) ?key = None" and r: "reserves ?p as hs s s2"
    and s': "s' = insertAttempt ?p cfg now (newEnvelope ?p p subject hs now price) s2"
    unfolding begun_def by blast
  let ?ev = "newEnvelope ?p p subject hs now price"
  have res: "reservedAt s' K = reservedAt s K + took (ap_TenantID p) as hs K" for K
    using r by (simp add: reserves_def s' insertAttempt_def reservedAt_def)
  have at: "st_attempts s2 = st_attempts s" "tbl_ok (st_attempts s2)" using r ok(1) by (auto simp: reserves_def rowsOk_def)
  have "heldTotal s' K = heldTotal s K + took (ap_TenantID p) as hs K"
    unfolding s' insertAttempt_def heldTotal_update [OF at(2)]
    using fresh by (simp add: at(1) rowHeld_def heldAt_new heldTotal_def)
  with res show "slack s' K = slack s K" by (simp add: slack_def)
  have dom: "map_of (st_allowances s') k = None \<longleftrightarrow> map_of (st_allowances s) k = None" for k
    using r by (simp add: reserves_def s' insertAttempt_def)
  show "limitsBacked s'" using ok(2) r dom by (simp add: limitsBacked_def reserves_def s' insertAttempt_def)
  have "list_all (\<lambda>a. 0 \<le> al_Reserve a) as" using as requiredAmount_nonneg [OF _ typed] by (auto simp: list_all_iff)
  then have "envelopeOk ?key ?ev"
    using r typed valid by (auto simp: envelopeOk_def newEnvelope_def reserves_def planTyped_def validatePlan_def split: if_splits)
  moreover have "backed s' ?ev" using as dom by (auto simp: backed_def newEnvelope_def list_all_iff)
  moreover have "set (st_attempts s') = insert (?key, \<lparr>at_RequestID = ap_RequestID p, at_State = ''dispatch_intent'', at_Version = cfg,
          at_Deadline = unixTime (ap_Deadline p), at_UpdatedAt = now, at_Data = Some ?ev\<rparr>) (set (st_attempts s))"
    using fresh by (simp add: s' insertAttempt_def update_fresh map_of_eq_None_iff at(1))
  moreover have "\<forall>(k, row) \<in> set (st_attempts s). \<exists>ev. at_Data row = Some ev \<and> envelopeOk k ev \<and> backed s' ev"
    using ok(1) backed_grows [of s _ s'] dom unfolding rowsOk_def list_all_iff grows_def by fastforce
  moreover have "tbl_ok (st_attempts s')" using at by (simp add: s' insertAttempt_def)
  ultimately show "rowsOk s'" by (simp add: rowsOk_def list_all_iff)
qed

lemma beginTx_books:
  assumes "beginTx now ctxP p s = Inr (permit, s')" "rowsOk s" "limitsBacked s" "planTyped p"
  shows "slack s' K = slack s K \<and> rowsOk s' \<and> limitsBacked s'"
proof -
  from beginTx_okD [OF assms(1,3)] obtain as s1 where plan: "planned p s (as, s1)" "validatePlan p = Inr ()"
    and s': "s' = s1 \<or> (\<exists>hs. begun now ctxP p as hs s1 s')" by blast
  note b = planned_books [OF assms(2) plan(1)]
  have as: "list_all (\<lambda>a. map_of (st_allowances s1) (limitOf (ap_TenantID p) a) \<noteq> None
          \<and> requiredAmount p (al_Kind a) = Inr (al_Reserve a)) as" using plan(1) by (simp add: planned_def)
  from s' b begun_books [OF b(2,3) assms(4) plan(2) as] show ?thesis by metis
qed

section \<open>The accounting invariant\<close>

text \<open>
  Every attempt's envelope is well-formed and every counter it holds exists; every enforced limit has
  a counter; and no counter says less than what the attempts hold of it.
\<close>

definition booksOk :: "Store \<Rightarrow> bool" where
  "booksOk s \<longleftrightarrow> rowsOk s \<and> limitsBacked s \<and> (\<forall>K. 0 \<le> slack s K)"

lemma booksOk_beginTx: "beginTx now ctxP p s = Inr (permit, s') \<Longrightarrow> booksOk s \<Longrightarrow> planTyped p \<Longrightarrow> booksOk s'"
  using beginTx_books [of now ctxP p s permit s'] by (simp add: booksOk_def)

lemma booksOk_moved: "moved key state ev s s' \<Longrightarrow> booksOk s \<Longrightarrow> booksOk s'"
  using moved_books [of s key state ev s'] by (auto simp: booksOk_def limitsBacked_def moved_def)

lemma booksOk_finalizeTx: "finalizeTx clock o0 s = Inr (u, s') \<Longrightarrow> booksOk s \<Longrightarrow> booksOk s'"
  using finalizeTx_moved [of s clock o0 u s'] booksOk_moved by (auto simp: booksOk_def)

lemma booksOk_acceptTx: "acceptTx clock permit evidence s = Inr (u, s') \<Longrightarrow> booksOk s \<Longrightarrow> booksOk s'"
  using acceptTx_moved [of s clock permit evidence u s'] booksOk_moved by (auto simp: booksOk_def)

lemma booksOk_withTx:
  assumes "withTx env fn s = (r, s')" "booksOk s" "\<And>a s'. fn s = Inr (a, s') \<Longrightarrow> booksOk s'"
  shows "booksOk s'"
  using withTx_cases [of env fn s] assms by auto

lemma booksOk_empty: "booksOk emptyStore"
  by (simp add: booksOk_def rowsOk_def limitsBacked_def slack_def reservedAt_def heldTotal_def emptyStore_def)

lemma booksOk_held: "booksOk s \<Longrightarrow> heldTotal s K \<le> reservedAt s K"
  by (simp add: booksOk_def slack_def)

text \<open>Rows that a query selects are rows of the table.\<close>

lemma tbl_selected:
  assumes "tbl_ok t"
  shows "distinct (map fst (take n (sort_key f (filter P t))))"
    "\<forall>(k, r) \<in> set (take n (sort_key f (filter P t))). map_of t k = Some r \<and> P (k, r)"
proof -
  have "distinct (map fst (filter P t))" using assms by (simp add: tbl_ok_def distinct_map_filter)
  then have "distinct (map fst (sort_key f (filter P t)))"
    by (metis distinct_map distinct_sort set_sort)
  then show "distinct (map fst (take n (sort_key f (filter P t))))" by (simp add: take_map [symmetric])
  show "\<forall>(k, r) \<in> set (take n (sort_key f (filter P t))). map_of t k = Some r \<and> P (k, r)"
    using assms by (auto simp: tbl_ok_def dest!: in_set_takeD intro: map_of_is_SomeI)
qed

end
