(* ===== verification/Idempotency.thy ===== *)
theory Idempotency
  imports Store_State
begin

text \<open>
  Idempotent requests, from \<open>store/idempotency.go\<close> and \<open>core/idempotency.go\<close>: the validation of a
  claim, the binary codec of a recorded response, its encryption under a derived key, and the
  operations that claim, discard, finish and clean up a record.  SHA-256, HMAC and AES-GCM are the
  arguments in \<open>idemCrypto\<close>.  The columns \<open>created_at\<close> and \<open>updated_at\<close> are written and never read, and
  are left out.
\<close>

section \<open>Requests and responses\<close>

record IdempotencyRequest =
  iq_TenantID :: string
  iq_SubjectID :: string
  iq_Key :: string
  iq_Fingerprint :: string
  iq_OwnerID :: string
  iq_ExpiresAt :: time

record IdempotencyResponse =
  ip_Status :: int
  ip_Header :: header
  ip_Body :: string

record IdempotencyRecord =
  ic_State :: string
  ic_Response :: "IdempotencyResponse option"

definition ErrIdempotencyInvalid :: go_error where
  "ErrIdempotencyInvalid = Sentinel ''invalid idempotency request''"

definition ErrIdempotencyFingerprintConflict :: go_error where
  "ErrIdempotencyFingerprintConflict = Sentinel ''idempotency key fingerprint conflict''"

definition ErrIdempotencyOwnerFenced :: go_error where
  "ErrIdempotencyOwnerFenced = Sentinel ''idempotency owner is fenced''"

definition ErrIdempotencyNotFound :: go_error where
  "ErrIdempotencyNotFound = Sentinel ''idempotency record not found''"

definition ErrIdempotencyPending :: go_error where
  "ErrIdempotencyPending = Sentinel ''idempotency request is pending''"

definition ErrIdempotencyUnreplayable :: go_error where
  "ErrIdempotencyUnreplayable = Sentinel ''idempotency request is unreplayable''"

definition maxBody :: nat where
  "maxBody = 33554432"

definition maxHeaderBytes :: nat where
  "maxHeaderBytes = 65536"

definition maxHeaderValue :: nat where
  "maxHeaderValue = 16384"

definition validIdempotencyString :: "string \<Rightarrow> nat \<Rightarrow> bool" where
  "validIdempotencyString val limit =
     (val \<noteq> '''' \<and> length val \<le> limit \<and> validString val \<and> \<not> list_ex (\<lambda>c. byteOf c = 0) val \<and> trimSpace val \<noteq> '''')"

definition validateIdempotencyRequest :: "time \<Rightarrow> IdempotencyRequest \<Rightarrow> bool \<Rightarrow> unit res" where
  "validateIdempotencyRequest clock req allowExpired =
     (if \<not> validIdempotencyString (iq_TenantID req) 512 \<or> \<not> validIdempotencyString (iq_SubjectID req) 512
         \<or> \<not> validIdempotencyString (iq_Key req) 256 \<or> \<not> validIdempotencyString (iq_Fingerprint req) 4096
         \<or> \<not> validIdempotencyString (iq_OwnerID req) 512 then Inl ErrIdempotencyInvalid
      else if isZeroTime (iq_ExpiresAt req) then Inl ErrIdempotencyInvalid
      else if \<not> allowExpired \<and> \<not> iq_ExpiresAt req > clock then Inl ErrIdempotencyInvalid
      else Inr ())"

section \<open>The response codec\<close>

text \<open>\<open>normalizeIdempotencyHeaders\<close>: one header, then the loop; the totals are the values and bytes so far.\<close>

definition addHeaderValue :: "string \<Rightarrow> nat \<Rightarrow> nat res" where
  "addHeaderValue val totalBytes =
     (if length val > maxHeaderValue \<or> \<not> validString val \<or> hasControl val
         \<or> int totalBytes > int maxHeaderBytes - int (length val) then Inl ErrIdempotencyInvalid
      else Inr (totalBytes + length val))"

definition addHeader :: "string \<times> string list \<Rightarrow> header \<times> nat \<times> nat \<Rightarrow> (header \<times> nat \<times> nat) res" where
  "addHeader nv acc =
     (case (nv, acc) of ((rawName, vals), byName, totalValues, totalBytes) \<Rightarrow>
        let name = canonicalMIMEHeaderKey rawName in
        if name = '''' \<or> name \<noteq> trimSpace rawName \<or> \<not> validString rawName \<or> hasControl rawName \<or> length name > 256 then
          Inl ErrIdempotencyInvalid
        else if length vals > 512 \<or> int totalValues > 512 - int (length vals) then Inl ErrIdempotencyInvalid
        else if int totalBytes > int maxHeaderBytes - int (length name) then Inl ErrIdempotencyInvalid
        else bindR (foldR addHeaderValue vals (totalBytes + length name)) (\<lambda>bytes.
          Inr (AList.update name ((case map_of byName name of None \<Rightarrow> [] | Some old \<Rightarrow> old) @ vals) byName,
               totalValues + length vals, bytes)))"

definition normalizeIdempotencyHeaders :: "header \<Rightarrow> (header \<times> nat) res" where
  "normalizeIdempotencyHeaders headers =
     (if length headers > 128 then Inl ErrIdempotencyInvalid
      else bindR (foldR addHeader headers ([], 0, 0)) (\<lambda>(byName, totalValues, totalBytes).
        if length byName > 128 \<or> totalValues > 512 then Inl ErrIdempotencyInvalid
        else Inr (sort_key fst byName, totalBytes)))"

definition appendUint16 :: "string \<Rightarrow> nat \<Rightarrow> string" where
  "appendUint16 dst v = dst @ bigEndian 2 v"

definition appendUint32 :: "string \<Rightarrow> nat \<Rightarrow> string" where
  "appendUint32 dst v = dst @ bigEndian 4 v"

definition encodeValue :: "string \<Rightarrow> string" where
  "encodeValue val = appendUint32 [] (length val) @ val"

definition encodeHeader :: "string \<times> string list \<Rightarrow> string" where
  "encodeHeader nv =
     appendUint16 (appendUint16 [] (length (fst nv))) (length (snd nv)) @ fst nv @ concat (map encodeValue (snd nv))"

definition encodedSize :: "header \<Rightarrow> nat" where
  "encodedSize headers = 12 + sum_list (map (\<lambda>(name, vals). 4 + length name + sum_list (map (\<lambda>v. 4 + length v) vals)) headers)"

definition encodeIdempotencyResponse :: "IdempotencyResponse option \<Rightarrow> string res" where
  "encodeIdempotencyResponse response =
     (case response of
        None \<Rightarrow> Inl ErrIdempotencyInvalid
      | Some r \<Rightarrow>
          if ip_Status r < 100 \<or> ip_Status r > 599 \<or> length (ip_Body r) > maxBody then Inl ErrIdempotencyInvalid
          else bindR (normalizeIdempotencyHeaders (ip_Header r)) (\<lambda>(headers, headerBytes).
            if length headers > 65535 then Inl ErrIdempotencyInvalid
            else if encodedSize headers > maxBody + maxHeaderBytes + 12 \<or> headerBytes > maxHeaderBytes then
              Inl ErrIdempotencyInvalid
            else Inr (appendUint32 (appendUint16 (appendUint16 ''HID1'' (nat (ip_Status r))) (length headers)) (length (ip_Body r))
                      @ concat (map encodeHeader headers) @ ip_Body r)))"

fun decodeValues :: "nat \<Rightarrow> nat \<Rightarrow> string \<Rightarrow> (string list \<times> nat \<times> string) option" where
  "decodeValues 0 totalBytes plain = Some ([], totalBytes, plain)"
| "decodeValues (Suc n) totalBytes plain =
     (case takeBE 4 plain of
        None \<Rightarrow> None
      | Some (valueLength, rest) \<Rightarrow>
          if valueLength > maxHeaderValue \<or> valueLength > length rest
             \<or> int totalBytes > int maxHeaderBytes - int valueLength then None
          else (case takeBytes valueLength rest of
            None \<Rightarrow> None
          | Some (val, rest1) \<Rightarrow>
              if \<not> validString val \<or> hasControl val then None
              else (case decodeValues n (totalBytes + length val) rest1 of
                None \<Rightarrow> None
              | Some (vals, bytes, rest2) \<Rightarrow> Some (val # vals, bytes, rest2))))"

fun decodeHeaders :: "nat \<Rightarrow> header \<Rightarrow> nat \<Rightarrow> nat \<Rightarrow> string \<Rightarrow> (header \<times> string) option" where
  "decodeHeaders 0 header totalValues totalBytes plain = Some (header, plain)"
| "decodeHeaders (Suc n) header totalValues totalBytes plain =
     (case takeBE 2 plain of
        None \<Rightarrow> None
      | Some (nameLength, p1) \<Rightarrow>
          if nameLength = 0 \<or> nameLength > 256 then None
          else (case takeBE 2 p1 of
            None \<Rightarrow> None
          | Some (valueCount, p2) \<Rightarrow>
              if valueCount > 512 \<or> int totalValues > 512 - int valueCount then None
              else (case takeBytes nameLength p2 of
                None \<Rightarrow> None
              | Some (name, p3) \<Rightarrow>
                  if canonicalMIMEHeaderKey name \<noteq> name \<or> hasControl name \<or> \<not> validString name then None
                  else if map_of header name \<noteq> None then None
                  else if int totalBytes > int maxHeaderBytes - int (length name) then None
                  else (case decodeValues valueCount (totalBytes + length name) p3 of
                    None \<Rightarrow> None
                  | Some (vals, bytes, p4) \<Rightarrow>
                      decodeHeaders n (AList.update name vals header) (totalValues + valueCount) bytes p4))))"

definition decodeIdempotencyResponse :: "string \<Rightarrow> IdempotencyResponse res" where
  "decodeIdempotencyResponse plain0 =
     (if length plain0 < 12 \<or> take 4 plain0 \<noteq> ''HID1'' then Inl ErrIdempotencyUnreplayable
      else
        let plain = drop 4 plain0;
            status = readBE (take 2 plain);
            headerCount = readBE (take 2 (drop 2 plain));
            bodyLength = readBE (take 4 (drop 4 plain))
        in if status < 100 \<or> status > 599 \<or> headerCount > 128 \<or> bodyLength > maxBody then Inl ErrIdempotencyUnreplayable
           else (case decodeHeaders headerCount [] 0 0 (drop 8 plain) of
             None \<Rightarrow> Inl ErrIdempotencyUnreplayable
           | Some (header, rest) \<Rightarrow>
               if bodyLength \<noteq> length rest \<or> length rest > maxBody then Inl ErrIdempotencyUnreplayable
               else Inr \<lparr>ip_Status = int status, ip_Header = header, ip_Body = rest\<rparr>))"

section \<open>Hashing and encryption\<close>

record idemCrypto =
  ix_sha256 :: "string \<Rightarrow> string"
  ix_hmac :: "string \<Rightarrow> string \<Rightarrow> string"
  ix_gcm :: "(string, string) aead"
  ix_masterKeys :: "Keyring option"

definition idempotencyHash :: "idemCrypto \<Rightarrow> string \<Rightarrow> string \<Rightarrow> string" where
  "idempotencyHash cx purpose val =
     hexEncode (map byteOf (ix_sha256 cx (''hoorific/idempotency/'' @ purpose @ ''/v1'' @ [nul] @ val)))"

definition idempotencyAAD :: "string \<Rightarrow> string \<Rightarrow> string \<Rightarrow> string \<Rightarrow> string" where
  "idempotencyAAD tenant subject keyHash fingerprintHash =
     ''hoorific/idempotency-response/v1'' @ [nul]
     @ concat (map (\<lambda>val. bigEndian 4 (length val) @ val) [tenant, subject, keyHash, fingerprintHash])"

definition derivePurposeKey :: "idemCrypto \<Rightarrow> string \<Rightarrow> string \<Rightarrow> string" where
  "derivePurposeKey cx master purpose = ix_hmac cx master (''hoorific/store-key/v1'' @ [nul] @ purpose)"

definition idempotencyKeyPurpose :: string where
  "idempotencyKeyPurpose = ''idempotency-response/v1''"

definition purposeCurrent :: "idemCrypto \<Rightarrow> string \<Rightarrow> (string \<times> string) res" where
  "purposeCurrent cx purpose =
     (case ix_masterKeys cx of
        None \<Rightarrow> Inl ErrInvalidCredential
      | Some base \<Rightarrow> bindR (kr_Current base) (\<lambda>(rid, key). Inr (rid, derivePurposeKey cx key purpose)))"

definition purposeByID :: "idemCrypto \<Rightarrow> string \<Rightarrow> string \<Rightarrow> string res" where
  "purposeByID cx purpose rid =
     (case ix_masterKeys cx of
        None \<Rightarrow> Inl ErrInvalidCredential
      | Some base \<Rightarrow> bindR (kr_ByID base rid) (\<lambda>key. Inr (derivePurposeKey cx key purpose)))"

definition sealIdempotency :: "idemCrypto \<Rightarrow> string res \<Rightarrow> string \<Rightarrow> string \<Rightarrow> string \<Rightarrow> string \<Rightarrow> string \<Rightarrow> Envelope res" where
  "sealIdempotency cx random tenant subject keyHash fingerprintHash plain =
     bindR (purposeCurrent cx idempotencyKeyPurpose) (\<lambda>(keyID, key).
     if \<not> aesKey key then Inl keySizeError
     else if length plain > maxBody - overhead then Inl ErrIdempotencyInvalid
     else bindR random (\<lambda>nonce.
       Inr \<lparr>en_KeyID = keyID, en_Nonce = nonce,
            en_Ciphertext = gcm_Seal (ix_gcm cx) key nonce plain (idempotencyAAD tenant subject keyHash fingerprintHash)\<rparr>))"

definition openIdempotency :: "idemCrypto \<Rightarrow> string \<Rightarrow> string \<Rightarrow> string \<Rightarrow> string \<Rightarrow> Envelope \<Rightarrow> string res" where
  "openIdempotency cx tenant subject keyHash fingerprintHash e =
     (if length (en_Ciphertext e) > maxBody then Inl ErrIdempotencyUnreplayable
      else case purposeByID cx idempotencyKeyPurpose (en_KeyID e) of
        Inl _ \<Rightarrow> Inl ErrIdempotencyUnreplayable
      | Inr key \<Rightarrow>
          if \<not> aesKey key then Inl ErrIdempotencyUnreplayable
          else if length (en_Nonce e) \<noteq> nonceSize \<or> length (en_Ciphertext e) < overhead then Inl ErrIdempotencyUnreplayable
          else (case gcm_Open (ix_gcm cx) key (en_Nonce e) (en_Ciphertext e) (idempotencyAAD tenant subject keyHash fingerprintHash) of
            None \<Rightarrow> Inl ErrIdempotencyUnreplayable
          | Some plain \<Rightarrow> Inr plain))"

section \<open>The durable record\<close>

type_synonym idemKey = "string \<times> string \<times> string"

definition idemKeyOf :: "idemCrypto \<Rightarrow> IdempotencyRequest \<Rightarrow> idemKey" where
  "idemKeyOf cx req = (iq_TenantID req, iq_SubjectID req, idempotencyHash cx ''key'' (iq_Key req))"

definition fingerprintOf :: "idemCrypto \<Rightarrow> IdempotencyRequest \<Rightarrow> string" where
  "fingerprintOf cx req = idempotencyHash cx ''fingerprint'' (iq_Fingerprint req)"

definition insertIdempotencyPending :: "IdempotencyRequest \<Rightarrow> idemKey \<Rightarrow> string \<Rightarrow> int64 \<Rightarrow> Store \<Rightarrow> Store" where
  "insertIdempotencyPending req key fingerprintHash expiresAt s =
     s\<lparr>st_idempotency := AList.update key
         \<lparr>ir_FingerprintHash = fingerprintHash, ir_OwnerID = iq_OwnerID req, ir_State = ''pending'', ir_ExpiresAt = expiresAt,
          ir_KeyID = '''', ir_Nonce = '''', ir_Ciphertext = ''''\<rparr> (st_idempotency s)\<rparr>"

definition markIdempotencyUnreplayable :: "idemKey \<Rightarrow> Store \<Rightarrow> Store res" where
  "markIdempotencyUnreplayable key s =
     (case map_of (st_idempotency s) key of
        None \<Rightarrow> Inl ErrIdempotencyNotFound
      | Some row \<Rightarrow> Inr (s\<lparr>st_idempotency := AList.update key
          (row\<lparr>ir_State := ''unreplayable'', ir_KeyID := '''', ir_Nonce := '''', ir_Ciphertext := ''''\<rparr>) (st_idempotency s)\<rparr>))"

definition maxRetention :: int64 where
  "maxRetention = 86400"

definition claimExpiry :: "int64 \<Rightarrow> int64 \<Rightarrow> int64" where
  "claimExpiry now requested = (if requested > now + maxRetention then now + maxRetention else requested)"

definition noRecord :: IdempotencyRecord where
  "noRecord = \<lparr>ic_State = '''', ic_Response = None\<rparr>"

definition inState :: "string \<Rightarrow> IdempotencyRecord" where
  "inState state = \<lparr>ic_State = state, ic_Response = None\<rparr>"

definition replayRow :: "idemCrypto \<Rightarrow> IdempotencyRequest \<Rightarrow> idempotencyRow \<Rightarrow> IdempotencyResponse res" where
  "replayRow cx req row =
     bindR (openIdempotency cx (iq_TenantID req) (iq_SubjectID req) (idempotencyHash cx ''key'' (iq_Key req)) (fingerprintOf cx req)
              \<lparr>en_KeyID = ir_KeyID row, en_Nonce = ir_Nonce row, en_Ciphertext = ir_Ciphertext row\<rparr>)
       decodeIdempotencyResponse"

text \<open>The body of \<open>BeginIdempotency\<close>'s transaction: the record and the terminal error it leaves behind.\<close>

definition beginIdempotencyTx :: "idemCrypto \<Rightarrow> int64 \<Rightarrow> IdempotencyRequest \<Rightarrow> (IdempotencyRecord \<times> go_error option) txn" where
  "beginIdempotencyTx cx now req s =
     (let key = idemKeyOf cx req; fp = fingerprintOf cx req; requested = unixTime (iq_ExpiresAt req);
          claim = (\<lambda>s. if requested \<le> now then Inl ErrIdempotencyInvalid
                       else Inr ((inState ''new'', None), insertIdempotencyPending req key fp (claimExpiry now requested) s))
      in case map_of (st_idempotency s) key of
           None \<Rightarrow> claim s
         | Some row \<Rightarrow>
             if ir_State row = ''complete'' \<and> ir_ExpiresAt row \<le> now then
               claim (s\<lparr>st_idempotency := AList.delete key (st_idempotency s)\<rparr>)
             else if ir_FingerprintHash row \<noteq> fp then Inl ErrIdempotencyFingerprintConflict
             else if ir_State row = ''pending'' then Inr ((inState ''pending'', None), s)
             else if ir_State row = ''unreplayable'' then Inr ((inState ''unreplayable'', None), s)
             else if ir_State row = ''complete'' then
               (case replayRow cx req row of
                  Inr response \<Rightarrow> Inr ((\<lparr>ic_State = ''complete'', ic_Response = Some response\<rparr>, None), s)
                | Inl _ \<Rightarrow> bindR (markIdempotencyUnreplayable key s)
                    (\<lambda>s'. Inr ((inState ''unreplayable'', Some ErrIdempotencyUnreplayable), s')))
             else Inl ErrIdempotencyUnreplayable)"

text \<open>The two results of the call and the store: \<open>out\<close> is what the body assigned, also when the commit fails.\<close>

definition BeginIdempotency :: "txEnv \<Rightarrow> idemCrypto \<Rightarrow> time \<Rightarrow> int64 \<Rightarrow> IdempotencyRequest \<Rightarrow> Store
    \<Rightarrow> (IdempotencyRecord \<times> go_error option) \<times> Store" where
  "BeginIdempotency env cx clock now req s =
     (case validateIdempotencyRequest clock req True of
        Inl e \<Rightarrow> ((noRecord, Some e), s)
      | Inr _ \<Rightarrow>
          (case withTx env (beginIdempotencyTx cx now req) s of
             (Inr (out, terminal), s') \<Rightarrow> ((out, terminal), s')
           | (Inl e, s') \<Rightarrow>
               (((case (tx_begin env, beginIdempotencyTx cx now req s) of
                    (None, Inr ((out, _), _)) \<Rightarrow> out
                  | _ \<Rightarrow> noRecord), Some e), s')))"

definition discardTx :: "idemCrypto \<Rightarrow> IdempotencyRequest \<Rightarrow> unit txn" where
  "discardTx cx req s =
     (case map_of (st_idempotency s) (idemKeyOf cx req) of
        None \<Rightarrow> Inr ((), s)
      | Some row \<Rightarrow>
          if ir_OwnerID row \<noteq> iq_OwnerID req \<or> ir_State row \<noteq> ''pending'' then Inr ((), s)
          else Inr ((), s\<lparr>st_idempotency := AList.delete (idemKeyOf cx req) (st_idempotency s)\<rparr>))"

definition DiscardIdempotency :: "txEnv \<Rightarrow> idemCrypto \<Rightarrow> time \<Rightarrow> IdempotencyRequest \<Rightarrow> Store \<Rightarrow> unit res \<times> Store" where
  "DiscardIdempotency env cx clock req s =
     (case validateIdempotencyRequest clock req True of
        Inl e \<Rightarrow> (Inl e, s)
      | Inr _ \<Rightarrow> withTx env (discardTx cx req) s)"

definition finishTx :: "idemCrypto \<Rightarrow> int64 \<Rightarrow> IdempotencyRequest \<Rightarrow> Envelope option \<Rightarrow> unit txn" where
  "finishTx cx now req envelope s =
     (case map_of (st_idempotency s) (idemKeyOf cx req) of
        None \<Rightarrow> Inl ErrIdempotencyNotFound
      | Some row \<Rightarrow>
          if ir_FingerprintHash row \<noteq> fingerprintOf cx req then Inl ErrIdempotencyFingerprintConflict
          else if ir_OwnerID row \<noteq> iq_OwnerID req then Inl ErrIdempotencyOwnerFenced
          else if ir_State row = ''complete'' then Inr ((), s)
          else if ir_State row = ''unreplayable'' then Inl ErrIdempotencyUnreplayable
          else if ir_State row = ''pending'' then
            let row' = (case envelope of
                  None \<Rightarrow> row\<lparr>ir_State := ''unreplayable'', ir_KeyID := '''', ir_Nonce := '''', ir_Ciphertext := ''''\<rparr>
                | Some e \<Rightarrow> row\<lparr>ir_State := ''complete'', ir_KeyID := en_KeyID e, ir_Nonce := en_Nonce e,
                               ir_Ciphertext := en_Ciphertext e, ir_ExpiresAt := now + maxRetention\<rparr>)
            in Inr ((), s\<lparr>st_idempotency := AList.update (idemKeyOf cx req) row' (st_idempotency s)\<rparr>)
          else Inl ErrIdempotencyUnreplayable)"

definition FinishIdempotency :: "txEnv \<Rightarrow> idemCrypto \<Rightarrow> string res \<Rightarrow> time \<Rightarrow> int64 \<Rightarrow> IdempotencyRequest
    \<Rightarrow> IdempotencyResponse option \<Rightarrow> Store \<Rightarrow> unit res \<times> Store" where
  "FinishIdempotency env cx random clock now req response s =
     (case bindR (validateIdempotencyRequest clock req True) (\<lambda>_.
            case response of
              None \<Rightarrow> Inr None
            | Some r \<Rightarrow> bindR (encodeIdempotencyResponse (Some r)) (\<lambda>plain.
                bindR (sealIdempotency cx random (iq_TenantID req) (iq_SubjectID req) (idempotencyHash cx ''key'' (iq_Key req))
                         (fingerprintOf cx req) plain) (\<lambda>e. Inr (Some e)))) of
        Inl e \<Rightarrow> (Inl e, s)
      | Inr envelope \<Rightarrow> withTx env (finishTx cx now req envelope) s)"

definition expiredComplete :: "int64 \<Rightarrow> idempotencyRow \<Rightarrow> bool" where
  "expiredComplete now row = (ir_State row = ''complete'' \<and> ir_ExpiresAt row \<le> now)"

definition cleanupKeys :: "int64 \<Rightarrow> Store \<Rightarrow> idemKey list" where
  "cleanupKeys now s =
     map fst (take 256 (sort_key (\<lambda>(k, row). (ir_ExpiresAt row, k)) (filter (\<lambda>(k, row). expiredComplete now row) (st_idempotency s))))"

definition cleanupIdempotencyTx :: "int64 \<Rightarrow> Store \<Rightarrow> Store" where
  "cleanupIdempotencyTx now s =
     fold (\<lambda>key s. case map_of (st_idempotency s) key of
             None \<Rightarrow> s
           | Some row \<Rightarrow> if expiredComplete now row then s\<lparr>st_idempotency := AList.delete key (st_idempotency s)\<rparr> else s)
       (cleanupKeys now s) s"

section \<open>The codec round trip\<close>

definition valueOk :: "string \<Rightarrow> bool" where
  "valueOk val \<longleftrightarrow> length val \<le> maxHeaderValue \<and> validString val \<and> \<not> hasControl val"

definition nameOk :: "string \<Rightarrow> bool" where
  "nameOk name \<longleftrightarrow> name \<noteq> '''' \<and> length name \<le> 256 \<and> canonicalMIMEHeaderKey name = name \<and> validString name \<and> \<not> hasControl name"

definition headerOk :: "string \<times> string list \<Rightarrow> bool" where
  "headerOk nv \<longleftrightarrow> nameOk (fst nv) \<and> list_all valueOk (snd nv) \<and> length (snd nv) \<le> 512"

definition valueBytes :: "string list \<Rightarrow> nat" where
  "valueBytes vals = sum_list (map length vals)"

definition headerTotal :: "header \<Rightarrow> nat" where
  "headerTotal hs = sum_list (map (\<lambda>(name, vals). length name + valueBytes vals) hs)"

definition valueTotal :: "header \<Rightarrow> nat" where
  "valueTotal hs = sum_list (map (\<lambda>(name, vals). length vals) hs)"

lemma addHeaderValues_Inr:
  assumes "foldR addHeaderValue vals b = Inr b'" "b \<le> maxHeaderBytes"
  shows "list_all valueOk vals \<and> b' = b + valueBytes vals \<and> b' \<le> maxHeaderBytes"
  using assms
proof (induction vals arbitrary: b)
  case (Cons v vals)
  then obtain b1 where "addHeaderValue v b = Inr b1" and rest: "foldR addHeaderValue vals b1 = Inr b'"
    by (auto simp: bindR_Inr)
  then have "valueOk v" "b1 = b + length v" "b1 \<le> maxHeaderBytes"
    by (auto simp: addHeaderValue_def valueOk_def split: if_splits)
  with Cons.IH [OF rest] show ?case by (simp add: valueBytes_def)
qed (simp add: valueBytes_def)

lemma addHeader_Inr:
  assumes "addHeader (raw, vals) (byName, tv, tb) = Inr acc" and "map_of byName raw = None"
  shows "headerOk (raw, vals) \<and> acc = (byName @ [(raw, vals)], tv + length vals, tb + length raw + valueBytes vals)
     \<and> tv + length vals \<le> 512 \<and> tb + length raw + valueBytes vals \<le> maxHeaderBytes"
proof -
  let ?name = "canonicalMIMEHeaderKey raw"
  from assms(1) obtain b where
    n: "?name \<noteq> ''''" "?name = trimSpace raw" "validString raw" "\<not> hasControl raw" "length ?name \<le> 256"
    and c: "length vals \<le> 512" "tv + length vals \<le> 512" "tb + length ?name \<le> maxHeaderBytes"
    and fold: "foldR addHeaderValue vals (tb + length ?name) = Inr b"
    and acc: "acc = (AList.update ?name ((case map_of byName ?name of None \<Rightarrow> [] | Some old \<Rightarrow> old) @ vals) byName, tv + length vals, b)"
    by (auto simp: addHeader_def Let_def bindR_Inr split: if_splits)
  have raw: "?name = raw" using n(2) by (rule canonical_trimmed)
  from addHeaderValues_Inr [OF fold c(3)] n c acc assms(2) show ?thesis
    by (simp add: raw headerOk_def nameOk_def update_fresh map_of_eq_None_iff)
qed

lemma addHeaders_Inr:
  assumes "foldR addHeader hs (byName, tv, tb) = Inr (h', tv', tb')" and "distinct (map fst (byName @ hs))"
    and "tv \<le> 512" "tb \<le> maxHeaderBytes"
  shows "list_all headerOk hs \<and> h' = byName @ hs \<and> tv' = tv + valueTotal hs \<and> tb' = tb + headerTotal hs
     \<and> tv' \<le> 512 \<and> tb' \<le> maxHeaderBytes"
  using assms
proof (induction hs arbitrary: byName tv tb)
  case (Cons nv hs)
  obtain raw vals where nv: "nv = (raw, vals)" by (cases nv)
  from Cons.prems(1) obtain acc where 1: "addHeader (raw, vals) (byName, tv, tb) = Inr acc"
    and rest: "foldR addHeader hs acc = Inr (h', tv', tb')" by (auto simp: nv bindR_Inr)
  have "map_of byName raw = None" using Cons.prems(2) by (auto simp: nv map_of_eq_None_iff)
  from addHeader_Inr [OF 1 this] have ok: "headerOk (raw, vals)" and
    acc: "acc = (byName @ [(raw, vals)], tv + length vals, tb + length raw + valueBytes vals)"
    and le: "tv + length vals \<le> 512" "tb + length raw + valueBytes vals \<le> maxHeaderBytes" by auto
  have "distinct (map fst ((byName @ [(raw, vals)]) @ hs))" using Cons.prems(2) by (simp add: nv)
  from Cons.IH [OF rest [unfolded acc] this le] ok show ?case
    by (simp add: nv valueTotal_def headerTotal_def)
qed (simp add: valueTotal_def headerTotal_def)

lemma decodeValues_encode:
  assumes "list_all valueOk vals" "tb + valueBytes vals \<le> maxHeaderBytes"
  shows "decodeValues (length vals) tb (concat (map encodeValue vals) @ rest) = Some (vals, tb + valueBytes vals, rest)"
  using assms
proof (induction vals arbitrary: tb)
  case (Cons v vals)
  have "length v < 256 ^ 4" using Cons.prems(1) by (simp add: valueOk_def maxHeaderValue_def)
  moreover have "length v + valueBytes vals = valueBytes (v # vals)" by (simp add: valueBytes_def)
  ultimately show ?case
    using Cons.prems Cons.IH [of "tb + length v"] by (simp add: encodeValue_def appendUint32_def valueOk_def)
qed (simp add: valueBytes_def)

lemma encodeHeader_pair:
  "encodeHeader (name, vals) = bigEndian 2 (length name) @ bigEndian 2 (length vals) @ name @ concat (map encodeValue vals)"
  by (simp add: encodeHeader_def appendUint16_def)

lemma decodeHeaders_encode:
  assumes "list_all headerOk hs" "tv + valueTotal hs \<le> 512" "tb + headerTotal hs \<le> maxHeaderBytes"
    and "distinct (map fst (acc @ hs))"
  shows "decodeHeaders (length hs) acc tv tb (concat (map encodeHeader hs) @ rest) = Some (acc @ hs, rest)"
  using assms
proof (induction hs arbitrary: acc tv tb)
  case (Cons nv hs)
  obtain name vals where nv: "nv = (name, vals)" by (cases nv)
  have ok: "nameOk name" "list_all valueOk vals" "length vals \<le> 512" using Cons.prems(1) by (auto simp: nv headerOk_def)
  have lens: "length name < 256 ^ 2" "length vals < 256 ^ 2" using ok by (auto simp: nameOk_def)
  have tot: "tv + length vals + valueTotal hs \<le> 512" "tb + length name + valueBytes vals + headerTotal hs \<le> maxHeaderBytes"
    using Cons.prems(2,3) by (auto simp: nv valueTotal_def headerTotal_def)
  have fresh: "map_of acc name = None" using Cons.prems(4) by (auto simp: nv map_of_eq_None_iff)
  have vals: "decodeValues (length vals) (tb + length name) (concat (map encodeValue vals) @ concat (map encodeHeader hs) @ rest)
      = Some (vals, tb + length name + valueBytes vals, concat (map encodeHeader hs) @ rest)"
    using decodeValues_encode [OF ok(2)] tot(2) by simp
  have up: "AList.update name vals acc = acc @ [(name, vals)]" using fresh by (simp add: update_fresh map_of_eq_None_iff)
  have "distinct (map fst ((acc @ [(name, vals)]) @ hs))" using Cons.prems(4) by (simp add: nv)
  from Cons.IH [OF _ tot this] Cons.prems(1) show ?case
    using ok tot lens fresh vals up by (simp add: nv encodeHeader_pair nameOk_def)
qed simp

lemma sum_list_sort_key: "sum_list (map f (sort_key k xs)) = (sum_list (map f xs) :: nat)"
  by (metis mset_map mset_sort sum_mset_sum_list)

lemma normalize_Inr:
  assumes "normalizeIdempotencyHeaders hs = Inr (hs', n)" and "distinct (map fst hs)"
  shows "hs' = sort_key fst hs \<and> list_all headerOk hs' \<and> valueTotal hs' \<le> 512 \<and> headerTotal hs' \<le> maxHeaderBytes
     \<and> length hs' \<le> 128 \<and> distinct (map fst hs')"
proof -
  from assms(1) obtain byName tv tb where "foldR addHeader hs ([], 0, 0) = Inr (byName, tv, tb)" "length hs \<le> 128"
    and hs': "hs' = sort_key fst byName"
    by (auto simp: normalizeIdempotencyHeaders_def bindR_Inr split: if_splits)
  with addHeaders_Inr [of hs "[]" 0 0 byName tv tb] assms(2)
  have "list_all headerOk hs" "byName = hs" "valueTotal hs \<le> 512" "headerTotal hs \<le> maxHeaderBytes" by auto
  moreover have "distinct (map fst (sort_key fst hs))"
    using assms(2) by (metis distinct_map distinct_sort set_sort)
  ultimately show ?thesis
    using \<open>length hs \<le> 128\<close> by (simp add: hs' valueTotal_def headerTotal_def sum_list_sort_key list_all_iff)
qed

lemma decode_encode:
  assumes "encodeIdempotencyResponse (Some r) = Inr plain" and "distinct (map fst (ip_Header r))"
  shows "decodeIdempotencyResponse plain = Inr (r\<lparr>ip_Header := sort_key fst (ip_Header r)\<rparr>)"
proof -
  let ?hs = "sort_key fst (ip_Header r)"
  from assms(1) obtain hs n where status: "100 \<le> ip_Status r" "ip_Status r \<le> 599" "length (ip_Body r) \<le> maxBody"
    and norm: "normalizeIdempotencyHeaders (ip_Header r) = Inr (hs, n)"
    and plain: "plain = ''HID1'' @ bigEndian 2 (nat (ip_Status r)) @ bigEndian 2 (length hs) @ bigEndian 4 (length (ip_Body r))
        @ concat (map encodeHeader hs) @ ip_Body r"
    by (auto simp: encodeIdempotencyResponse_def bindR_Inr appendUint16_def appendUint32_def split: if_splits)
  from normalize_Inr [OF norm assms(2)] have hs: "hs = ?hs" "list_all headerOk hs" "valueTotal hs \<le> 512"
    "headerTotal hs \<le> maxHeaderBytes" "length hs \<le> 128" "distinct (map fst hs)" by auto
  have dec: "decodeHeaders (length hs) [] 0 0 (concat (map encodeHeader hs) @ ip_Body r) = Some (hs, ip_Body r)"
    using decodeHeaders_encode [of hs 0 0 "[]" "ip_Body r"] hs by simp
  have small: "nat (ip_Status r) mod 256 ^ 2 = nat (ip_Status r)" "length hs mod 256 ^ 2 = length hs"
    "length (ip_Body r) mod 256 ^ 4 = length (ip_Body r)"
    using status hs(5) by (simp_all add: maxBody_def)
  show ?thesis
    using status small dec hs(5) by (simp add: decodeIdempotencyResponse_def plain Let_def hs(1) [symmetric] nat_less_iff)
qed

section \<open>Claims and replays\<close>

text \<open>One call on the table, and a run of calls: who made each call, in the order of their transactions.\<close>

datatype idemOp =
    OpBegin txEnv time int64 IdempotencyRequest
  | OpDiscard txEnv time IdempotencyRequest
  | OpFinish txEnv "string res" time int64 IdempotencyRequest "IdempotencyResponse option"
  | OpCleanup int64

fun runIdem :: "idemCrypto \<Rightarrow> idemOp \<Rightarrow> Store \<Rightarrow> Store" where
  "runIdem cx (OpBegin env clock now req) s = snd (BeginIdempotency env cx clock now req s)"
| "runIdem cx (OpDiscard env clock req) s = snd (DiscardIdempotency env cx clock req s)"
| "runIdem cx (OpFinish env random clock now req response) s = snd (FinishIdempotency env cx random clock now req response s)"
| "runIdem cx (OpCleanup now) s = cleanupIdempotencyTx now s"

text \<open>A call that leaves the claim of \<open>owner\<close> on \<open>key\<close> alone, and one made before \<open>until\<close>.\<close>

fun foreignOp :: "idemCrypto \<Rightarrow> idemKey \<Rightarrow> string \<Rightarrow> idemOp \<Rightarrow> bool" where
  "foreignOp cx key owner (OpDiscard env clock req) = (idemKeyOf cx req \<noteq> key \<or> iq_OwnerID req \<noteq> owner)"
| "foreignOp cx key owner (OpFinish env random clock now req response) = (idemKeyOf cx req \<noteq> key \<or> iq_OwnerID req \<noteq> owner)"
| "foreignOp cx key owner _ = True"

fun opBefore :: "int64 \<Rightarrow> idemOp \<Rightarrow> bool" where
  "opBefore until (OpBegin env clock now req) = (now < until)"
| "opBefore until (OpCleanup now) = (now < until)"
| "opBefore until _ = True"

lemma withTx_snd: "snd (withTx env fn s) = s \<or> (\<exists>a. fn s = Inr (a, snd (withTx env fn s)))"
  using withTx_cases [of env fn s] by auto

lemma withTx_InrD: "withTx env fn s = (Inr a, s') \<Longrightarrow> fn s = Inr (a, s')"
  using withTx_cases [of env fn s] by auto

lemma cleanup_keeps:
  assumes "map_of (st_idempotency s) key = Some row" "\<not> expiredComplete now row"
  shows "map_of (st_idempotency (cleanupIdempotencyTx now s)) key = Some row"
proof -
  define body where "body = (\<lambda>k (s :: Store). case map_of (st_idempotency s) k of None \<Rightarrow> s
    | Some row \<Rightarrow> if expiredComplete now row then s\<lparr>st_idempotency := AList.delete k (st_idempotency s)\<rparr> else s)"
  have step: "map_of (st_idempotency (body k t)) key = Some row" if "map_of (st_idempotency t) key = Some row" for k t
    using that assms(2) by (auto simp: body_def delete_conv split: option.splits)
  have "map_of (st_idempotency (fold body ks t)) key = Some row" if "map_of (st_idempotency t) key = Some row" for ks t
    using that by (induction ks arbitrary: t) (simp_all add: step)
  then show ?thesis using assms(1) unfolding cleanupIdempotencyTx_def body_def by blast
qed

lemma beginIdempotencyTx_keeps:
  assumes "map_of (st_idempotency s) key = Some row" "\<not> expiredComplete now row" "beginIdempotencyTx cx now req s = Inr (r, s')"
    and "idemKeyOf cx req = key \<and> ir_State row = ''complete'' \<and> ir_FingerprintHash row = fingerprintOf cx req \<longrightarrow> isOk (replayRow cx req row)"
  shows "map_of (st_idempotency s') key = Some row"
proof (cases "idemKeyOf cx req = key")
  case True
  have "s' = s"
  proof (cases "ir_State row = ''complete'' \<and> ir_FingerprintHash row = fingerprintOf cx req")
    case True
    with assms(4) \<open>idemKeyOf cx req = key\<close> obtain x where "replayRow cx req row = Inr x" by (auto simp: isOk_def split: sum.splits)
    with True assms(1-3) \<open>idemKeyOf cx req = key\<close> show ?thesis
      by (simp add: beginIdempotencyTx_def Let_def expiredComplete_def)
  next
    case False
    with assms(1-3) True show ?thesis by (auto simp: beginIdempotencyTx_def Let_def expiredComplete_def split: if_splits)
  qed
  with assms(1) show ?thesis by simp
next
  case False
  with assms(1,3) show ?thesis
    by (auto simp: beginIdempotencyTx_def Let_def insertIdempotencyPending_def markIdempotencyUnreplayable_def delete_conv bindR_Inr
        split: option.splits if_splits sum.splits)
qed

lemma discardTx_keeps:
  assumes "map_of (st_idempotency s) key = Some row" "discardTx cx req s = Inr (r, s')"
    and "ir_State row \<noteq> ''pending'' \<or> idemKeyOf cx req \<noteq> key \<or> iq_OwnerID req \<noteq> ir_OwnerID row"
  shows "map_of (st_idempotency s') key = Some row"
  using assms by (auto simp: discardTx_def delete_conv split: option.splits if_splits)

lemma finishTx_keeps:
  assumes "map_of (st_idempotency s) key = Some row" "finishTx cx now req e s = Inr (r, s')"
    and "ir_State row \<noteq> ''pending'' \<or> idemKeyOf cx req \<noteq> key \<or> iq_OwnerID req \<noteq> ir_OwnerID row"
  shows "map_of (st_idempotency s') key = Some row"
  using assms by (auto simp: finishTx_def Let_def split: option.splits if_splits)

lemma begin_snd: "snd (BeginIdempotency env cx clock now req s) = s
    \<or> (\<exists>r. beginIdempotencyTx cx now req s = Inr (r, snd (BeginIdempotency env cx clock now req s)))"
  using withTx_snd [of env "beginIdempotencyTx cx now req" s]
  by (auto simp: BeginIdempotency_def split: sum.splits prod.splits)

lemma discard_snd: "snd (DiscardIdempotency env cx clock req s) = s
    \<or> (\<exists>r. discardTx cx req s = Inr (r, snd (DiscardIdempotency env cx clock req s)))"
  using withTx_snd [of env "discardTx cx req" s] by (auto simp: DiscardIdempotency_def split: sum.splits)

lemma finish_snd: "snd (FinishIdempotency env cx random clock now req response s) = s
    \<or> (\<exists>e r. finishTx cx now req e s = Inr (r, snd (FinishIdempotency env cx random clock now req response s)))"
proof -
  have "snd (withTx env (finishTx cx now req e) s) = s \<or> (\<exists>r. finishTx cx now req e s = Inr (r, snd (withTx env (finishTx cx now req e) s)))" for e
    by (rule withTx_snd)
  then show ?thesis unfolding FinishIdempotency_def by (auto split: sum.splits)
qed

text \<open>A pending claim survives every foreign call, a replayable response every call before it expires.\<close>

lemma runIdem_keeps:
  assumes row: "map_of (st_idempotency s) key = Some row"
    and st: "ir_State row = ''pending'' \<and> foreignOp cx key (ir_OwnerID row) op
      \<or> ir_State row = ''complete'' \<and> opBefore (ir_ExpiresAt row) op
        \<and> (\<forall>req. idemKeyOf cx req = key \<and> ir_FingerprintHash row = fingerprintOf cx req \<longrightarrow> isOk (replayRow cx req row))"
  shows "map_of (st_idempotency (runIdem cx op s)) key = Some row"
proof (cases op)
  case (OpBegin env clock now req)
  have "\<not> expiredComplete now row" using st by (auto simp: OpBegin expiredComplete_def)
  then show ?thesis
    using begin_snd [of env cx clock now req s] beginIdempotencyTx_keeps [OF row, of now cx req] row st by (auto simp: OpBegin)
next
  case (OpDiscard env clock req)
  then show ?thesis
    using discard_snd [of env cx clock req s] discardTx_keeps [OF row, of cx req] row st by (auto simp: OpDiscard)
next
  case (OpFinish env random clock now req response)
  then show ?thesis
    using finish_snd [of env cx random clock now req response s] finishTx_keeps [OF row, of cx now req] row st by (auto simp: OpFinish)
next
  case (OpCleanup now)
  have "\<not> expiredComplete now row" using st by (auto simp: OpCleanup expiredComplete_def)
  then show ?thesis using cleanup_keeps [OF row] by (simp add: OpCleanup)
qed

lemma claim_survives:
  assumes "map_of (st_idempotency s) key = Some row" "ir_State row = ''pending''"
    and "list_all (foreignOp cx key (ir_OwnerID row)) ops"
  shows "map_of (st_idempotency (fold (runIdem cx) ops s)) key = Some row"
  using assms
proof (induction ops arbitrary: s)
  case (Cons op ops)
  then have "map_of (st_idempotency (runIdem cx op s)) key = Some row" by (intro runIdem_keeps) auto
  with Cons show ?case by simp
qed simp

lemma response_survives:
  assumes "map_of (st_idempotency s) key = Some row" "ir_State row = ''complete''" "list_all (opBefore (ir_ExpiresAt row)) ops"
    and "\<And>req. idemKeyOf cx req = key \<Longrightarrow> ir_FingerprintHash row = fingerprintOf cx req \<Longrightarrow> isOk (replayRow cx req row)"
  shows "map_of (st_idempotency (fold (runIdem cx) ops s)) key = Some row"
  using assms
proof (induction ops arbitrary: s)
  case (Cons op ops)
  then have "map_of (st_idempotency (runIdem cx op s)) key = Some row" by (intro runIdem_keeps) auto
  with Cons show ?case by simp
qed simp

lemma begin_new:
  assumes "BeginIdempotency env cx clock now req s = ((out, None), s1)" "ic_State out = ''new''"
  obtains row where "map_of (st_idempotency s1) (idemKeyOf cx req) = Some row" "ir_State row = ''pending''"
    "ir_OwnerID row = iq_OwnerID req" "ir_FingerprintHash row = fingerprintOf cx req"
proof -
  from assms(1) have "beginIdempotencyTx cx now req s = Inr ((out, None), s1)"
    using withTx_cases [of env "beginIdempotencyTx cx now req" s]
    by (auto simp: BeginIdempotency_def split: sum.splits prod.splits)
  with assms(2) have "\<exists>row. map_of (st_idempotency s1) (idemKeyOf cx req) = Some row \<and> ir_State row = ''pending''
    \<and> ir_OwnerID row = iq_OwnerID req \<and> ir_FingerprintHash row = fingerprintOf cx req"
    by (auto simp: beginIdempotencyTx_def Let_def inState_def insertIdempotencyPending_def bindR_Inr
        split: option.splits if_splits sum.splits)
  with that show thesis by blast
qed

lemma begin_claimed:
  assumes "map_of (st_idempotency s) (idemKeyOf cx req) = Some row" "ir_State row = ''pending''"
  shows "ic_State (fst (fst (BeginIdempotency env cx clock now req s))) \<noteq> ''new''"
proof -
  have "ic_State out \<noteq> ''new''" if "beginIdempotencyTx cx now req s = Inr ((out, e), s')" for out e s'
    using that assms by (auto simp: beginIdempotencyTx_def Let_def inState_def split: if_splits)
  then show ?thesis
    using withTx_cases [of env "beginIdempotencyTx cx now req" s]
    by (auto simp: BeginIdempotency_def noRecord_def split: sum.splits prod.splits option.splits)
qed

text \<open>The documented laws of AES-GCM and HMAC-SHA256 that the replay of a response rests on.\<close>

definition cryptoLaws :: "idemCrypto \<Rightarrow> bool" where
  "cryptoLaws cx \<longleftrightarrow>
     (\<forall>k n p a. gcm_Open (ix_gcm cx) k n (gcm_Seal (ix_gcm cx) k n p a) a = Some p)
     \<and> (\<forall>k n p a. length (gcm_Seal (ix_gcm cx) k n p a) = length p + overhead)
     \<and> (\<forall>k m. length (ix_hmac cx k m) = 32)"

lemma envelope_eta [simp]: "\<lparr>en_KeyID = en_KeyID e, en_Nonce = en_Nonce e, en_Ciphertext = en_Ciphertext e\<rparr> = (e :: Envelope)"
  by (cases e) simp

lemma static_current_byID: "staticCurrent k = Inr (rid, key) \<Longrightarrow> staticByID k rid = Inr key"
  by (auto simp: staticCurrent_def staticByID_def split: if_splits)

lemma open_sealed:
  assumes "sealIdempotency cx (Inr nonce) t sub kh fp plain = Inr e" and "cryptoLaws cx" "length nonce = nonceSize"
    and "ix_masterKeys cx = Some (staticKeyring k)"
  shows "openIdempotency cx t sub kh fp e = Inr plain"
proof -
  from assms(1,4) obtain rid key where cur: "staticCurrent k = Inr (rid, key)"
    and len: "length plain \<le> maxBody - overhead"
    and e: "e = \<lparr>en_KeyID = rid, en_Nonce = nonce,
        en_Ciphertext = gcm_Seal (ix_gcm cx) (derivePurposeKey cx key idempotencyKeyPurpose) nonce plain (idempotencyAAD t sub kh fp)\<rparr>"
    by (auto simp: sealIdempotency_def purposeCurrent_def staticKeyring_def bindR_Inr split: if_splits)
  have "purposeByID cx idempotencyKeyPurpose rid = Inr (derivePurposeKey cx key idempotencyKeyPurpose)"
    using static_current_byID [OF cur] assms(4) by (simp add: purposeByID_def staticKeyring_def)
  moreover have "aesKey (derivePurposeKey cx key idempotencyKeyPurpose)"
    using assms(2) by (simp add: aesKey_def derivePurposeKey_def cryptoLaws_def)
  ultimately show ?thesis
    using assms(2,3) len by (simp add: openIdempotency_def e cryptoLaws_def overhead_def maxBody_def)
qed

lemma finish_completes:
  assumes "FinishIdempotency env cx (Inr nonce) clock t req (Some r) s = (Inr (), s')"
    and row: "map_of (st_idempotency s) (idemKeyOf cx req) = Some row" "ir_State row = ''pending''"
  obtains plain e where "encodeIdempotencyResponse (Some r) = Inr plain"
    "sealIdempotency cx (Inr nonce) (iq_TenantID req) (iq_SubjectID req) (idempotencyHash cx ''key'' (iq_Key req)) (fingerprintOf cx req) plain = Inr e"
    "map_of (st_idempotency s') (idemKeyOf cx req) = Some (row\<lparr>ir_State := ''complete'', ir_KeyID := en_KeyID e, ir_Nonce := en_Nonce e,
        ir_Ciphertext := en_Ciphertext e, ir_ExpiresAt := t + maxRetention\<rparr>)"
    "ir_FingerprintHash row = fingerprintOf cx req"
proof -
  from assms(1) obtain e plain where enc: "encodeIdempotencyResponse (Some r) = Inr plain"
    and seal: "sealIdempotency cx (Inr nonce) (iq_TenantID req) (iq_SubjectID req) (idempotencyHash cx ''key'' (iq_Key req)) (fingerprintOf cx req) plain = Inr e"
    and run: "withTx env (finishTx cx t req (Some e)) s = (Inr (), s')"
    by (auto simp: FinishIdempotency_def bindR_def split: sum.splits)
  from withTx_InrD [OF run] row have "ir_FingerprintHash row = fingerprintOf cx req"
    "map_of (st_idempotency s') (idemKeyOf cx req) = Some (row\<lparr>ir_State := ''complete'', ir_KeyID := en_KeyID e, ir_Nonce := en_Nonce e,
        ir_Ciphertext := en_Ciphertext e, ir_ExpiresAt := t + maxRetention\<rparr>)"
    by (auto simp: finishTx_def Let_def split: if_splits)
  with that [OF enc seal] show thesis by blast
qed

section \<open>Properties\<close>

text \<open>C33: A key that one request has claimed as new is never granted a second time: whatever other
  callers do in between (begin with any time, finish, discard, clean-up), as long as the owner neither
  finishes nor discards, no later \<open>BeginIdempotency\<close> on the key returns the state \<open>new\<close>.\<close>

theorem claim_exclusive:
  assumes "BeginIdempotency env cx clock now req s = ((out, None), s1)" "ic_State out = ''new''"
    and "list_all (foreignOp cx (idemKeyOf cx req) (iq_OwnerID req)) ops"
    and "idemKeyOf cx req' = idemKeyOf cx req"
  shows "ic_State (fst (fst (BeginIdempotency env' cx clock' now' req' (fold (runIdem cx) ops s1)))) \<noteq> ''new''"
proof -
  from assms(1,2) obtain row where row: "map_of (st_idempotency s1) (idemKeyOf cx req) = Some row" "ir_State row = ''pending''"
    "ir_OwnerID row = iq_OwnerID req" by (rule begin_new)
  from claim_survives [OF row(1,2), of cx ops] assms(3,4) row(2,3) show ?thesis by (intro begin_claimed) simp_all
qed

text \<open>C34: The response that the owner of a claim records is replayed byte for byte, its headers in the
  order of their names: after the claim, any foreign calls, the owner's \<open>FinishIdempotency\<close> and any calls
  before the retention of 24 hours ends, a repeated request with the same fingerprint gets it back.\<close>

theorem finished_response_replayed:
  assumes "BeginIdempotency env cx clock now req s = ((out, None), s1)" "ic_State out = ''new''"
    and "list_all (foreignOp cx (idemKeyOf cx req) (iq_OwnerID req)) ops"
    and fin: "FinishIdempotency env' cx (Inr nonce) clock' t req (Some r) (fold (runIdem cx) ops s1) = (Inr (), s3)"
    and before: "list_all (opBefore (t + maxRetention)) ops'" "now' < t + maxRetention"
    and req': "idemKeyOf cx req' = idemKeyOf cx req" "fingerprintOf cx req' = fingerprintOf cx req"
      "validateIdempotencyRequest clock'' req' True = Inr ()"
    and laws: "cryptoLaws cx" "length nonce = nonceSize" "ix_masterKeys cx = Some (staticKeyring k)" "distinct (map fst (ip_Header r))"
  shows "BeginIdempotency sound cx clock'' now' req' (fold (runIdem cx) ops' s3)
    = ((\<lparr>ic_State = ''complete'', ic_Response = Some (r\<lparr>ip_Header := sort_key fst (ip_Header r)\<rparr>)\<rparr>, None), fold (runIdem cx) ops' s3)"
proof -
  from assms(1,2) obtain row where row: "map_of (st_idempotency s1) (idemKeyOf cx req) = Some row" "ir_State row = ''pending''"
    "ir_OwnerID row = iq_OwnerID req" by (rule begin_new)
  from claim_survives [OF row(1,2), of cx ops] assms(3) row(3)
  have pending: "map_of (st_idempotency (fold (runIdem cx) ops s1)) (idemKeyOf cx req) = Some row" by simp
  from fin pending row(2) obtain plain e where enc: "encodeIdempotencyResponse (Some r) = Inr plain"
    and seal: "sealIdempotency cx (Inr nonce) (iq_TenantID req) (iq_SubjectID req) (idempotencyHash cx ''key'' (iq_Key req)) (fingerprintOf cx req) plain = Inr e"
    and completed: "map_of (st_idempotency s3) (idemKeyOf cx req) = Some (row\<lparr>ir_State := ''complete'', ir_KeyID := en_KeyID e, ir_Nonce := en_Nonce e,
        ir_Ciphertext := en_Ciphertext e, ir_ExpiresAt := t + maxRetention\<rparr>)" (is "_ = Some ?row")
    and fp: "ir_FingerprintHash row = fingerprintOf cx req" by (rule finish_completes)
  have replay: "replayRow cx q ?row = Inr (r\<lparr>ip_Header := sort_key fst (ip_Header r)\<rparr>)"
    if "idemKeyOf cx q = idemKeyOf cx req" "fingerprintOf cx q = fingerprintOf cx req" for q
    using that open_sealed [OF seal laws(1-3)] decode_encode [OF enc laws(4)] by (simp add: replayRow_def idemKeyOf_def)
  have "map_of (st_idempotency (fold (runIdem cx) ops' s3)) (idemKeyOf cx req) = Some ?row"
    by (rule response_survives [OF completed]) (use before(1) in \<open>simp_all add: fp replay isOk_def\<close>)
  with before(2) req' replay [OF req'(1,2)] fp show ?thesis
    by (simp add: BeginIdempotency_def withTx_def sound_def beginIdempotencyTx_def Let_def)
qed

section \<open>Examples\<close>

definition exampleCrypto :: idemCrypto where
  "exampleCrypto =
     \<lparr>ix_sha256 = (\<lambda>x. drop 21 x), ix_hmac = (\<lambda>k m. replicate 32 (CHR ''k'')),
      ix_gcm = \<lparr>gcm_Seal = (\<lambda>k n p a. p @ replicate 16 (CHR ''t'')), gcm_Open = (\<lambda>k n c a. Some (take (length c - 16) c))\<rparr>,
      ix_masterKeys = Some (staticKeyring \<lparr>kg_ID = ''m1'', kg_Key = replicate 32 (CHR ''m''), kg_Previous = []\<rparr>)\<rparr>"

definition exampleRequest :: "string \<Rightarrow> IdempotencyRequest" where
  "exampleRequest owner =
     \<lparr>iq_TenantID = ''t1'', iq_SubjectID = ''key:k1'', iq_Key = ''a'', iq_Fingerprint = ''f'', iq_OwnerID = owner,
      iq_ExpiresAt = 500 * second\<rparr>"

definition exampleResponse :: IdempotencyResponse where
  "exampleResponse = \<lparr>ip_Status = 200, ip_Header = [(''B'', [''2'']), (''A'', [''1''])], ip_Body = ''ok''\<rparr>"

lemma example_valid:
  "validateIdempotencyRequest clock (exampleRequest ''o1'') True = Inr ()"
  "validateIdempotencyRequest clock (exampleRequest ''o2'') True = Inr ()"
  by (simp_all add: validateIdempotencyRequest_def validIdempotencyString_def exampleRequest_def isZeroTime_def zeroTime_def second_def str_eval)

lemma example_key: "idemKeyOf exampleCrypto (exampleRequest a) = idemKeyOf exampleCrypto (exampleRequest b)"
  "fingerprintOf exampleCrypto (exampleRequest a) = fingerprintOf exampleCrypto (exampleRequest b)"
  by (simp_all add: idemKeyOf_def fingerprintOf_def exampleRequest_def)

lemma example_owner [simp]: "iq_OwnerID (exampleRequest a) = a"
  by (simp add: exampleRequest_def)

lemma example_laws: "cryptoLaws exampleCrypto"
  by (simp add: cryptoLaws_def exampleCrypto_def overhead_def)

definition exampleClaim :: Store where
  "exampleClaim = insertIdempotencyPending (exampleRequest ''o1'') (idemKeyOf exampleCrypto (exampleRequest ''o1''))
     (fingerprintOf exampleCrypto (exampleRequest ''o1'')) 500 emptyStore"

lemma example_begin:
  "BeginIdempotency sound exampleCrypto 0 100 (exampleRequest ''o1'') emptyStore = ((inState ''new'', None), exampleClaim)"
  by (simp add: BeginIdempotency_def example_valid withTx_def sound_def beginIdempotencyTx_def Let_def emptyStore_def exampleClaim_def
      claimExpiry_def maxRetention_def) (simp add: exampleRequest_def unixTime_def second_def)

theorem claim_exclusive_witness:
  "ic_State (fst (fst (BeginIdempotency sound exampleCrypto 0 200 (exampleRequest ''o2'')
     (fold (runIdem exampleCrypto) [OpCleanup 150, OpDiscard sound 0 (exampleRequest ''o2'')] exampleClaim)))) \<noteq> ''new''"
  by (rule claim_exclusive [OF example_begin]) (simp_all add: inState_def example_key [of "''o2''" "''o1''"] example_owner)

lemma example_headers:
  "normalizeIdempotencyHeaders (ip_Header exampleResponse) = Inr ([(''A'', [''1'']), (''B'', [''2''])], 4)"
  by (simp add: exampleResponse_def normalizeIdempotencyHeaders_def addHeader_def addHeaderValue_def Let_def
      maxHeaderBytes_def maxHeaderValue_def str_eval hasControl_def)

lemma example_encode: "\<exists>plain. encodeIdempotencyResponse (Some exampleResponse) = Inr plain \<and> length plain = 34"
  by (simp add: encodeIdempotencyResponse_def example_headers maxBody_def maxHeaderBytes_def encodedSize_def encodeHeader_def
      encodeValue_def appendUint16_def appendUint32_def) (simp add: exampleResponse_def)

lemma example_seal:
  assumes "length plain = 34"
  shows "\<exists>e. sealIdempotency exampleCrypto (Inr (replicate 12 (CHR ''n''))) t sub kh fp plain = Inr e"
  using assms by (simp add: sealIdempotency_def purposeCurrent_def exampleCrypto_def staticKeyring_def staticCurrent_def aesKey_def
      derivePurposeKey_def maxBody_def overhead_def)

definition exampleDone :: Store where
  "exampleDone = snd (FinishIdempotency sound exampleCrypto (Inr (replicate 12 (CHR ''n''))) 0 300 (exampleRequest ''o1'')
     (Some exampleResponse) exampleClaim)"

lemma example_finish:
  "FinishIdempotency sound exampleCrypto (Inr (replicate 12 (CHR ''n''))) 0 300 (exampleRequest ''o1'') (Some exampleResponse) exampleClaim
     = (Inr (), exampleDone)"
proof -
  obtain plain where plain: "encodeIdempotencyResponse (Some exampleResponse) = Inr plain" "length plain = 34" using example_encode by blast
  from example_seal [OF this(2)] obtain e where
    "sealIdempotency exampleCrypto (Inr (replicate 12 (CHR ''n''))) (iq_TenantID (exampleRequest ''o1'')) (iq_SubjectID (exampleRequest ''o1''))
       (idempotencyHash exampleCrypto ''key'' (iq_Key (exampleRequest ''o1''))) (fingerprintOf exampleCrypto (exampleRequest ''o1'')) plain = Inr e" by blast
  with plain have "fst (FinishIdempotency sound exampleCrypto (Inr (replicate 12 (CHR ''n''))) 0 300 (exampleRequest ''o1'')
      (Some exampleResponse) exampleClaim) = Inr ()"
    by (simp add: FinishIdempotency_def example_valid withTx_def sound_def finishTx_def exampleClaim_def insertIdempotencyPending_def Let_def)
  then show ?thesis by (simp add: exampleDone_def prod_eq_iff)
qed

lemma example_distinct: "distinct (map fst (ip_Header exampleResponse))"
  by (simp add: exampleResponse_def)

lemma example_master:
  "ix_masterKeys exampleCrypto = Some (staticKeyring \<lparr>kg_ID = ''m1'', kg_Key = replicate 32 (CHR ''m''), kg_Previous = []\<rparr>)"
  by (simp add: exampleCrypto_def)

theorem finished_response_replayed_witness:
  "BeginIdempotency sound exampleCrypto 0 400 (exampleRequest ''o2'') (fold (runIdem exampleCrypto) [OpCleanup 350] exampleDone)
    = ((\<lparr>ic_State = ''complete'', ic_Response = Some (exampleResponse\<lparr>ip_Header := sort_key fst (ip_Header exampleResponse)\<rparr>)\<rparr>, None),
       fold (runIdem exampleCrypto) [OpCleanup 350] exampleDone)"
  by (rule finished_response_replayed [OF example_begin, where ops = "[]" and r = exampleResponse and t = 300
        and env' = sound and clock' = 0 and nonce = "replicate 12 (CHR ''n'')"
        and k = "\<lparr>kg_ID = ''m1'', kg_Key = replicate 32 (CHR ''m''), kg_Previous = []\<rparr>"])
     (simp_all add: inState_def example_finish example_key [of "''o2''" "''o1''"] example_valid example_laws nonceSize_def
        maxRetention_def example_distinct example_master)

end
