(* ===== verification/Maintenance.thy ===== *)
theory Maintenance
  imports Admission Idempotency
begin

text \<open>
  Periodic maintenance, from \<open>store/governance_maintenance.go\<close>: attempts whose deadline passed without
  an outcome become unknown and give their concurrency back, settled attempts, ledger entries and
  audit events are pruned by age, expired responses are removed.  The rows that a query returns are
  read before the loop that changes them; equal \<open>updated_at\<close> values are returned in table order.
\<close>

section \<open>Definitions\<close>

definition attemptRetentionSeconds :: int64 where
  "attemptRetentionSeconds = 2592000"

definition usageRetentionSeconds :: int64 where
  "usageRetentionSeconds = 31536000"

definition auditRetentionSeconds :: int64 where
  "auditRetentionSeconds = 7776000"

definition attemptCancellationGraceSeconds :: int64 where
  "attemptCancellationGraceSeconds = 30"

definition overdue :: "int64 \<Rightarrow> attemptRow \<Rightarrow> bool" where
  "overdue cutoff row =
     (at_Deadline row > 0 \<and> at_Deadline row \<le> cutoff
      \<and> (at_State row = ''dispatch_intent'' \<or> at_State row = ''accepted''
         \<or> at_State row = ''outcome_unknown'' \<and> \<not> (case at_Data row of None \<Rightarrow> False | Some ev \<Rightarrow> ev_ConcurrencyReleased ev)))"

definition pendingAttempts :: "int64 \<Rightarrow> Store \<Rightarrow> ((string \<times> string) \<times> attemptRow) list" where
  "pendingAttempts cutoff s =
     take 256 (sort_key (\<lambda>(k, row). (at_Deadline row, k)) (filter (\<lambda>(k, row). overdue cutoff row) (st_attempts s)))"

definition releaseHold :: "nat \<Rightarrow> attemptEnvelope \<times> Store \<Rightarrow> (attemptEnvelope \<times> Store) res" where
  "releaseHold i es =
     (let ev = fst es in
      if al_Kind (ap_Allowances (ev_Plan ev) ! i) = ''concurrency'' \<and> i < length (ev_Held ev) \<and> ev_Held ev ! i > 0
      then adjustHold i 0 es else Inr es)"

definition releaseAttempt :: "int64 \<Rightarrow> (string \<times> string) \<times> attemptRow \<Rightarrow> Store \<Rightarrow> Store res" where
  "releaseAttempt now kr s =
     (case at_Data (snd kr) of
        None \<Rightarrow> Inl decodeError
      | Some ev \<Rightarrow>
          bindR (foldR releaseHold [0..<length (ap_Allowances (ev_Plan ev))] (ev, s)) (\<lambda>(ev1, s1).
          saveAttempt (ev1\<lparr>ev_ConcurrencyReleased := True, ev_UpdatedAt := now\<rparr>) ''outcome_unknown'' (at_Version (snd kr)) s1))"

definition settledAttempts :: "Store \<Rightarrow> ((string \<times> string) \<times> attemptRow) list" where
  "settledAttempts s = take 256 (sort_key (\<lambda>(k, row). at_UpdatedAt row) (filter (\<lambda>(k, row). at_State row = ''settled'') (st_attempts s)))"

definition prunable :: "int64 \<Rightarrow> attemptRow \<Rightarrow> bool" where
  "prunable now row =
     (case at_Data row of
        None \<Rightarrow> False
      | Some ev \<Rightarrow> ev_UpdatedAt ev > 0 \<and> ev_UpdatedAt ev < now - attemptRetentionSeconds)"

definition pruneAttempt :: "int64 \<Rightarrow> (string \<times> string) \<times> attemptRow \<Rightarrow> Store \<Rightarrow> Store" where
  "pruneAttempt now kr s =
     (if prunable now (snd kr)
         \<and> (case map_of (st_attempts s) (fst kr) of None \<Rightarrow> False | Some row \<Rightarrow> at_State row = ''settled'')
      then s\<lparr>st_attempts := AList.delete (fst kr) (st_attempts s)\<rparr> else s)"

definition pruneLedger :: "int64 \<Rightarrow> Store \<Rightarrow> Store" where
  "pruneLedger now s =
     s\<lparr>st_usage_ledger := filter (\<lambda>(k, r). \<not> (lg_created r < now - usageRetentionSeconds
         \<and> \<not> hasPrefix (lg_kind r) ''reconciliation:'')) (st_usage_ledger s)\<rparr>"

definition pruneAudit :: "int64 \<Rightarrow> Store \<Rightarrow> Store" where
  "pruneAudit now s =
     s\<lparr>st_audit_events := filter (\<lambda>(k, r). \<not> au_created r < now - auditRetentionSeconds) (st_audit_events s)\<rparr>"

definition maintenanceTx :: "int64 \<Rightarrow> unit txn" where
  "maintenanceTx now s =
     bindR (foldR (releaseAttempt now) (pendingAttempts (now - attemptCancellationGraceSeconds) s) s) (\<lambda>s1.
     Inr ((), cleanupIdempotencyTx now (pruneAudit now (pruneLedger now (fold (pruneAttempt now) (settledAttempts s1) s1)))))"

definition RunMaintenance :: "txEnv \<Rightarrow> int64 \<Rightarrow> Store \<Rightarrow> unit res \<times> Store" where
  "RunMaintenance env now s = withTx env (maintenanceTx now) s"

section \<open>Maintenance keeps the books\<close>

declare split_paired_All [simp del] split_paired_Ex [simp del]

lemma releaseHolds_adjusted:
  assumes "foldR releaseHold is (ev, s) = Inr (ev', s')" and "length (ev_Held ev) = length (ap_Allowances (ev_Plan ev))"
  shows "adjusted ev s ev' s'"
  by (rule adjustLoop [OF assms]) (auto simp: releaseHold_def adjustHold_def Let_def split: if_splits)

lemma releaseAttempt_moved:
  assumes "releaseAttempt now (key, row) s = Inr s'" "rowsOk s" "map_of (st_attempts s) key = Some row"
  obtains ev where "moved key ''outcome_unknown'' ev s s'"
proof -
  from rowsOkD [OF assms(2,3)] obtain ev where ev: "at_Data row = Some ev" "envelopeOk key ev" by blast
  from assms(1) obtain ev1 s1 where fold: "foldR releaseHold [0..<length (ap_Allowances (ev_Plan ev))] (ev, s) = Inr (ev1, s1)"
    and save: "saveAttempt (ev1\<lparr>ev_ConcurrencyReleased := True, ev_UpdatedAt := now\<rparr>) ''outcome_unknown'' (at_Version row) s1 = Inr s'"
    by (auto simp: releaseAttempt_def ev(1) bindR_Inr)
  have adj: "adjusted ev s ev1 s1" using releaseHolds_adjusted [OF fold] ev(2) by (simp add: envelopeOk_def)
  have "moved key ''outcome_unknown'' (ev1\<lparr>ev_ConcurrencyReleased := True, ev_UpdatedAt := now\<rparr>) s s'"
    by (rule saveAttempt_moved [OF save assms(2,3) ev(1) refl refl adj ev(2)]) simp_all
  then show thesis by (rule that)
qed

lemma moved_others: "moved key state ev s s' \<Longrightarrow> k \<noteq> key \<Longrightarrow> map_of (st_attempts s') k = map_of (st_attempts s) k"
  by (auto simp: moved_def)

lemma releases_books:
  assumes "foldR (releaseAttempt now) xs s = Inr s'" "booksOk s" "distinct (map fst xs)"
    and "\<forall>(k, r) \<in> set xs. map_of (st_attempts s) k = Some r"
  shows "booksOk s'"
  using assms
proof (induction xs arbitrary: s)
  case (Cons kr xs)
  obtain k r where kr: "kr = (k, r)" by (cases kr)
  from Cons.prems(1) obtain s1 where 1: "releaseAttempt now (k, r) s = Inr s1" and rest: "foldR (releaseAttempt now) xs s1 = Inr s'"
    by (auto simp: kr bindR_Inr)
  obtain ev where m: "moved k ''outcome_unknown'' ev s s1"
    using releaseAttempt_moved [OF 1] Cons.prems(2,4) by (auto simp: kr booksOk_def)
  have "\<forall>(k', r') \<in> set xs. map_of (st_attempts s1) k' = Some r'"
    using Cons.prems(3,4) moved_others [OF m] by (force simp: kr)
  with Cons.IH [OF rest booksOk_moved [OF m Cons.prems(2)]] Cons.prems(3) show ?case by simp
qed simp

lemma sum_list_delete_table:
  fixes f :: "'k \<times> 'v \<Rightarrow> int"
  assumes "tbl_ok t"
  shows "sum_list (map f (AList.delete k t)) = sum_list (map f t) - (case map_of t k of None \<Rightarrow> 0 | Some w \<Rightarrow> f (k, w))"
  using assms
proof (induction t)
  case (Cons kw t)
  have "AList.delete (fst kw) t = t" if "fst kw \<notin> fst ` set t"
    using that by (simp add: delete_id)
  with Cons show ?case by (cases kw) (auto simp: tbl_ok_def map_of_eq_None_iff split: option.splits)
qed simp

lemma rowHeld_nonneg:
  assumes "at_Data row = Some ev" "envelopeOk key ev"
  shows "0 \<le> rowHeld K row"
  using assms by (auto simp: rowHeld_def heldAt_def envelopeOk_def list_all_length intro!: sum_nonneg)

lemma booksOk_delete:
  assumes "booksOk s"
  shows "booksOk (s\<lparr>st_attempts := AList.delete key (st_attempts s)\<rparr>)" (is "booksOk ?s")
proof -
  have rows: "rowsOk s" and tbl: "tbl_ok (st_attempts s)" using assms by (simp_all add: booksOk_def rowsOk_def)
  have "heldTotal ?s K \<le> heldTotal s K" for K
  proof (cases "map_of (st_attempts s) key")
    case (Some row)
    from rowsOkD [OF rows Some] rowHeld_nonneg [of row _ key K] have "0 \<le> rowHeld K row" by blast
    then show ?thesis by (simp add: heldTotal_def sum_list_delete_table [OF tbl] Some)
  qed (simp add: heldTotal_def sum_list_delete_table [OF tbl])
  moreover have "reservedAt ?s K = reservedAt s K" for K by (simp add: reservedAt_def)
  ultimately have "slack s K \<le> slack ?s K" for K by (simp add: slack_def)
  then have "0 \<le> slack ?s K" for K using assms order_trans [of 0 "slack s K" "slack ?s K"] by (simp add: booksOk_def)
  moreover have "set (AList.delete key (st_attempts s)) \<subseteq> set (st_attempts s)" by (auto simp: AList.delete_eq)
  then have "rowsOk ?s" using rows by (auto simp: rowsOk_def list_all_iff backed_def)
  moreover have "limitsBacked ?s" using assms by (simp add: booksOk_def limitsBacked_def)
  ultimately show ?thesis by (simp add: booksOk_def)
qed

lemma booksOk_prune: "booksOk s \<Longrightarrow> booksOk (fold (pruneAttempt now) xs s)"
proof (induction xs arbitrary: s)
  case (Cons x xs)
  then have "booksOk (pruneAttempt now x s)" using booksOk_delete by (simp add: pruneAttempt_def)
  with Cons.IH show ?case by simp
qed simp

lemma booksOk_frame:
  assumes "st_attempts s' = st_attempts s" "st_allowances s' = st_allowances s" "st_policy_limits s' = st_policy_limits s" "booksOk s"
  shows "booksOk s'"
  using assms by (simp add: booksOk_def rowsOk_def limitsBacked_def slack_def reservedAt_def heldTotal_def backed_def)

lemma cleanup_frame:
  "st_attempts (cleanupIdempotencyTx now s) = st_attempts s" "st_allowances (cleanupIdempotencyTx now s) = st_allowances s"
  "st_policy_limits (cleanupIdempotencyTx now s) = st_policy_limits s" "st_usage_ledger (cleanupIdempotencyTx now s) = st_usage_ledger s"
proof -
  define body where "body = (\<lambda>k (s :: Store). case map_of (st_idempotency s) k of None \<Rightarrow> s
    | Some row \<Rightarrow> if expiredComplete now row then s\<lparr>st_idempotency := AList.delete k (st_idempotency s)\<rparr> else s)"
  have step: "st_attempts (body k t) = st_attempts t \<and> st_allowances (body k t) = st_allowances t
      \<and> st_policy_limits (body k t) = st_policy_limits t \<and> st_usage_ledger (body k t) = st_usage_ledger t" for k t
    by (auto simp: body_def split: option.splits)
  have "st_attempts (fold body ks t) = st_attempts t \<and> st_allowances (fold body ks t) = st_allowances t
      \<and> st_policy_limits (fold body ks t) = st_policy_limits t \<and> st_usage_ledger (fold body ks t) = st_usage_ledger t" for ks t
    by (induction ks arbitrary: t) (simp_all add: step)
  then show "st_attempts (cleanupIdempotencyTx now s) = st_attempts s" "st_allowances (cleanupIdempotencyTx now s) = st_allowances s"
    "st_policy_limits (cleanupIdempotencyTx now s) = st_policy_limits s" "st_usage_ledger (cleanupIdempotencyTx now s) = st_usage_ledger s"
    unfolding cleanupIdempotencyTx_def body_def by blast+
qed

lemma booksOk_maintenanceTx:
  assumes "maintenanceTx now s = Inr (u, s')" "booksOk s"
  shows "booksOk s'"
proof -
  from assms(1) obtain s1 where run: "foldR (releaseAttempt now) (pendingAttempts (now - attemptCancellationGraceSeconds) s) s = Inr s1"
    and s': "s' = cleanupIdempotencyTx now (pruneAudit now (pruneLedger now (fold (pruneAttempt now) (settledAttempts s1) s1)))"
    by (auto simp: maintenanceTx_def bindR_Inr)
  have "tbl_ok (st_attempts s)" using assms(2) by (simp add: booksOk_def rowsOk_def)
  note sel = tbl_selected [OF this, of 256 "\<lambda>(k, row). (at_Deadline row, k)" "\<lambda>(k, row). overdue (now - attemptCancellationGraceSeconds) row"]
  have "booksOk s1"
    using releases_books [OF run assms(2)] sel unfolding pendingAttempts_def by blast
  then have "booksOk (fold (pruneAttempt now) (settledAttempts s1) s1)" by (rule booksOk_prune)
  then show ?thesis by (rule booksOk_frame [rotated 3]) (simp_all add: s' cleanup_frame pruneAudit_def pruneLedger_def)
qed

end
