(* ===== verification/Reconcile.thy ===== *)
theory Reconcile
  imports Maintenance Resources
begin

text \<open>
  Reconciliation of attempts whose outcome is unknown, \<open>Reconcile\<close> of \<open>store/actions.go\<close>: an operator
  supplies evidence or charges the reserved maximum; the holds, the charge, the ledger, the audit
  trail and the immutable record of the request change in one transaction.  A repeated request with
  the same identifier returns the recorded result.  JSON documents are compared as values.
\<close>

section \<open>Definitions\<close>

definition reconciliationGuard :: "int64 \<Rightarrow> Reconciliation \<Rightarrow> Reconciliation res" where
  "reconciliationGuard expected r =
     (if expected \<le> 0 then Inl (storeError ''invalid_version'' 400)
      else if trimSpace (rc_Reason r) = '''' \<or> rc_Mode r \<notin> {''provider_evidence'', ''charge_reserved_maximum''} then
        Inl (storeError ''invalid_reconciliation'' 400)
      else if negativeCost (rc_Cost r) then Inl (storeError ''invalid_reconciliation_cost'' 400)
      else if rc_Mode r = ''provider_evidence''
              \<and> (trimSpace (rc_SourceReference r) = '''' \<or> (rc_Usage r = None \<and> rc_Cost r = None)) then
        Inl (storeError ''reconciliation_evidence_required'' 400)
      else case rc_Usage r of
        None \<Rightarrow> Inr r
      | Some u \<Rightarrow>
          (case normalizeUsage (Some u) of (normalized, valid, totalKnown) \<Rightarrow>
             if \<not> valid \<or> (case normalized of None \<Rightarrow> True
                  | Some n \<Rightarrow> us_Input n \<noteq> None \<and> us_Output n \<noteq> None \<and> \<not> totalKnown) then
               Inl (storeError ''invalid_reconciliation_usage'' 400)
             else Inr (r\<lparr>rc_Usage := normalized\<rparr>)))"

definition reservedMaximum :: "attemptEnvelope \<Rightarrow> int64 res" where
  "reservedMaximum ev =
     (case ap_MaximumCost (ev_Plan ev) of
        Some c \<Rightarrow> Inr c
      | None \<Rightarrow>
          let (charge, found) = fold (\<lambda>a (charge, found).
                if al_Kind a = ''cost'' then (if \<not> found \<or> al_Maximum a > charge then al_Maximum a else charge, True)
                else (charge, found)) (ap_Allowances (ev_Plan ev)) (ev_ChargedCost ev, False)
          in if found then Inr charge else Inl (storeError ''reconciliation_maximum_unavailable'' 409))"

text \<open>The charge that the request establishes and whether it is known.\<close>

definition reconciledCharge :: "attemptEnvelope \<Rightarrow> Reconciliation \<Rightarrow> (int64 \<times> bool) res" where
  "reconciledCharge ev r =
     (let known = ev_ChargedCostKnown ev \<or> ev_ChargedCost ev \<noteq> 0 in
      if rc_Mode r = ''provider_evidence'' then
        (case rc_Cost r of
           Some c \<Rightarrow> Inr (c, True)
         | None \<Rightarrow>
             (case rc_Usage r of
                None \<Rightarrow> Inr (ev_ChargedCost ev, known)
              | Some u \<Rightarrow>
                  (case EstimateUsageCost (Some u) (ev_Price ev) of
                     Inr c \<Rightarrow> Inr (c, True)
                   | Inl e \<Rightarrow> Inr (ev_ChargedCost ev, if e \<noteq> ErrUnknownCost then False else known))))
      else if rc_Mode r = ''charge_reserved_maximum'' then bindR (reservedMaximum ev) (\<lambda>c. Inr (c, True))
      else Inr (ev_ChargedCost ev, known))"

definition reconciledTarget :: "Reconciliation \<Rightarrow> int64 \<times> bool \<Rightarrow> string \<Rightarrow> int64 option" where
  "reconciledTarget r charge kind =
     (if kind = ''cost'' then (if snd charge then Some (fst charge) else None)
      else if kind = ''tokens'' then
        (if rc_Mode r = ''provider_evidence'' then (case rc_Usage r of None \<Rightarrow> None | Some u \<Rightarrow> us_Total u) else None)
      else if kind = ''concurrency'' then Some 0
      else None)"

definition reconcileHold :: "Reconciliation \<Rightarrow> int64 \<times> bool \<Rightarrow> nat \<Rightarrow> attemptEnvelope \<times> Store \<Rightarrow> (attemptEnvelope \<times> Store) res" where
  "reconcileHold r charge i es =
     (case reconciledTarget r charge (al_Kind (ap_Allowances (ev_Plan (fst es)) ! i)) of
        None \<Rightarrow> Inr es
      | Some target \<Rightarrow>
          if target > ev_Held (fst es) ! i then adjustIncurredHold i target es else adjustHold i target es)"

definition reconciledOutcome :: "string \<Rightarrow> string \<Rightarrow> Reconciliation \<Rightarrow> int64 \<times> bool \<Rightarrow> attemptEnvelope \<Rightarrow> AttemptOutcome" where
  "reconciledOutcome tenant admission r charge ev =
     (let o0 = (case ev_Outcome ev of
            Some x \<Rightarrow> x
          | None \<Rightarrow> \<lparr>ao_TenantID = tenant, ao_RequestID = ap_RequestID (ev_Plan ev), ao_AttemptID = admission,
                     ao_State = ''outcome_unknown'', ao_Cancellation = '''', ao_Usage = None, ao_ActualCost = None\<rparr>);
          o1 = (if snd charge then o0\<lparr>ao_ActualCost := Some (fst charge)\<rparr> else o0)
      in if rc_Mode r = ''provider_evidence'' \<and> rc_Usage r \<noteq> None then o1\<lparr>ao_Usage := rc_Usage r\<rparr> else o1)"

definition reconciledEnvelope :: "int64 \<Rightarrow> string \<Rightarrow> string \<Rightarrow> Reconciliation \<Rightarrow> int64 \<times> bool \<Rightarrow> attemptEnvelope \<Rightarrow> attemptEnvelope" where
  "reconciledEnvelope clock tenant admission r charge ev =
     (let ev1 = (if snd charge then ev\<lparr>ev_ChargedCost := fst charge, ev_ChargedCostKnown := True\<rparr> else ev)
      in ev1\<lparr>ev_Reconciled := True, ev_UpdatedAt := clock,
             ev_AcceptedEvidence := (if rc_Mode r = ''provider_evidence'' then rc_SourceReference r else ev_AcceptedEvidence ev),
             ev_Outcome := Some (reconciledOutcome tenant admission r charge ev)\<rparr>)"

definition reconciliationLedger :: "int64 \<Rightarrow> string \<Rightarrow> string \<Rightarrow> Reconciliation \<Rightarrow> int64 option \<Rightarrow> Store \<Rightarrow> Store res" where
  "reconciliationLedger clock tenant admission r delta s =
     (let effect = ''reconciliation:'' @ rc_ReconciliationID r in
      if map_of (st_usage_ledger s) (tenant, effect) \<noteq> None then Inl (GoErr ''UNIQUE constraint failed'')
      else Inr (s\<lparr>st_usage_ledger := AList.update (tenant, effect)
             \<lparr>lg_attempt = admission, lg_kind = effect, lg_amount = delta, lg_created = clock\<rparr> (st_usage_ledger s)\<rparr>))"

definition reconcilable :: "int64 \<Rightarrow> string \<Rightarrow> int64 \<Rightarrow> unit res" where
  "reconcilable expected state version =
     (if version \<noteq> expected then Inl (storeError ''version_conflict'' 412)
      else if version = maxInt64 then Inl (storeError ''version_exhausted'' 409)
      else if state \<noteq> ''outcome_unknown'' then Inl (storeError ''attempt_not_reconcilable'' 409)
      else Inr ())"

definition chargeGuard :: "int64 \<times> bool \<Rightarrow> unit res" where
  "chargeGuard charge = (if snd charge \<and> fst charge < 0 then Inl (storeError ''reconciliation_maximum_unavailable'' 409) else Inr ())"

text \<open>The records of a reconciliation after the holds: ledger, attempt, audit event and the request itself.\<close>

definition recordReconciliation :: "string \<Rightarrow> int64 \<Rightarrow> Principal \<Rightarrow> string \<Rightarrow> int64 \<Rightarrow> Reconciliation \<Rightarrow> Reconciliation
    \<Rightarrow> int64 \<times> bool \<Rightarrow> int64 \<Rightarrow> attemptEnvelope \<Rightarrow> (int64 \<times> reconciliationResult) txn" where
  "recordReconciliation aid clock p admission expected original r charge version ev s =
     (let delta = (if snd charge then Some (fst charge - ev_ChargedCost ev) else None);
          result = \<lparr>rr_Reconciliation = r, rr_Admission = admission, rr_AdmissionVersion = version + 1, rr_State = ''outcome_unknown'',
                    rr_ChargedCost = (if snd charge then Some (fst charge) else None), rr_Delta = delta\<rparr>;
          row = \<lparr>rw_admission = admission, rw_request = (admission, expected, original), rw_result = result, rw_version = 1\<rparr>
      in bindR (reconciliationLedger clock (pr_TenantID p) admission r delta s) (\<lambda>s2.
         bindR (saveAttempt (reconciledEnvelope clock (pr_TenantID p) admission r charge ev) ''outcome_unknown'' version s2) (\<lambda>s3.
         bindR (auditTx aid clock p ''admissions'' admission ''reconcile'' (version + 1) s3) (\<lambda>(_, s4).
         Inr ((1, result), s4\<lparr>st_reconciliations := AList.update (pr_TenantID p, rc_ReconciliationID r) row (st_reconciliations s4)\<rparr>)))))"

definition applyReconciliation :: "string \<Rightarrow> int64 \<Rightarrow> Principal \<Rightarrow> string \<Rightarrow> int64 \<Rightarrow> Reconciliation \<Rightarrow> Reconciliation
    \<Rightarrow> int64 \<times> bool \<Rightarrow> attemptEnvelope \<Rightarrow> int64 \<Rightarrow> (int64 \<times> reconciliationResult) txn" where
  "applyReconciliation aid clock p admission expected original r charge ev version s =
     bindR (foldR (reconcileHold r charge) [0..<length (ap_Allowances (ev_Plan ev))] (ev, s)) (\<lambda>(ev1, s1).
     if ev_ChargedCost ev1 < 0 then Inl (storeError ''invalid_accounting_state'' 409)
     else recordReconciliation aid clock p admission expected original r charge version ev1 s1)"

definition reconcileNew :: "string \<Rightarrow> int64 \<Rightarrow> Principal \<Rightarrow> string \<Rightarrow> int64 \<Rightarrow> Reconciliation \<Rightarrow> (int64 \<times> reconciliationResult) txn" where
  "reconcileNew aid clock p admission expected original s =
     bindR (reconciliationGuard expected original) (\<lambda>r.
     bindR (case loadAttempt (pr_TenantID p) admission s of
              Inl e \<Rightarrow> Inl (if e = ErrNoRows then storeError ''not_found'' 404 else e)
            | Inr x \<Rightarrow> Inr x) (\<lambda>(ev, state, version).
     bindR (reconcilable expected state version) (\<lambda>_.
     bindR (reconciledCharge ev r) (\<lambda>charge.
     bindR (chargeGuard charge) (\<lambda>_.
     applyReconciliation aid clock p admission expected original r charge ev version s)))))"

definition reconcileTx :: "string \<Rightarrow> int64 \<Rightarrow> Principal \<Rightarrow> string \<Rightarrow> int64 \<Rightarrow> Reconciliation \<Rightarrow> (int64 \<times> reconciliationResult) txn" where
  "reconcileTx aid clock p0 admission expected r s =
     bindR (resolvePrincipalTx p0 s) (\<lambda>p.
     bindR (authorize p True) (\<lambda>_.
     case map_of (st_reconciliations s) (pr_TenantID p, rc_ReconciliationID r) of
       Some old \<Rightarrow>
         if rw_admission old \<noteq> admission \<or> rw_request old \<noteq> (admission, expected, r) then Inl (storeError ''conflict'' 409)
         else Inr ((rw_version old, rw_result old), s)
     | None \<Rightarrow> reconcileNew aid clock p admission expected r s))"

definition Reconcile :: "txEnv \<Rightarrow> string \<Rightarrow> int64 \<Rightarrow> Principal \<Rightarrow> string \<Rightarrow> int64 \<Rightarrow> Reconciliation \<Rightarrow> Store
    \<Rightarrow> (int64 \<times> reconciliationResult) res \<times> Store" where
  "Reconcile env aid clock p admission expected r s =
     (if trimSpace (rc_ReconciliationID r) = '''' \<or> trimSpace admission = '''' then
        (Inl (storeError ''invalid_reconciliation'' 400), s)
      else withTx env (reconcileTx aid clock p admission expected r) s)"

section \<open>Reconciliation keeps the books\<close>

declare split_paired_All [simp del] split_paired_Ex [simp del]

lemma reconcileHolds_adjusted:
  assumes "foldR (reconcileHold r charge) is (ev, s) = Inr (ev', s')" and "length (ev_Held ev) = length (ap_Allowances (ev_Plan ev))"
  shows "adjusted ev s ev' s'"
  by (rule adjustLoop [OF assms])
     (auto simp: reconcileHold_def adjustHold_def adjustIncurredHold_def split: option.splits if_splits)

lemma moved_frame:
  assumes "moved key state ev s s1" "st_attempts s2 = st_attempts s1" "st_allowances s2 = st_allowances s1" "st_policy_limits s2 = st_policy_limits s1"
  shows "moved key state ev s s2"
  using assms by (simp add: moved_def reservedAt_def)

lemma reconciledEnvelope_keeps [simp]:
  "ev_Plan (reconciledEnvelope clock t a r charge ev) = ev_Plan ev" "ev_Held (reconciledEnvelope clock t a r charge ev) = ev_Held ev"
  by (auto simp: reconciledEnvelope_def Let_def)

lemma recordReconciliation_okD:
  assumes "recordReconciliation aid clock p admission expected original r charge version ev s = Inr (res, s')"
  shows "\<exists>s2 s3. reconciliationLedger clock (pr_TenantID p) admission r (if snd charge then Some (fst charge - ev_ChargedCost ev) else None) s = Inr s2
    \<and> saveAttempt (reconciledEnvelope clock (pr_TenantID p) admission r charge ev) ''outcome_unknown'' version s2 = Inr s3
    \<and> st_attempts s' = st_attempts s3 \<and> st_allowances s' = st_allowances s3 \<and> st_policy_limits s' = st_policy_limits s3
    \<and> st_usage_ledger s' = st_usage_ledger s3"
proof -
  from assms obtain s2 s3 s4 t where
    1: "reconciliationLedger clock (pr_TenantID p) admission r (if snd charge then Some (fst charge - ev_ChargedCost ev) else None) s = Inr s2"
      "saveAttempt (reconciledEnvelope clock (pr_TenantID p) admission r charge ev) ''outcome_unknown'' version s2 = Inr s3"
    and aud: "auditTx aid clock p ''admissions'' admission ''reconcile'' (version + 1) s3 = Inr ((), s4)"
    and s': "s' = s4\<lparr>st_reconciliations := t\<rparr>"
    unfolding recordReconciliation_def Let_def bindR_Inr bindR_pair_Inr by auto
  from aud have "st_attempts s4 = st_attempts s3 \<and> st_allowances s4 = st_allowances s3 \<and> st_policy_limits s4 = st_policy_limits s3
      \<and> st_usage_ledger s4 = st_usage_ledger s3"
    by (auto simp: auditTx_def split: if_splits)
  with 1 s' show ?thesis by auto
qed

lemma applyReconciliation_okD:
  assumes "applyReconciliation aid clock p admission expected original r charge ev version s = Inr (res, s')"
  shows "\<exists>ev1 s1. foldR (reconcileHold r charge) [0..<length (ap_Allowances (ev_Plan ev))] (ev, s) = Inr (ev1, s1)
    \<and> 0 \<le> ev_ChargedCost ev1 \<and> recordReconciliation aid clock p admission expected original r charge version ev1 s1 = Inr (res, s')"
  using assms unfolding applyReconciliation_def bindR_pair_Inr by (auto split: if_splits)

lemma reconcileTx_cases:
  assumes "reconcileTx aid clock p0 admission expected r0 s = Inr (res, s')"
  shows "s' = s \<or> (\<exists>p r ev version charge. loadAttempt (pr_TenantID p) admission s = Inr (ev, ''outcome_unknown'', version)
     \<and> reconciliationGuard expected r0 = Inr r \<and> reconciledCharge ev r = Inr charge
     \<and> applyReconciliation aid clock p admission expected r0 r charge ev version s = Inr (res, s'))"
proof -
  from assms obtain p where "s' = s \<or> reconcileNew aid clock p admission expected r0 s = Inr (res, s')"
    by (auto simp: reconcileTx_def bindR_Inr split: option.splits if_splits)
  then show ?thesis
  proof
    assume "reconcileNew aid clock p admission expected r0 s = Inr (res, s')"
    then obtain r ev state version charge where "reconciliationGuard expected r0 = Inr r"
      "loadAttempt (pr_TenantID p) admission s = Inr (ev, state, version)" "reconcilable expected state version = Inr ()"
      "reconciledCharge ev r = Inr charge" "applyReconciliation aid clock p admission expected r0 r charge ev version s = Inr (res, s')"
      by (auto simp: reconcileNew_def bindR_Inr split: sum.splits)
    moreover from this(3) have "state = ''outcome_unknown''" by (auto simp: reconcilable_def split: if_splits)
    ultimately show ?thesis by blast
  qed simp
qed

lemma reconcileTx_moved:
  assumes "reconcileTx aid clock p0 admission expected r0 s = Inr (res, s')" "rowsOk s"
  shows "s' = s \<or> (\<exists>tenant ev row. moved (tenant, admission) ''outcome_unknown'' ev s s'
    \<and> map_of (st_attempts s) (tenant, admission) = Some row \<and> at_State row = ''outcome_unknown'')"
  using reconcileTx_cases [OF assms(1)]
proof
  assume "\<exists>p r ev version charge. loadAttempt (pr_TenantID p) admission s = Inr (ev, ''outcome_unknown'', version)
     \<and> reconciliationGuard expected r0 = Inr r \<and> reconciledCharge ev r = Inr charge
     \<and> applyReconciliation aid clock p admission expected r0 r charge ev version s = Inr (res, s')"
  then obtain p r ev version charge where load: "loadAttempt (pr_TenantID p) admission s = Inr (ev, ''outcome_unknown'', version)"
    and app: "applyReconciliation aid clock p admission expected r0 r charge ev version s = Inr (res, s')" by blast
  from applyReconciliation_okD [OF app] obtain ev1 s1 where
    fold: "foldR (reconcileHold r charge) [0..<length (ap_Allowances (ev_Plan ev))] (ev, s) = Inr (ev1, s1)"
    and rec: "recordReconciliation aid clock p admission expected r0 r charge version ev1 s1 = Inr (res, s')" by blast
  from recordReconciliation_okD [OF rec] obtain s2 s3 where led: "reconciliationLedger clock (pr_TenantID p) admission r (if snd charge then Some (fst charge - ev_ChargedCost ev1) else None) s1 = Inr s2"
    and save: "saveAttempt (reconciledEnvelope clock (pr_TenantID p) admission r charge ev1) ''outcome_unknown'' version s2 = Inr s3"
    and s': "st_attempts s' = st_attempts s3" "st_allowances s' = st_allowances s3" "st_policy_limits s' = st_policy_limits s3" by blast
  from loadAttempt_ok [OF assms(2) load] obtain row ev0 where row: "map_of (st_attempts s) (pr_TenantID p, admission) = Some row"
    "at_Data row = Some ev0" "envelopeOk (pr_TenantID p, admission) ev" "ev_Plan ev = ev_Plan ev0" "ev_Held ev = ev_Held ev0" by blast
  have held: "heldAt K ev0 = heldAt K ev" for K using heldAt_cong [OF row(4,5)] by simp
  have adj: "adjusted ev s ev1 s1" using reconcileHolds_adjusted [OF fold] row(3) by (simp add: envelopeOk_def)
  have s2: "st_attempts s2 = st_attempts s1" "st_allowances s2 = st_allowances s1" "st_policy_limits s2 = st_policy_limits s1"
    using led by (auto simp: reconciliationLedger_def Let_def split: if_splits)
  have "moved (pr_TenantID p, admission) ''outcome_unknown'' (reconciledEnvelope clock (pr_TenantID p) admission r charge ev1) s s3"
    by (rule saveAttempt_moved [OF save assms(2) row(1,2) held row(4) adj row(3) s2]) simp_all
  moreover have "at_State row = ''outcome_unknown''" using load row(1,2) by (auto simp: loadAttempt_def Let_def split: if_splits)
  ultimately show ?thesis using moved_frame [OF _ s'] row(1) by blast
qed simp

lemma booksOk_reconcileTx: "reconcileTx aid clock p admission expected r s = Inr (res, s') \<Longrightarrow> booksOk s \<Longrightarrow> booksOk s'"
  using reconcileTx_moved [of aid clock p admission expected r s res s'] booksOk_moved by (auto simp: booksOk_def)

end
