(* ===== verification/Accounting.thy ===== *)
theory Accounting
  imports Reconcile
begin

text \<open>
  Admission, settlement, maintenance, reconciliation and policy mutation together: the accounting
  invariant along every run of these operations, what it gives to settlement, and the life of an
  attempt as a refinement of an abstract machine.
\<close>

declare split_paired_All [simp del] split_paired_Ex [simp del]

section \<open>Policy mutations keep the books\<close>

lemma booksOk_grow:
  assumes "st_attempts s' = st_attempts s" "\<And>K. reservedAt s' K = reservedAt s K" "grows s s'" "limitsBacked s'" "booksOk s"
  shows "booksOk s'"
  using assms rowsOk_grows [OF _ assms(1,3)] by (simp add: booksOk_def slack_def heldTotal_def)

lemma set_update_subset: "set (AList.update k v t) \<subseteq> insert (k, v) (set t)"
proof
  fix x assume "x \<in> set (AList.update k v t)"
  then show "x \<in> insert (k, v) (set t)"
  proof (induction t)
    case (Cons y t)
    then show ?case by (cases y) (auto split: if_splits)
  qed simp
qed

lemma booksOk_installDim:
  assumes "booksOk s"
  shows "booksOk (installDim now t x d s)"
proof (cases d)
  case (fields kind maximum window)
  show ?thesis
  proof (cases "maximum \<le> 0")
    case True
    with fields assms show ?thesis by (simp add: installDim_def)
  next
    case False
    let ?key = "(t, pd_Scope x, pd_ScopeID x, limitWindow now window, kind)" and ?s = "installDim now t x d s"
    have all: "st_allowances ?s = insertNew ?key \<lparr>aw_reserved = 0, aw_version = 1\<rparr> (st_allowances s)"
      and at: "st_attempts ?s = st_attempts s"
      using False fields by (simp_all add: installDim_def Let_def)
    obtain row where lim: "st_policy_limits ?s = AList.update ?key row (st_policy_limits s)"
      using False fields by (auto simp: installDim_def Let_def)
    have res: "reservedAt ?s K = reservedAt s K" for K
      using reservedAt_insertNew [of ?key 1 s K] by (simp add: reservedAt_def all)
    have "limitsBacked ?s"
      unfolding limitsBacked_def all lim
    proof
      fix y assume "y \<in> set (AList.update ?key row (st_policy_limits s))"
      then have "fst y = ?key \<or> y \<in> set (st_policy_limits s)" using set_update_subset by fastforce
      with assms have "map_of (insertNew ?key \<lparr>aw_reserved = 0, aw_version = 1\<rparr> (st_allowances s)) (fst y) \<noteq> None"
        unfolding insertNew_None booksOk_def limitsBacked_def by fastforce
      then show "case y of (K, r) \<Rightarrow> map_of (insertNew ?key \<lparr>aw_reserved = 0, aw_version = 1\<rparr> (st_allowances s)) K \<noteq> None"
        by (cases y) simp
    qed
    moreover have "grows s ?s" by (simp add: grows_def all insertNew_None)
    ultimately show ?thesis using booksOk_grow [OF at res] assms by blast
  qed
qed

lemma booksOk_syncPolicyLimit:
  assumes "syncPolicyLimit now p m s = Inr s'" "booksOk s"
  shows "booksOk s'"
proof -
  have del: "booksOk (deleteScope t sc i s)" for t sc i
    by (rule booksOk_grow [OF _ _ _ _ assms(2)])
       (use assms(2) in \<open>auto simp: deleteScope_def reservedAt_def grows_def limitsBacked_def booksOk_def\<close>)
  have loop: "booksOk (fold (installDim now t x) ds u)" if "booksOk u" for t x ds u
    using that by (induction ds arbitrary: u) (simp_all add: booksOk_installDim)
  show ?thesis using assms del loop
    by (auto simp: syncPolicyLimit_def Let_def split: if_splits option.splits)
qed

lemma booksOk_mutateTx:
  assumes "mutateTx aid clock now p m data s = Inr (out, s')" "booksOk s"
  shows "booksOk s'"
proof -
  from assms(1) obtain current version s1 s2 s4 where
    1: "(if mu_Kind m = ''api_keys'' then syncKeyMetadataTx current m data (version + 1) s else Inr s) = Inr s1"
    and 2: "syncPolicyLimit now current m s1 = Inr s2"
    and 3: "bumpRevisionTx (writeResource (pr_TenantID current) m data version s2) = Inr ((), s4)"
      "auditTx aid clock current (mu_Kind m) (mu_ID m) (if mu_Delete m then ''delete'' else ''upsert'') (version + 1) s4 = Inr ((), s')"
    unfolding mutateTx_def bindR_pair_Inr bindR_Inr by (auto simp: bindR_Inr split del: if_split)
  have "booksOk s1"
    by (rule booksOk_frame [OF _ _ _ assms(2)]) (use 1 in \<open>auto simp: syncKeyMetadataTx_def bindR_Inr split: if_splits option.splits\<close>)
  from booksOk_syncPolicyLimit [OF 2 this] have "booksOk s2" .
  moreover have "st_attempts s' = st_attempts s2" "st_allowances s' = st_allowances s2" "st_policy_limits s' = st_policy_limits s2"
    using 3 by (auto simp: bumpRevisionTx_def auditTx_def writeResource_def split: option.splits if_splits)
  ultimately show ?thesis by (rule booksOk_frame [rotated 3])
qed

section \<open>Runs\<close>

text \<open>The operations by name, and a step by any of them.\<close>

datatype acctOp = Begin | Accept | Finalize | Maintain | Reconciliation | Mutation

inductive acct_op :: "acctOp \<Rightarrow> Store \<Rightarrow> Store \<Rightarrow> bool" where
  begin_attempt: "planTyped p \<Longrightarrow> acct_op Begin s (snd (BeginAttempt env now ctxP p s))"
| mark_accepted: "acct_op Accept s (snd (MarkAccepted env clock permit evidence s))"
| finalize: "acct_op Finalize s (snd (FinalizeAttempt env clock o0 s))"
| maintenance: "acct_op Maintain s (snd (RunMaintenance env now s))"
| reconcile: "acct_op Reconciliation s (snd (Reconcile env aid clock p admission expected r s))"
| mutate: "acct_op Mutation s (snd (Mutate env ne aid clock now p m s))"

definition acct_step :: "Store \<Rightarrow> Store \<Rightarrow> bool" where
  "acct_step s s' = (\<exists>l. acct_op l s s')"

lemma withTx_effect:
  assumes "P s" "\<And>a s'. fn s = Inr (a, s') \<Longrightarrow> P s'"
  shows "P (snd (withTx env fn s))"
  using withTx_cases [of env fn s] assms by auto

lemma acct_op_books: "acct_op l s s' \<Longrightarrow> booksOk s \<Longrightarrow> booksOk s'"
proof (induction rule: acct_op.induct)
  case (begin_attempt p s env now ctxP)
  then have "booksOk (snd (withTx env (beginTx now ctxP p) s))" by (metis withTx_effect booksOk_beginTx)
  with begin_attempt show ?case by (simp add: BeginAttempt_def split: sum.split)
next
  case (mark_accepted s env clock permit evidence)
  then have "booksOk (snd (withTx env (acceptTx clock permit evidence) s))" by (metis withTx_effect booksOk_acceptTx)
  with mark_accepted show ?case by (simp add: MarkAccepted_def)
next
  case (finalize s env clock o0)
  then have "booksOk (snd (withTx env (finalizeTx clock o0) s))" by (metis withTx_effect booksOk_finalizeTx)
  with finalize show ?case by (simp add: FinalizeAttempt_def)
next
  case (maintenance s env now)
  then show ?case unfolding RunMaintenance_def by (metis withTx_effect booksOk_maintenanceTx)
next
  case (reconcile s env aid clock p admission expected r)
  then have "booksOk (snd (withTx env (reconcileTx aid clock p admission expected r) s))"
    by (metis withTx_effect booksOk_reconcileTx)
  with reconcile show ?case by (simp add: Reconcile_def)
next
  case (mutate s env ne aid clock now p m)
  from Mutate_effect [of env ne aid clock now p m s] show ?case
  proof
    assume "\<exists>current data out s'. mutateTx aid clock now current m data s = Inr (out, s')
      \<and> (mu_Delete m \<or> validateResource ne (mu_Kind m) (mu_Data m) = Inr data) \<and> snd (Mutate env ne aid clock now p m s) = s'"
    then obtain current data out where "mutateTx aid clock now current m data s = Inr (out, snd (Mutate env ne aid clock now p m s))" by blast
    from booksOk_mutateTx [OF this mutate] show ?thesis .
  qed (simp add: mutate)
qed

lemma acct_step_books: "acct_step s s' \<Longrightarrow> booksOk s \<Longrightarrow> booksOk s'"
  unfolding acct_step_def by (blast intro: acct_op_books)

lemma acct_run_books: "acct_step\<^sup>*\<^sup>* s s' \<Longrightarrow> booksOk s \<Longrightarrow> booksOk s'"
  by (induction rule: rtranclp_induct) (auto intro: acct_step_books)

text \<open>A store no attempt was begun in: every limit has a counter, and no counter is negative.\<close>

definition idle :: "Store \<Rightarrow> bool" where
  "idle s \<longleftrightarrow> st_attempts s = [] \<and> list_all (\<lambda>(K, r). map_of (st_allowances s) K \<noteq> None) (st_policy_limits s)
     \<and> list_all (\<lambda>(K, r). 0 \<le> aw_reserved r) (st_allowances s)"

lemma booksOk_initial: "idle s \<Longrightarrow> booksOk s"
  by (fastforce simp: idle_def booksOk_def rowsOk_def limitsBacked_def slack_def reservedAt_def heldTotal_def list_all_iff
      dest: map_of_SomeD split: option.splits)

section \<open>Settlement is never stuck\<close>

lemma heldAt_member:
  assumes "i < length (ap_Allowances (ev_Plan ev))" "length (ev_Held ev) = length (ap_Allowances (ev_Plan ev))"
    and "list_all (\<lambda>h. 0 \<le> h) (ev_Held ev)"
  shows "ev_Held ev ! i \<le> heldAt (limitOf (ap_TenantID (ev_Plan ev)) (ap_Allowances (ev_Plan ev) ! i)) ev"
proof -
  let ?K = "limitOf (ap_TenantID (ev_Plan ev)) (ap_Allowances (ev_Plan ev) ! i)"
  let ?f = "\<lambda>j. if limitOf (ap_TenantID (ev_Plan ev)) (ap_Allowances (ev_Plan ev) ! j) = ?K then ev_Held ev ! j else 0"
  have "?f i \<le> (\<Sum>j<length (ap_Allowances (ev_Plan ev)). ?f j)"
    by (rule member_le_sum) (use assms in \<open>auto simp: list_all_length\<close>)
  then show ?thesis by (simp add: heldAt_def)
qed

text \<open>A consistent pair of envelope and store: every hold is covered by its counter.\<close>

definition covered :: "attemptEnvelope \<Rightarrow> Store \<Rightarrow> bool" where
  "covered ev s \<longleftrightarrow> length (ev_Held ev) = length (ap_Allowances (ev_Plan ev)) \<and> list_all (\<lambda>h. 0 \<le> h) (ev_Held ev)
     \<and> backed s ev \<and> (\<forall>K. heldAt K ev \<le> reservedAt s K)"

lemma covered_adjusted:
  assumes "adjusted ev s ev' s'" "covered ev s"
  shows "covered ev' s'"
proof -
  have "heldAt K ev' \<le> reservedAt s' K" for K
  proof -
    have "reservedAt s' K - heldAt K ev' = reservedAt s K - heldAt K ev" "heldAt K ev \<le> reservedAt s K"
      using assms by (simp_all add: adjusted_def covered_def)
    then show ?thesis by linarith
  qed
  moreover have "backed s' ev'" using assms adjusted_length [OF assms(1)] by (simp add: covered_def backed_def adjusted_def)
  ultimately show ?thesis using assms adjusted_length [OF assms(1)] by (auto simp: covered_def adjusted_def)
qed

lemma lower_succeeds:
  assumes "covered ev s" "i < length (ap_Allowances (ev_Plan ev))" "0 \<le> target" "target \<le> ev_Held ev ! i"
  shows "\<exists>s'. adjustHold i target (ev, s) = Inr (ev\<lparr>ev_Held := (ev_Held ev)[i := target]\<rparr>, s')"
proof -
  let ?K = "limitOf (ap_TenantID (ev_Plan ev)) (ap_Allowances (ev_Plan ev) ! i)"
  from assms(1,2) obtain r where r: "map_of (st_allowances s) ?K = Some r"
    unfolding covered_def backed_def list_all_length by blast
  have "ev_Held ev ! i \<le> reservedAt s ?K"
    using heldAt_member [OF assms(2)] assms(1) order_trans unfolding covered_def by blast
  then have "ev_Held ev ! i \<le> aw_reserved r" by (simp add: reservedAt_def r)
  then have "\<exists>es. adjustHoldMode i target False (ev, s) = Inr es"
    using adjustHoldMode_succeeds [OF assms(2,3) r] assms(3,4) by auto
  then obtain ev' s' where ok: "adjustHoldMode i target False (ev, s) = Inr (ev', s')" by auto
  with adjustHoldMode_okD(3) [OF ok] assms(1) show ?thesis by (auto simp: adjustHold_def covered_def)
qed

lemma settleHolds_release:
  assumes "sl_State sl = ''not_executed''" "covered ev s" "\<forall>i \<in> set is. i < length (ap_Allowances (ev_Plan ev))"
  shows "\<exists>ev' s'. foldR (settleHold sl) is (ev, s) = Inr (ev', s') \<and> (\<forall>i \<in> set is. ev_Held ev' ! i = 0)
    \<and> (\<forall>i < length (ev_Held ev). ev_Held ev ! i = 0 \<longrightarrow> ev_Held ev' ! i = 0) \<and> ev_Plan ev' = ev_Plan ev"
  using assms(2,3)
proof (induction "is" arbitrary: ev s)
  case (Cons i "is")
  have i: "i < length (ap_Allowances (ev_Plan ev))" and len: "length (ev_Held ev) = length (ap_Allowances (ev_Plan ev))"
    and nn: "0 \<le> ev_Held ev ! i" using Cons.prems by (auto simp: covered_def list_all_length)
  from lower_succeeds [OF Cons.prems(1) i, of 0] nn obtain s1 where
    low: "adjustHold i 0 (ev, s) = Inr (ev\<lparr>ev_Held := (ev_Held ev)[i := 0]\<rparr>, s1)" (is "_ = Inr (?ev, s1)") by auto
  have step: "settleHold sl i (ev, s) = Inr (?ev, s1)"
    using low nn assms(1) by (simp add: settleHold_def holdTarget_def Let_def)
  have "adjusted ev s ?ev s1" using low len by (intro adjustHoldMode_adjusted) (simp_all add: adjustHold_def)
  from covered_adjusted [OF this Cons.prems(1)] Cons.IH [of ?ev s1] Cons.prems(2) obtain ev' s' where
    run: "foldR (settleHold sl) is (?ev, s1) = Inr (ev', s')" and z: "\<forall>i \<in> set is. ev_Held ev' ! i = 0"
    and keep: "\<forall>j < length (ev_Held ?ev). ev_Held ?ev ! j = 0 \<longrightarrow> ev_Held ev' ! j = 0" and p: "ev_Plan ev' = ev_Plan ?ev" by auto
  have "ev_Held ev' ! i = 0" using keep i len by auto
  moreover have "\<forall>j < length (ev_Held ev). ev_Held ev ! j = 0 \<longrightarrow> ev_Held ev' ! j = 0"
    using keep i len by (auto simp: nth_list_update)
  ultimately show ?case using step run z p by auto
qed auto

lemma rowHeld_le:
  assumes "booksOk s" "map_of (st_attempts s) key = Some row"
  shows "rowHeld K row \<le> reservedAt s K"
proof -
  have tbl: "tbl_ok (st_attempts s)" and rows: "rowsOk s" using assms(1) by (simp_all add: booksOk_def rowsOk_def)
  have "0 \<le> sum_list (map (\<lambda>(k, row). rowHeld K row) (AList.delete key (st_attempts s)))"
  proof (rule sum_list_nonneg)
    fix x assume "x \<in> set (map (\<lambda>(k, row). rowHeld K row) (AList.delete key (st_attempts s)))"
    then obtain k r where "(k, r) \<in> set (st_attempts s)" "x = rowHeld K r" by (auto simp: AList.delete_eq)
    moreover from this(1) rows obtain ev where "at_Data r = Some ev" "envelopeOk k ev" by (auto simp: rowsOk_def list_all_iff)
    ultimately show "0 \<le> x" using rowHeld_nonneg by simp
  qed
  then have "rowHeld K row \<le> heldTotal s K" using assms(2) by (simp add: sum_list_delete_table [OF tbl] heldTotal_def)
  with booksOk_held [OF assms(1), of K] show ?thesis by linarith
qed

lemma heldAt_zero:
  assumes "\<forall>i < length (ap_Allowances (ev_Plan ev)). ev_Held ev ! i = 0"
  shows "heldAt K ev = 0"
  unfolding heldAt_def by (rule sum.neutral) (use assms in auto)

lemma release_succeeds:
  assumes "booksOk s" "map_of (st_attempts s) (tenant, rid) = Some row" "loadAttempt tenant rid s = Inr (ev, state, version)"
    and "sl_State sl = ''not_executed''"
  shows "\<exists>s'. applySettlement clock sl ev version s = Inr s' \<and> (\<forall>K. reservedAt s' K = reservedAt s K - rowHeld K row)"
proof -
  have rows: "rowsOk s" using assms(1) by (simp add: booksOk_def)
  from loadAttempt_ok [OF rows assms(3)] assms(2) obtain ev0 where row: "at_Data row = Some ev0" "envelopeOk (tenant, rid) ev"
    "ev_Plan ev = ev_Plan ev0" "ev_Held ev = ev_Held ev0" by auto
  have held: "heldAt K ev = rowHeld K row" for K using heldAt_cong [OF row(3,4)] row(1) by (simp add: rowHeld_def)
  from rowsOkD [OF rows assms(2)] row have "backed s ev" by (auto simp: backed_def)
  then have cov: "covered ev s" using row(2) rowHeld_le [OF assms(1,2)] by (simp add: covered_def envelopeOk_def held)
  let ?is = "[0..<length (ap_Allowances (ev_Plan ev))]"
  from settleHolds_release [OF assms(4) cov, of ?is] obtain ev' s' where
    run: "foldR (settleHold sl) ?is (ev, s) = Inr (ev', s')" and z: "\<forall>i < length (ap_Allowances (ev_Plan ev)). ev_Held ev' ! i = 0"
    and plan: "ev_Plan ev' = ev_Plan ev" by auto
  have adj: "adjusted ev s ev' s'" using settleHolds_adjusted [OF run] cov by (simp add: covered_def)
  have res: "reservedAt s' K = reservedAt s K - rowHeld K row" for K
  proof -
    have "heldAt K ev' = 0" using heldAt_zero [of ev' K] z plan by simp
    moreover have "reservedAt s' K - heldAt K ev' = reservedAt s K - heldAt K ev" using adj by (simp add: adjusted_def)
    ultimately show ?thesis by (simp add: held)
  qed
  have ch: "chargeOnce clock sl (ev', s') = (ev', s')" using assms(4) by (simp add: chargeOnce_def Let_def)
  have "at_Version row = version" using assms(2,3) row(1) by (auto simp: loadAttempt_def Let_def split: if_splits)
  moreover have "map_of (st_attempts s') (ap_TenantID (ev_Plan ev'), ap_AttemptID (ev_Plan ev')) = Some row"
    using adj assms(2) row(2) plan by (simp add: adjusted_def envelopeOk_def)
  ultimately have "\<exists>s2. saveAttempt (ev'\<lparr>ev_Outcome := Some (sl_Outcome sl), ev_UpdatedAt := clock\<rparr>) (sl_State sl) version s' = Inr s2
      \<and> st_allowances s2 = st_allowances s'" by (simp add: saveAttempt_def Let_def)
  then obtain s2 where "applySettlement clock sl ev version s = Inr s2" "st_allowances s2 = st_allowances s'"
    using run ch by (auto simp: applySettlement_def)
  with res show ?thesis by (auto simp: reservedAt_def)
qed

lemma settle_not_executed: "sl_State (settle ''not_executed'' o0 ev) = ''not_executed''"
  by (simp add: settle_def Let_def split: prod.split)

section \<open>Properties\<close>

text \<open>C1: Along every run of begin, accept, finalize, maintenance, reconciliation and policy mutations that
  starts in an idle store, no quota counter ever says less than what the recorded
  attempts together hold of it: nothing that was reserved is given back twice or lost sight of.\<close>

theorem reservations_cover_holds:
  assumes "acct_step\<^sup>*\<^sup>* s0 s" and "idle s0"
  shows "heldTotal s K \<le> reservedAt s K"
  using booksOk_held acct_run_books [OF assms(1) booksOk_initial [OF assms(2)]] by blast

text \<open>The request that an attempt was admitted for.\<close>

definition requestOf :: "attemptRow \<Rightarrow> string" where
  "requestOf row = (case at_Data row of None \<Rightarrow> '''' | Some ev \<Rightarrow> ap_RequestID (ev_Plan ev))"

text \<open>C31: After such a run an attempt that is dispatched or accepted can be released: finalizing it as not executed, under
  the request it was admitted for or under none, succeeds when the database does, and gives back to every
  counter exactly what the attempt held of it. Under another request it is refused and nothing changes.\<close>

theorem release_never_stuck:
  assumes "acct_step\<^sup>*\<^sup>* s0 s" and "idle s0"
    and "map_of (st_attempts s) (ao_TenantID o0, ao_AttemptID o0) = Some row" "at_State row \<in> {''dispatch_intent'', ''accepted''}"
    and "ao_State o0 = ''not_executed''" "ao_TenantID o0 \<noteq> ''''" "ao_AttemptID o0 \<noteq> ''''"
  shows "if ao_RequestID o0 \<in> {'''', requestOf row}
     then \<exists>s'. FinalizeAttempt sound clock o0 s = (Inr (), s') \<and> (\<forall>K. reservedAt s' K = reservedAt s K - rowHeld K row)
     else FinalizeAttempt sound clock o0 s = (Inl (Problem ''conflict'' 409 ''request identity differs''), s)"
proof -
  have books: "booksOk s" by (rule acct_run_books [OF assms(1) booksOk_initial [OF assms(2)]])
  then have rows: "rowsOk s" by (simp add: booksOk_def)
  from rowsOkD [OF rows assms(3)] obtain ev0 where ev0: "at_Data row = Some ev0" "envelopeOk (ao_TenantID o0, ao_AttemptID o0) ev0" by blast
  then obtain ev where load: "loadAttempt (ao_TenantID o0) (ao_AttemptID o0) s = Inr (ev, at_State row, at_Version row)"
    and plan: "ev_Plan ev = ev_Plan ev0"
    using assms(3) by (auto simp: loadAttempt_def Let_def envelopeOk_def)
  from release_succeeds [OF books assms(3) load settle_not_executed, of clock o0 ev] obtain s' where
    run: "applySettlement clock (settle ''not_executed'' o0 ev) ev (at_Version row) s = Inr s'"
    and res: "\<forall>K. reservedAt s' K = reservedAt s K - rowHeld K row" by blast
  have fin: "finalState o0 = ''not_executed''" using assms(5) by (simp add: finalState_def)
  have guard: "transitionGuard (at_State row) ''not_executed'' = Inr True" using assms(4) by (auto simp: transitionGuard_def)
  have req: "requestOf row = ap_RequestID (ev_Plan ev)" by (simp add: requestOf_def ev0(1) plan)
  have "finalizeTx clock o0 s = (if ao_RequestID o0 \<in> {'''', requestOf row} then Inr ((), s')
      else Inl (Problem ''conflict'' 409 ''request identity differs''))"
    by (auto simp: finalizeTx_def load req fin guard run)
  with assms(6,7) res show ?thesis by (auto simp: FinalizeAttempt_def withTx_def sound_def)
qed

text \<open>C3: Admission never takes a counter beyond its limit: every counter that a successful
  \<open>BeginAttempt\<close> changes has an enforced limit, and what is reserved afterwards is at most its maximum.\<close>

theorem admission_within_limits:
  assumes "BeginAttempt env now ctxP p s = (Inr permit, s')" and "limitsBacked s"
    and "reservedAt s' K \<noteq> reservedAt s K"
  shows "\<exists>lim. map_of (st_policy_limits s') K = Some lim \<and> reservedAt s' K \<le> lm_maximum lim"
proof -
  from assms(1) have "beginTx now ctxP p s = Inr (permit, s')"
    by (auto simp: BeginAttempt_def split: sum.splits dest: withTx_InrD)
  from beginTx_okD [OF this assms(2)] obtain as s1 where plan: "planned p s (as, s1)"
    and cases: "s' = s1 \<or> (\<exists>hs. begun now ctxP p as hs s1 s')" by blast
  have same: "reservedAt s1 K = reservedAt s K" using plan by (simp add: planned_def)
  with cases assms(3) obtain hs where "begun now ctxP p as hs s1 s'" by auto
  then obtain s2 cfg price subject where r: "reserves (p\<lparr>ap_Allowances := as\<rparr>) as hs s1 s2"
    and s': "s' = insertAttempt (p\<lparr>ap_Allowances := as\<rparr>) cfg now (newEnvelope (p\<lparr>ap_Allowances := as\<rparr>) p subject hs now price) s2"
    unfolding begun_def by blast
  have eq: "reservedAt s' K = reservedAt s2 K" "st_policy_limits s' = st_policy_limits s2"
    by (simp_all add: s' insertAttempt_def reservedAt_def)
  have lim: "st_policy_limits s2 = st_policy_limits s1" "reservedAt s2 K = reservedAt s1 K + took (ap_TenantID p) as hs K"
    using r by (simp_all add: reserves_def)
  with eq same assms(3) have "took (ap_TenantID p) as hs K \<noteq> 0" by simp
  moreover have "took (ap_TenantID (p\<lparr>ap_Allowances := as\<rparr>)) as hs K \<noteq> 0 \<longrightarrow>
      (\<exists>lim. map_of (st_policy_limits s1) K = Some lim \<and> reservedAt s2 K \<le> lm_maximum lim)"
    using r unfolding reserves_def by blast
  ultimately show ?thesis using eq lim(1) by auto
qed

section \<open>The life of an attempt\<close>

text \<open>The abstract machine: the phases of one attempt and the moves between them.\<close>

datatype phase = Absent | Intent | Accepted | JobPending | Unknown | Settled | NotExecuted | Corrupt

text \<open>Each move belongs to one operation of the store; reconciliation and policy mutations make none.\<close>

inductive phase_step :: "acctOp \<Rightarrow> phase \<Rightarrow> phase \<Rightarrow> bool" where
  admit: "phase_step Begin Absent Intent"
| accept: "phase_step Accept Intent Accepted"
| finish: "a \<in> {Intent, Accepted} \<Longrightarrow> b \<in> {JobPending, Unknown, Settled, NotExecuted} \<Longrightarrow> phase_step Finalize a b"
| complete: "b \<in> {Settled, Unknown} \<Longrightarrow> phase_step Finalize JobPending b"
| abandon: "a \<in> {Intent, Accepted} \<Longrightarrow> phase_step Maintain a Unknown"
| forget: "phase_step Maintain Settled Absent"

inductive_simps phase_step_simps: "phase_step l a b"

definition phaseName :: "string \<Rightarrow> phase" where
  "phaseName state =
     (if state = ''dispatch_intent'' then Intent else if state = ''accepted'' then Accepted
      else if state = ''job_pending'' then JobPending else if state = ''outcome_unknown'' then Unknown
      else if state = ''settled'' then Settled else if state = ''not_executed'' then NotExecuted else Corrupt)"

definition phaseAt :: "Store \<Rightarrow> string \<times> string \<Rightarrow> phase" where
  "phaseAt s key = (case map_of (st_attempts s) key of None \<Rightarrow> Absent | Some row \<Rightarrow> phaseName (at_State row))"

definition phaseMove :: "acctOp \<Rightarrow> Store \<Rightarrow> Store \<Rightarrow> string \<times> string \<Rightarrow> bool" where
  "phaseMove l s s' key \<longleftrightarrow> phaseAt s' key = phaseAt s key \<or> phase_step l (phaseAt s key) (phaseAt s' key)"

lemma phaseAt_moved:
  assumes "moved key state ev s s'"
  shows "phaseAt s' key = phaseName state" "k \<noteq> key \<Longrightarrow> phaseAt s' k = phaseAt s k"
  using assms by (auto simp: moved_def phaseAt_def)

lemma phaseMove_moved:
  assumes "moved key state ev s s'" "phaseName state = phaseAt s key \<or> phase_step l (phaseAt s key) (phaseName state)"
  shows "phaseMove l s s' k"
  using phaseAt_moved(2) [OF assms(1), of k] phaseAt_moved(1) [OF assms(1)] assms(2) by (cases "k = key") (auto simp: phaseMove_def)

lemma phaseMove_same: "st_attempts s' = st_attempts s \<Longrightarrow> phaseMove l s s' key"
  by (simp add: phaseMove_def phaseAt_def)

lemma settle_state: "sl_State (settle nxt o0 ev) \<in> {nxt, ''outcome_unknown''} \<and> (nxt \<noteq> ''settled'' \<longrightarrow> sl_State (settle nxt o0 ev) = nxt)"
  by (auto simp: settle_def Let_def split: prod.split)

lemma phaseName_simps [simp]:
  "phaseName ''dispatch_intent'' = Intent" "phaseName ''accepted'' = Accepted" "phaseName ''job_pending'' = JobPending"
  "phaseName ''outcome_unknown'' = Unknown" "phaseName ''settled'' = Settled" "phaseName ''not_executed'' = NotExecuted"
  by (simp_all add: phaseName_def)

lemma transitionGuard_True:
  assumes "transitionGuard state nxt = Inr True"
  shows "state = ''dispatch_intent'' \<or> state = ''accepted'' \<or> state = ''job_pending'' \<and> (nxt = ''settled'' \<or> nxt = ''outcome_unknown'')"
  using assms unfolding transitionGuard_def by (simp split: if_split_asm)

lemma settled_phase:
  assumes "transitionGuard state nxt = Inr True" "nxt \<in> {''settled'', ''outcome_unknown'', ''not_executed'', ''job_pending''}"
    and "final \<in> {nxt, ''outcome_unknown''}" "nxt \<noteq> ''settled'' \<longrightarrow> final = nxt"
  shows "phase_step Finalize (phaseName state) (phaseName final)"
  using transitionGuard_True [OF assms(1)]
proof (elim disjE conjE)
  have fin: "phaseName final \<in> {JobPending, Unknown, Settled, NotExecuted}" using assms(2,3) by (elim insertE) simp_all
  assume "state = ''dispatch_intent''"
  with fin show ?thesis by (simp add: phase_step.finish)
next
  have fin: "phaseName final \<in> {JobPending, Unknown, Settled, NotExecuted}" using assms(2,3) by (elim insertE) simp_all
  assume "state = ''accepted''"
  with fin show ?thesis by (simp add: phase_step.finish)
next
  assume "state = ''job_pending''" "nxt = ''settled''"
  with assms(3) show ?thesis by (elim insertE) (simp_all add: phase_step.complete)
next
  assume "state = ''job_pending''" "nxt = ''outcome_unknown''"
  with assms(3) show ?thesis by (elim insertE) (simp_all add: phase_step.complete)
qed

lemma loadAttempt_state:
  "loadAttempt t i s = Inr (ev, state, version) \<Longrightarrow> \<exists>row. map_of (st_attempts s) (t, i) = Some row \<and> at_State row = state"
  by (auto simp: loadAttempt_def Let_def split: option.splits if_splits)

lemma finalizeTx_phase:
  assumes "finalizeTx clock o0 s = Inr (u, s')" "rowsOk s"
  shows "phaseMove Finalize s s' key"
  using assms(1)
proof (rule finalizeTx_okD)
  fix ev state version
  assume load: "loadAttempt (ao_TenantID o0) (ao_AttemptID o0) s = Inr (ev, state, version)"
    and fin: "finalState o0 \<in> {''settled'', ''outcome_unknown'', ''not_executed'', ''job_pending''}"
    and alt: "transitionGuard state (finalState o0) = Inr False \<and> s' = s \<or> transitionGuard state (finalState o0) = Inr True
       \<and> applySettlement clock (settle (finalState o0) o0 ev) ev version s = Inr s'"
  show ?thesis
  proof (cases "s' = s")
    case False
    with alt have g: "transitionGuard state (finalState o0) = Inr True"
      and run: "applySettlement clock (settle (finalState o0) o0 ev) ev version s = Inr s'" by auto
    from applySettlement_moved [OF assms(2) load run] obtain ev' where
      m: "moved (ao_TenantID o0, ao_AttemptID o0) (sl_State (settle (finalState o0) o0 ev)) ev' s s'" by blast
    have "phaseAt s (ao_TenantID o0, ao_AttemptID o0) = phaseName state"
      using loadAttempt_state [OF load] by (auto simp: phaseAt_def)
    with m settled_phase [OF g fin] settle_state [of "finalState o0" o0 ev] show ?thesis by (intro phaseMove_moved [OF m]) simp
  qed (simp add: phaseMove_same)
qed

lemma acceptTx_phase:
  assumes "acceptTx clock permit evidence s = Inr (u, s')" "rowsOk s"
  shows "phaseMove Accept s s' key"
proof (cases "s' = s")
  case False
  from assms(1) obtain ev state version where load: "loadAttempt (pm_TenantID permit) (pm_AttemptID permit) s = Inr (ev, state, version)"
    by (cases "loadAttempt (pm_TenantID permit) (pm_AttemptID permit) s") (auto simp: acceptTx_def)
  with assms(1) have "s' = s \<or> state = ''dispatch_intent''"
    by (auto simp: acceptTx_def split: if_splits)
  with False have "phaseAt s (pm_TenantID permit, pm_AttemptID permit) = Intent"
    using loadAttempt_state [OF load] by (auto simp: phaseAt_def)
  moreover obtain ev' where "moved (pm_TenantID permit, pm_AttemptID permit) ''accepted'' ev' s s'"
    using acceptTx_moved [OF assms(2,1)] False by blast
  ultimately show ?thesis by (intro phaseMove_moved) (auto simp: phase_step.accept)
qed (simp add: phaseMove_same)

lemma beginTx_phase:
  assumes "beginTx now ctxP p s = Inr (permit, s')" "limitsBacked s"
  shows "phaseMove Begin s s' key"
proof -
  from beginTx_okD [OF assms] obtain as s1 where plan: "planned p s (as, s1)"
    and alt: "s' = s1 \<or> (\<exists>hs. begun now ctxP p as hs s1 s')" by blast
  have same: "phaseAt s1 k = phaseAt s k" for k using plan by (simp add: planned_def phaseAt_def)
  from alt show ?thesis
  proof
    assume "\<exists>hs. begun now ctxP p as hs s1 s'"
    then obtain hs s2 cfg price subject where fresh: "map_of (st_attempts s1) (ap_TenantID p, ap_AttemptID p) = None"
      and r: "reserves (p\<lparr>ap_Allowances := as\<rparr>) as hs s1 s2"
      and s': "s' = insertAttempt (p\<lparr>ap_Allowances := as\<rparr>) cfg now (newEnvelope (p\<lparr>ap_Allowances := as\<rparr>) p subject hs now price) s2"
      unfolding begun_def by blast
    have "st_attempts s2 = st_attempts s1" using r by (simp add: reserves_def)
    then have "phaseAt s' key = (if key = (ap_TenantID p, ap_AttemptID p) then Intent else phaseAt s1 key)"
      by (auto simp: s' insertAttempt_def phaseAt_def)
    moreover have "phaseAt s1 (ap_TenantID p, ap_AttemptID p) = Absent" using fresh by (simp add: phaseAt_def)
    ultimately show ?thesis using same [of key] by (auto simp: phaseMove_def phase_step.admit)
  qed (simp add: phaseMove_def same)
qed

lemma releases_phase:
  assumes "foldR (releaseAttempt now) xs s = Inr s'" "booksOk s" "distinct (map fst xs)"
    and "\<forall>(k, r) \<in> set xs. map_of (st_attempts s) k = Some r \<and> overdue cutoff r"
  shows "phaseAt s' key = phaseAt s key \<or> phaseAt s' key = Unknown \<and> phaseAt s key \<in> {Intent, Accepted}"
  using assms
proof (induction xs arbitrary: s)
  case (Cons kr xs)
  obtain k r where kr: "kr = (k, r)" by (cases kr)
  from Cons.prems(1) obtain s1 where 1: "releaseAttempt now (k, r) s = Inr s1" and rest: "foldR (releaseAttempt now) xs s1 = Inr s'"
    by (auto simp: kr bindR_Inr)
  have row: "map_of (st_attempts s) k = Some r" "overdue cutoff r" using Cons.prems(4) by (auto simp: kr)
  obtain ev where m: "moved k ''outcome_unknown'' ev s s1"
    using releaseAttempt_moved [OF 1 _ row(1)] Cons.prems(2) by (auto simp: booksOk_def)
  have others: "\<forall>(k', r') \<in> set xs. map_of (st_attempts s1) k' = Some r' \<and> overdue cutoff r'"
    using Cons.prems(3,4) moved_others [OF m] by (force simp: kr)
  from Cons.IH [OF rest booksOk_moved [OF m Cons.prems(2)] _ others] Cons.prems(3)
  have ih: "phaseAt s' key = phaseAt s1 key \<or> phaseAt s' key = Unknown \<and> phaseAt s1 key \<in> {Intent, Accepted}" by simp
  show ?case
  proof (cases "key = k")
    case True
    have "phaseAt s k \<in> {Intent, Accepted, Unknown}" using row by (auto simp: overdue_def phaseAt_def)
    with ih phaseAt_moved(1) [OF m] True show ?thesis by auto
  qed (use ih phaseAt_moved(2) [OF m] in simp)
qed simp

lemma prune_phase:
  "phaseAt (fold (pruneAttempt now) xs s) key = phaseAt s key
   \<or> phaseAt s key = Settled \<and> phaseAt (fold (pruneAttempt now) xs s) key = Absent"
proof (induction xs arbitrary: s)
  case (Cons x xs)
  have "phaseAt (pruneAttempt now x s) key = phaseAt s key \<or> phaseAt s key = Settled \<and> phaseAt (pruneAttempt now x s) key = Absent"
    by (auto simp: pruneAttempt_def phaseAt_def delete_conv split: option.splits)
  with Cons.IH [of "pruneAttempt now x s"] show ?case by auto
qed simp

lemma maintenanceTx_phase:
  assumes "maintenanceTx now s = Inr (u, s')" "booksOk s"
  shows "phaseMove Maintain s s' key"
proof -
  from assms(1) obtain s1 where run: "foldR (releaseAttempt now) (pendingAttempts (now - attemptCancellationGraceSeconds) s) s = Inr s1"
    and s': "s' = cleanupIdempotencyTx now (pruneAudit now (pruneLedger now (fold (pruneAttempt now) (settledAttempts s1) s1)))"
    by (auto simp: maintenanceTx_def bindR_Inr)
  have "tbl_ok (st_attempts s)" using assms(2) by (simp add: booksOk_def rowsOk_def)
  note sel = tbl_selected [OF this, of 256 "\<lambda>(k, row). (at_Deadline row, k)" "\<lambda>(k, row). overdue (now - attemptCancellationGraceSeconds) row"]
  have 1: "phaseAt s1 key = phaseAt s key \<or> phaseAt s1 key = Unknown \<and> phaseAt s key \<in> {Intent, Accepted}"
    by (rule releases_phase [OF run assms(2), where cutoff = "now - attemptCancellationGraceSeconds"])
       (use sel in \<open>auto simp: pendingAttempts_def\<close>)
  have 2: "phaseAt s' key = phaseAt (fold (pruneAttempt now) (settledAttempts s1) s1) key"
    by (simp add: s' phaseAt_def cleanup_frame pruneAudit_def pruneLedger_def)
  from 1 2 prune_phase [of now "settledAttempts s1" s1 key] show ?thesis
    by (auto simp: phaseMove_def phase_step.forget phase_step.abandon)
qed

lemma reconcileTx_phase:
  assumes "reconcileTx aid clock p admission expected r s = Inr (res, s')" "rowsOk s"
  shows "phaseMove Reconciliation s s' key"
  using reconcileTx_moved [OF assms]
proof
  assume "\<exists>tenant ev row. moved (tenant, admission) ''outcome_unknown'' ev s s'
    \<and> map_of (st_attempts s) (tenant, admission) = Some row \<and> at_State row = ''outcome_unknown''"
  then obtain tenant ev row where m: "moved (tenant, admission) ''outcome_unknown'' ev s s'"
    "map_of (st_attempts s) (tenant, admission) = Some row" "at_State row = ''outcome_unknown''" by blast
  then show ?thesis by (intro phaseMove_moved [OF m(1)]) (simp add: phaseAt_def)
qed (simp add: phaseMove_same)

lemma mutate_attempts: "st_attempts (snd (Mutate env ne aid clock now p m s)) = st_attempts s"
proof -
  have "st_attempts s' = st_attempts s" if tx: "mutateTx aid clock now current m data s = Inr (out, s')" for current data out s'
  proof -
    from tx obtain cur version s1 s2 s4 where
      1: "(if mu_Kind m = ''api_keys'' then syncKeyMetadataTx cur m data (version + 1) s else Inr s) = Inr s1"
      and 2: "syncPolicyLimit now cur m s1 = Inr s2"
      and 3: "bumpRevisionTx (writeResource (pr_TenantID cur) m data version s2) = Inr ((), s4)"
        "auditTx aid clock cur (mu_Kind m) (mu_ID m) (if mu_Delete m then ''delete'' else ''upsert'') (version + 1) s4 = Inr ((), s')"
      unfolding mutateTx_def bindR_pair_Inr bindR_Inr by (auto simp: bindR_Inr split del: if_split)
    have "st_attempts s1 = st_attempts s" using 1 by (auto simp: syncKeyMetadataTx_def bindR_Inr split: if_splits option.splits)
    moreover have "st_attempts s' = st_attempts s2"
      using 3 by (auto simp: bumpRevisionTx_def auditTx_def writeResource_def split: option.splits if_splits)
    ultimately show ?thesis using syncPolicyLimit_frame(4) [OF 2] by simp
  qed
  then show ?thesis using Mutate_effect [of env ne aid clock now p m s] by metis
qed

lemma phaseMove_withTx: "(\<And>a s'. fn s = Inr (a, s') \<Longrightarrow> phaseMove l s s' key) \<Longrightarrow> phaseMove l s (snd (withTx env fn s)) key"
  by (rule withTx_effect) (simp_all add: phaseMove_same)

lemma acct_op_phase:
  assumes "acct_op l s s'" "booksOk s"
  shows "phaseMove l s s' key"
  using assms
proof (induction rule: acct_op.induct)
  case (begin_attempt p s env now ctxP)
  then have "limitsBacked s" by (simp add: booksOk_def)
  then have "phaseMove Begin s (snd (withTx env (beginTx now ctxP p) s)) key" by (intro phaseMove_withTx) (rule beginTx_phase)
  then show ?case by (simp add: BeginAttempt_def phaseMove_same split: sum.split)
next
  case (mark_accepted s env clock permit evidence)
  then have "rowsOk s" by (simp add: booksOk_def)
  then have "phaseMove Accept s (snd (withTx env (acceptTx clock permit evidence) s)) key" by (intro phaseMove_withTx) (rule acceptTx_phase)
  then show ?case by (simp add: MarkAccepted_def phaseMove_same)
next
  case (finalize s env clock o0)
  then have "rowsOk s" by (simp add: booksOk_def)
  then have "phaseMove Finalize s (snd (withTx env (finalizeTx clock o0) s)) key" by (intro phaseMove_withTx) (rule finalizeTx_phase)
  then show ?case by (simp add: FinalizeAttempt_def phaseMove_same)
next
  case (maintenance s env now)
  then show ?case unfolding RunMaintenance_def by (intro phaseMove_withTx) (rule maintenanceTx_phase)
next
  case (reconcile s env aid clock p admission expected r)
  then have "rowsOk s" by (simp add: booksOk_def)
  then have "phaseMove Reconciliation s (snd (withTx env (reconcileTx aid clock p admission expected r) s)) key"
    by (intro phaseMove_withTx) (rule reconcileTx_phase)
  then show ?case by (simp add: Reconcile_def phaseMove_same)
next
  case (mutate s env ne aid clock now p m)
  then show ?case by (simp add: phaseMove_same mutate_attempts)
qed

text \<open>C2: The store refines the attempt life cycle, operation by operation: in every store that a run from an idle
  one reaches, admission only makes absent attempts intended, acceptance only moves intended ones to
  accepted, finalization only ends intended or accepted attempts and completes pending jobs, maintenance
  only gives up intended or accepted attempts and forgets settled ones, and reconciliation and policy
  mutations move none. So a settled or not executed attempt never becomes active again while it is recorded, and an
  unknown one stays unknown.\<close>

theorem attempts_refine_lifecycle:
  assumes "acct_step\<^sup>*\<^sup>* s0 s" and "idle s0" and "acct_op l s s'"
  shows "phaseAt s' key = phaseAt s key \<or> phase_step l (phaseAt s key) (phaseAt s' key)"
  using acct_op_phase [OF assms(3) acct_run_books [OF assms(1) booksOk_initial [OF assms(2)]]] by (simp add: phaseMove_def)

section \<open>Examples\<close>

text \<open>A tenant with one limit, of five concurrent requests, and the first attempt admitted under it.\<close>

definition concurrencyKey :: limitKey where
  "concurrencyKey = (''t1'', ''tenant'', ''t1'', ''total'', ''concurrency'')"

definition bookStore :: Store where
  "bookStore = planStore\<lparr>
     st_policy_limits := [(concurrencyKey, \<lparr>lm_maximum = 5, lm_reserve = 1, lm_version = 1\<rparr>)],
     st_quota_windows := [],
     st_allowances := [(concurrencyKey, \<lparr>aw_reserved = 0, aw_version = 1\<rparr>)]\<rparr>"

definition bookPlan :: AttemptPlan where
  "bookPlan = samplePlan\<lparr>ap_Allowances := [\<lparr>al_ScopeKind = ''tenant'', al_ScopeID = ''t1'', al_WindowID = ''total'',
     al_Kind = ''concurrency'', al_Maximum = 5, al_Reserve = 1\<rparr>]\<rparr>"

lemma bookStore_limits: "resolveAllowances 30 True samplePlan bookStore = Inr (bookPlan, bookStore)"
proof -
  have "st_policy_limits bookStore = [(concurrencyKey, \<lparr>lm_maximum = 5, lm_reserve = 1, lm_version = 1\<rparr>)]"
    by (simp add: bookStore_def)
  moreover have "ap_TenantID samplePlan = ''t1''" by (simp add: samplePlan_def)
  ultimately show ?thesis
    by (simp add: resolveAllowances_def concurrencyKey_def limitStep_def requiredAmount_sample policyScopeMatches_def
        windowActive_def bookPlan_def Let_def)
qed

lemma bookStore_frame: "st_tenants bookStore = st_tenants planStore" "st_api_keys bookStore = st_api_keys planStore"
  "st_resources bookStore = st_resources planStore"
  by (simp_all add: bookStore_def)

lemma bookStore_guards:
  "keyGuard samplePlan bookStore = Inr ()" "connectionGuard samplePlan bookStore = Inr ()" "modelGuard samplePlan bookStore = Inr ()"
proof -
  have "keyGuard samplePlan bookStore = keyGuard samplePlan planStore"
    by (simp only: keyGuard_def resolveActiveKeyTx_def bookStore_frame)
  then show "keyGuard samplePlan bookStore = Inr ()" by (simp add: samplePlan_guards)
  have "connectionGuard samplePlan bookStore = connectionGuard samplePlan planStore"
    by (simp only: connectionGuard_def bookStore_frame)
  then show "connectionGuard samplePlan bookStore = Inr ()" by (simp add: samplePlan_guards)
  show "modelGuard samplePlan bookStore = Inr ()" by (simp add: modelGuard_def samplePlan_def)
qed

lemma derive_book: "derivePlanTx 30 None samplePlan bookStore = Inr (bookPlan, bookStore)"
proof -
  have "st_config bookStore = Some 0" by (simp add: bookStore_def planStore_def emptyStore_def)
  then show ?thesis using bookStore_guards bookStore_limits samplePlan_guards(1) by (simp add: derivePlanTx_def) (simp add: samplePlan_def)
qed

lemma activeKeyGuard_book: "activeKeyGuard bookPlan bookStore = Inr ()"
  by (simp add: activeKeyGuard_def bookPlan_def samplePlan_def bookStore_def planStore_def)

lemma book_empty: "st_attempts bookStore = []" "st_config bookStore = Some 0"
  by (simp_all add: bookStore_def planStore_def emptyStore_def)

lemma bookPlan_fields: "ap_ConfigRevision bookPlan = 0" "ap_ModelID bookPlan = ''''" "ap_TenantID bookPlan = ''t1''" "ap_AttemptID bookPlan = ''at1''"
  "ap_Deadline bookPlan = 600 * second" "ap_Deadline samplePlan = 600 * second"
  by (simp_all add: bookPlan_def samplePlan_def)

lemma book_reserves: "foldR (reserveAllowance 30 bookPlan False) (ap_Allowances bookPlan) ([], bookStore)
   = Inr ([1], addReserved concurrencyKey 1 \<lparr>aw_reserved = 0, aw_version = 1\<rparr> bookStore)"
  by (simp add: bookPlan_def reserveAllowance_def Let_def attemptAmount_def limitOf_def bookStore_def concurrencyKey_def samplePlan_def allowanceAmount_def)

lemma begin_book: "BeginAttempt sound 30 None samplePlan bookStore =
   (Inr \<lparr>pm_TenantID = ''t1'', pm_RequestID = ''r1'', pm_AttemptID = ''at1'', pm_ConfigRevision = 0\<rparr>,
    insertAttempt bookPlan 0 30 (newEnvelope bookPlan samplePlan '''' [1] 30 None)
      (addReserved concurrencyKey 1 \<lparr>aw_reserved = 0, aw_version = 1\<rparr> bookStore))"
proof -
  have "seenRequest bookPlan bookStore = False" by (simp add: seenRequest_def book_empty)
  then have "beginTx 30 None samplePlan bookStore = Inr (\<lparr>pm_TenantID = ''t1'', pm_RequestID = ''r1'', pm_AttemptID = ''at1'', pm_ConfigRevision = 0\<rparr>,
    insertAttempt bookPlan 0 30 (newEnvelope bookPlan samplePlan '''' [1] 30 None)
      (addReserved concurrencyKey 1 \<lparr>aw_reserved = 0, aw_version = 1\<rparr> bookStore))"
    using derive_book activeKeyGuard_book book_empty book_reserves 
    by (simp add: beginTx_def admitNew_def bookPlan_fields pinnedPrice_def unixTime_def second_def) (simp add: bookPlan_def samplePlan_def)
  then show ?thesis by (simp add: BeginAttempt_def samplePlan_guards withTx_def sound_def)
qed

definition begunStore :: Store where
  "begunStore = insertAttempt bookPlan 0 30 (newEnvelope bookPlan samplePlan '''' [1] 30 None)
      (addReserved concurrencyKey 1 \<lparr>aw_reserved = 0, aw_version = 1\<rparr> bookStore)"

definition begunRow :: attemptRow where
  "begunRow = \<lparr>at_RequestID = ''r1'', at_State = ''dispatch_intent'', at_Version = 0, at_Deadline = 600, at_UpdatedAt = 30,
     at_Data = Some (newEnvelope bookPlan samplePlan '''' [1] 30 None)\<rparr>"

lemma begunStore_attempts: "st_attempts begunStore = [((''t1'', ''at1''), begunRow)]"
proof -
  have "ap_RequestID bookPlan = ''r1''" by (simp add: bookPlan_def samplePlan_def)
  then show ?thesis
    by (simp add: begunStore_def insertAttempt_def addReserved_def book_empty bookPlan_fields begunRow_def unixTime_def second_def)
qed

lemma begun_op: "acct_op Begin bookStore begunStore"
proof -
  have "planTyped samplePlan" by (simp add: planTyped_def samplePlan_def i64opt_def)
  from begin_attempt [OF this, of bookStore sound 30 None] show ?thesis by (simp add: begin_book begunStore_def)
qed

lemma begun_run: "acct_step\<^sup>*\<^sup>* bookStore begunStore"
  using begun_op by (intro r_into_rtranclp) (auto simp: acct_step_def)

lemma book_idle: "idle bookStore"
  by (simp add: idle_def book_empty) (simp add: bookStore_def)

lemma begunRow_state: "at_State begunRow = ''dispatch_intent''"
  by (simp add: begunRow_def)

lemma begun_held: "rowHeld concurrencyKey begunRow = 1"
  by (simp add: rowHeld_def begunRow_def heldAt_def newEnvelope_def bookPlan_def samplePlan_def limitOf_def concurrencyKey_def)

lemma begun_reserved: "reservedAt begunStore concurrencyKey = 1" "reservedAt bookStore concurrencyKey = 0"
  by (simp_all add: reservedAt_def begunStore_def insertAttempt_def addReserved_def bookStore_def)

theorem reservations_cover_holds_witness:
  "acct_step\<^sup>*\<^sup>* bookStore begunStore \<and> heldTotal begunStore concurrencyKey = 1 \<and> 1 \<le> reservedAt begunStore concurrencyKey"
  using reservations_cover_holds [OF begun_run book_idle, of concurrencyKey] begun_run
  by (simp add: heldTotal_def begunStore_attempts begun_held)

theorem release_never_stuck_witness:
  "\<exists>s'. FinalizeAttempt sound 40 \<lparr>ao_TenantID = ''t1'', ao_RequestID = ''r1'', ao_AttemptID = ''at1'', ao_State = ''not_executed'',
       ao_Cancellation = '''', ao_Usage = None, ao_ActualCost = None\<rparr> begunStore = (Inr (), s')
     \<and> reservedAt begunStore concurrencyKey = 1 \<and> reservedAt s' concurrencyKey = 0"
proof -
  have "requestOf begunRow = ''r1''" by (simp add: requestOf_def begunRow_def newEnvelope_def bookPlan_def samplePlan_def)
  then show ?thesis
    using release_never_stuck [OF begun_run book_idle, of "\<lparr>ao_TenantID = ''t1'', ao_RequestID = ''r1'', ao_AttemptID = ''at1'',
        ao_State = ''not_executed'', ao_Cancellation = '''', ao_Usage = None, ao_ActualCost = None\<rparr>" begunRow 40]
    by (auto simp: begunStore_attempts begun_held begun_reserved begunRow_state)
qed

theorem admission_within_limits_witness:
  "reservedAt begunStore concurrencyKey = 1
     \<and> (\<exists>lim. map_of (st_policy_limits begunStore) concurrencyKey = Some lim \<and> reservedAt begunStore concurrencyKey \<le> lm_maximum lim)"
proof -
  have "limitsBacked bookStore" using booksOk_initial [OF book_idle] by (simp add: booksOk_def)
  from admission_within_limits [OF begin_book [folded begunStore_def] this, of concurrencyKey] show ?thesis
    by (simp add: begun_reserved)
qed

theorem attempts_refine_lifecycle_witness:
  "acct_op Begin bookStore begunStore \<and> phase_step Begin (phaseAt bookStore (''t1'', ''at1'')) (phaseAt begunStore (''t1'', ''at1''))"
proof -
  have "phaseAt begunStore (''t1'', ''at1'') \<noteq> phaseAt bookStore (''t1'', ''at1'')"
    by (simp add: phaseAt_def begunStore_attempts begunRow_def book_empty)
  with attempts_refine_lifecycle [OF rtranclp.rtrancl_refl book_idle begun_op, of "(''t1'', ''at1'')"] begun_op show ?thesis by simp
qed

end
