(* ===== verification/Framing.thy ===== *)
theory Framing
  imports Go_Encoding Bytes
begin

text \<open>
  Event framing (\<open>src/internal/protocol/framing/framing.go\<close>): the bounded decoders of server-sent events and of
  newline-delimited JSON, and the writer of server-sent events. A buffered reader is the bytes that are
  still to come and the error that follows them; a context is what its error is at each poll.
\<close>

section \<open>Strings\<close>

definition trimPrefix :: "string \<Rightarrow> string \<Rightarrow> string" where
  "trimPrefix s p = (if hasPrefix s p then drop (length p) s else s)"

definition trimSuffix :: "string \<Rightarrow> string \<Rightarrow> string" where
  "trimSuffix s p = (if length p \<le> length s \<and> drop (length s - length p) s = p then take (length s - length p) s else s)"

text \<open>\<open>strings.Cut\<close> at a byte: the parts before and after it, and whether it occurs.\<close>

definition cutByte :: "char \<Rightarrow> string \<Rightarrow> string \<times> string \<times> bool" where
  "cutByte c s = (takeWhile (\<lambda>x. x \<noteq> c) s, drop 1 (dropWhile (\<lambda>x. x \<noteq> c) s), c \<in> set s)"

text \<open>\<open>strings.ReplaceAll\<close> for a pattern that is not empty.\<close>

function replaceAll :: "string \<Rightarrow> string \<Rightarrow> string \<Rightarrow> string" where
  "replaceAll old new s =
     (if s = [] then []
      else if old \<noteq> [] \<and> hasPrefix s old then new @ replaceAll old new (drop (length old) s)
      else hd s # replaceAll old new (tl s))"
  by auto
termination by (relation "measure (\<lambda>(old, new, s). length s)") auto

declare replaceAll.simps [simp del]

definition lf :: char where "lf = char_of (10 :: nat)"
definition cr :: char where "cr = char_of (13 :: nat)"

text \<open>The byte order mark U+FEFF.\<close>

definition bom :: string where
  "bom = [char_of (239 :: nat), char_of (187 :: nat), char_of (191 :: nat)]"

section \<open>Reading lines\<close>

definition EOF :: go_error where "EOF = Sentinel ''EOF''"
definition ErrUnexpectedEOF :: go_error where "ErrUnexpectedEOF = Sentinel ''unexpected EOF''"
definition ErrFrameTooLarge :: go_error where
  "ErrFrameTooLarge = Sentinel ''protocol frame exceeds configured limit''"

definition DefaultMaxEventBytes :: int where
  "DefaultMaxEventBytes = 1048576"

record bufReader =
  br_Data :: string
  br_Err :: go_error
  br_Polls :: nat

definition bufferSize :: nat where "bufferSize = 4096"

text \<open>
  What \<open>ReadSlice('\n')\<close> returns: the bytes through the next newline, a full buffer without one, or the
  rest of the stream and its error.
\<close>

datatype slice = SliceLine string | SliceFull string | SliceEnd string go_error

definition readSlice :: "bufReader \<Rightarrow> slice \<times> bufReader" where
  "readSlice r =
     (let buf = take bufferSize (br_Data r) in
      if lf \<in> set buf then
        let l = takeWhile (\<lambda>c. c \<noteq> lf) buf @ [lf] in (SliceLine l, r\<lparr>br_Data := drop (length l) (br_Data r)\<rparr>)
      else if length buf = bufferSize then (SliceFull buf, r\<lparr>br_Data := drop bufferSize (br_Data r)\<rparr>)
      else (SliceEnd buf (br_Err r), r\<lparr>br_Data := []\<rparr>))"

type_synonym polled = "nat \<Rightarrow> go_error option"

definition poll :: "bufReader \<Rightarrow> bufReader" where
  "poll r = r\<lparr>br_Polls := br_Polls r + 1\<rparr>"

lemma readSlice_full: "readSlice r = (SliceFull p, r') \<Longrightarrow> length (br_Data r') < length (br_Data r)"
  by (auto simp: readSlice_def Let_def bufferSize_def split: if_splits)

lemma poll_data [simp]: "br_Data (poll r) = br_Data r" "br_Err (poll r) = br_Err r"
  by (simp_all add: poll_def)

function readLine :: "polled \<Rightarrow> int \<Rightarrow> string \<Rightarrow> bufReader \<Rightarrow> (string \<times> go_error option) \<times> bufReader" where
  "readLine ctx limit acc r =
     (case ctx (br_Polls r) of
        Some e \<Rightarrow> (([], Some e), poll r)
      | None \<Rightarrow>
          (case readSlice (poll r) of
             (SliceLine part, r') \<Rightarrow>
               if int (length part) > limit - int (length acc) then (([], Some ErrFrameTooLarge), r')
               else ((acc @ part, None), r')
           | (SliceFull part, r') \<Rightarrow>
               if int (length part) > limit - int (length acc) then (([], Some ErrFrameTooLarge), r')
               else readLine ctx limit (acc @ part) r'
           | (SliceEnd part e, r') \<Rightarrow>
               if int (length part) > limit - int (length acc) then (([], Some ErrFrameTooLarge), r')
               else if e \<noteq> EOF then (([], Some e), r')
               else if acc @ part = [] then (([], Some EOF), r')
               else ((acc @ part, Some EOF), r')))"
  by pat_completeness auto
termination
  by (relation "measure (\<lambda>(ctx, limit, acc, r). length (br_Data r))") (auto dest!: readSlice_full [OF sym])

declare readLine.simps [simp del]

lemma readLine_progress:
  "readLine ctx limit acc r = ((raw, None), r') \<Longrightarrow> length (br_Data r') < length (br_Data r)"
proof (induction ctx limit acc r rule: readLine.induct)
  case (1 ctx limit acc r)
  obtain sl r1 where sl: "readSlice (poll r) = (sl, r1)" by fastforce
  have line: "length (br_Data r1) < length (br_Data r)" if "sl = SliceLine p" for p
    using sl that by (cases "br_Data r") (auto simp: readSlice_def Let_def bufferSize_def split: if_splits)
  show ?case
  proof (cases sl)
    case (SliceFull p)
    then have "length (br_Data r1) < length (br_Data r)" using readSlice_full [of "poll r" p r1] sl by simp
    with SliceFull sl 1 show ?thesis
      by (auto simp: readLine.simps [of ctx limit acc r] split: option.splits if_splits)
  qed (use line sl 1 in \<open>auto simp: readLine.simps [of ctx limit acc r] split: option.splits if_splits\<close>)
qed

section \<open>Server-sent events\<close>

record SSEEvent =
  se_Event :: string
  se_Data :: string
  se_ID :: string

definition noEvent :: SSEEvent where
  "noEvent = \<lparr>se_Event = '''', se_Data = '''', se_ID = ''''\<rparr>"

record SSEDecoder =
  sd_Reader :: bufReader
  sd_Maximum :: int
  sd_First :: bool

definition NewSSEDecoder :: "bufReader \<Rightarrow> int \<Rightarrow> SSEDecoder" where
  "NewSSEDecoder r maxBytes =
     \<lparr>sd_Reader = r, sd_Maximum = (if maxBytes \<le> 0 then DefaultMaxEventBytes else maxBytes), sd_First = True\<rparr>"

text \<open>The variables of \<open>Next\<close>: the event, the data collected so far, the bytes read, whether there was data.\<close>

record sseState =
  ss_Event :: SSEEvent
  ss_Data :: string
  ss_Size :: int
  ss_HasData :: bool

definition sseField :: "string \<Rightarrow> sseState \<Rightarrow> sseState" where
  "sseField text st =
     (case cutByte (CHR '':'') text of (field, rest, found) \<Rightarrow>
        let val = trimPrefix (if found then rest else '''') '' '' in
        if field = ''data'' then
          st\<lparr>ss_Data := (if ss_HasData st then ss_Data st @ [lf] @ val else ss_Data st @ val), ss_HasData := True\<rparr>
        else if field = ''event'' then st\<lparr>ss_Event := (ss_Event st)\<lparr>se_Event := val\<rparr>\<rparr>
        else if field = ''id'' then
          (if nul \<notin> set val then st\<lparr>ss_Event := (ss_Event st)\<lparr>se_ID := val\<rparr>\<rparr> else st)
        else st)"

definition lineText :: "bool \<Rightarrow> string \<Rightarrow> string" where
  "lineText first raw =
     (let text = trimSuffix (trimSuffix raw [lf]) [cr] in if first then trimPrefix text bom else text)"

function sseLoop :: "polled \<Rightarrow> sseState \<Rightarrow> SSEDecoder \<Rightarrow> SSEEvent res \<times> SSEDecoder" where
  "sseLoop ctx st d =
     (case readLine ctx (sd_Maximum d - ss_Size st) [] (sd_Reader d) of
        ((raw, Some e), r') \<Rightarrow>
          let d' = d\<lparr>sd_Reader := r'\<rparr> in
          if e \<noteq> EOF then (Inl e, d')
          else if ss_Size st \<noteq> 0 \<or> raw \<noteq> [] then (Inl ErrUnexpectedEOF, d')
          else (Inl EOF, d')
      | ((raw, None), r') \<Rightarrow>
          let st1 = st\<lparr>ss_Size := ss_Size st + int (length raw)\<rparr>;
              text = lineText (sd_First d) raw;
              d' = d\<lparr>sd_Reader := r', sd_First := False\<rparr>
          in if text = [] then
               (if ss_HasData st1 then (Inr ((ss_Event st1)\<lparr>se_Data := ss_Data st1\<rparr>), d')
                else sseLoop ctx (st1\<lparr>ss_Event := noEvent, ss_Size := 0\<rparr>) d')
             else if hasPrefix text '':'' then sseLoop ctx st1 d'
             else sseLoop ctx (sseField text st1) d')"
  by pat_completeness auto
termination
  by (relation "measure (\<lambda>(ctx, st, d). length (br_Data (sd_Reader d)))") (auto dest!: readLine_progress [OF sym])

declare sseLoop.simps [simp del]

definition sseNext :: "polled \<Rightarrow> SSEDecoder \<Rightarrow> SSEEvent res \<times> SSEDecoder" where
  "sseNext ctx d = sseLoop ctx \<lparr>ss_Event = noEvent, ss_Data = '''', ss_Size = 0, ss_HasData = False\<rparr> d"

definition dataLine :: "string \<Rightarrow> string" where
  "dataLine val = ''data: '' @ val @ [lf]"

definition normalizeData :: "string \<Rightarrow> string" where
  "normalizeData s = replaceAll [cr] [lf] (replaceAll [cr, lf] [lf] s)"

text \<open>The bytes of an event; \<open>io.WriteString\<close> hands them to the writer.\<close>

definition encodeSSE :: "SSEEvent \<Rightarrow> string res" where
  "encodeSSE ev =
     (if cr \<in> set (se_Event ev) \<or> lf \<in> set (se_Event ev) \<or> cr \<in> set (se_ID ev) \<or> lf \<in> set (se_ID ev) \<or> nul \<in> set (se_ID ev)
      then Inl (GoErr ''invalid SSE event metadata'')
      else Inr ((if se_Event ev \<noteq> '''' then ''event: '' @ se_Event ev @ [lf] else '''')
        @ (if se_ID ev \<noteq> '''' then ''id: '' @ se_ID ev @ [lf] else '''')
        @ concat (map dataLine (splitByte lf (normalizeData (se_Data ev)))) @ [lf]))"

definition WriteSSE :: "(string \<Rightarrow> 'w \<Rightarrow> unit res \<times> 'w) \<Rightarrow> SSEEvent \<Rightarrow> 'w \<Rightarrow> unit res \<times> 'w" where
  "WriteSSE wr ev w = (case encodeSSE ev of Inl e \<Rightarrow> (Inl e, w) | Inr out \<Rightarrow> wr out w)"

section \<open>Newline-delimited JSON\<close>

record NDJSONDecoder =
  nd_Reader :: bufReader
  nd_Maximum :: int

definition NewNDJSONDecoder :: "bufReader \<Rightarrow> int \<Rightarrow> NDJSONDecoder" where
  "NewNDJSONDecoder r maxBytes = \<lparr>nd_Reader = r, nd_Maximum = (if maxBytes \<le> 0 then DefaultMaxEventBytes else maxBytes)\<rparr>"

function ndNext :: "polled \<Rightarrow> NDJSONDecoder \<Rightarrow> string res \<times> NDJSONDecoder" where
  "ndNext ctx d =
     (case readLine ctx (nd_Maximum d) [] (nd_Reader d) of
        ((raw, err), r') \<Rightarrow>
          let d' = d\<lparr>nd_Reader := r'\<rparr> in
          case err of
            Some e \<Rightarrow> if e \<noteq> EOF then (Inl e, d') else if trimSpace raw \<noteq> [] then (Inr (trimSpace raw), d') else (Inl e, d')
          | None \<Rightarrow> if trimSpace raw \<noteq> [] then (Inr (trimSpace raw), d') else ndNext ctx d')"
  by pat_completeness auto
termination
  by (relation "measure (\<lambda>(ctx, d). length (br_Data (nd_Reader d)))") (auto dest!: readLine_progress [OF sym])

declare ndNext.simps [simp del]

section \<open>Lines of a stream\<close>

lemma readSlice_line:
  assumes "br_Data r = l @ lf # rest" "lf \<notin> set l"
  shows "readSlice r = (if length l < bufferSize then (SliceLine (l @ [lf]), r\<lparr>br_Data := rest\<rparr>)
     else (SliceFull (take bufferSize l), r\<lparr>br_Data := drop bufferSize l @ lf # rest\<rparr>))"
proof (cases "length l < bufferSize")
  case True
  then obtain n where n: "bufferSize - length l = Suc n" by (cases "bufferSize - length l") auto
  have "takeWhile (\<lambda>c. c \<noteq> lf) (l @ lf # take n rest) = l" using assms(2) by (simp add: takeWhile_append)
  with True assms n show ?thesis by (auto simp: readSlice_def Let_def)
next
  case False
  then have "lf \<notin> set (take bufferSize l)" using assms(2) by (meson in_set_takeD)
  with False assms show ?thesis by (simp add: readSlice_def Let_def)
qed

text \<open>A context that is never cancelled.\<close>

definition live :: polled where
  "live n = None"

lemma take_drop_append [simp]: "take n l @ drop n l @ z = l @ z"
  by (metis append.assoc append_take_drop_id)

lemma readLine_line:
  assumes "br_Data r = l @ lf # rest" "lf \<notin> set l" "int (length acc) + int (length l) + 1 \<le> limit"
  shows "\<exists>r'. readLine live limit acc r = ((acc @ l @ [lf], None), r') \<and> br_Data r' = rest"
  using assms
proof (induction "length l" arbitrary: l acc r rule: less_induct)
  case less
  have sl: "readSlice (poll r) = (if length l < bufferSize then (SliceLine (l @ [lf]), (poll r)\<lparr>br_Data := rest\<rparr>)
     else (SliceFull (take bufferSize l), (poll r)\<lparr>br_Data := drop bufferSize l @ lf # rest\<rparr>))"
    using less.prems by (intro readSlice_line) simp_all
  show ?case
  proof (cases "length l < bufferSize")
    case True
    with sl less.prems show ?thesis by (simp add: readLine.simps [of live limit acc r] live_def [of "br_Polls r"])
  next
    case False
    let ?r = "(poll r)\<lparr>br_Data := drop bufferSize l @ lf # rest\<rparr>"
    have len: "length (drop bufferSize l) < length l" using False by (simp add: bufferSize_def)
    have "\<exists>r'. readLine live limit (acc @ take bufferSize l) ?r = (((acc @ take bufferSize l) @ drop bufferSize l @ [lf], None), r') \<and> br_Data r' = rest"
      using less.prems False by (intro less.hyps [OF len]) (auto dest: in_set_dropD)
    with False sl less.prems show ?thesis by (simp add: readLine.simps [of live limit acc r] live_def [of "br_Polls r"])
  qed
qed

lemma lf_cr [simp]: "lf \<noteq> cr" "cr \<noteq> lf"
  by (simp_all add: lf_def cr_def char_of_def bit_0)

lemma trimSuffix_snoc [simp]: "trimSuffix (l @ [c]) [c] = l"
  by (simp add: trimSuffix_def)

lemma trimSuffix_none: "c \<notin> set l \<Longrightarrow> trimSuffix l [c] = l"
  by (cases l rule: rev_cases) (auto simp: trimSuffix_def)

lemma lineText_line: "cr \<notin> set l \<Longrightarrow> lineText first (l @ [lf]) = (if first then trimPrefix l bom else l)"
  by (simp add: lineText_def trimSuffix_none)

text \<open>One turn of the loop on a line that is complete and within the limit.\<close>

lemma sseLoop_line:
  assumes "br_Data (sd_Reader d) = l @ lf # rest" "lf \<notin> set l" "cr \<notin> set l" "\<not> hasPrefix l bom"
    and "ss_Size st + int (length l) + 1 \<le> sd_Maximum d"
  obtains d' where "br_Data (sd_Reader d') = rest" "sd_Maximum d' = sd_Maximum d"
    and "sseLoop live st d =
      (let st1 = st\<lparr>ss_Size := ss_Size st + int (length l) + 1\<rparr> in
       if l = [] then
         (if ss_HasData st then (Inr ((ss_Event st)\<lparr>se_Data := ss_Data st\<rparr>), d')
          else sseLoop live (st\<lparr>ss_Event := noEvent, ss_Size := 0\<rparr>) d')
       else if hasPrefix l '':'' then sseLoop live st1 d'
       else sseLoop live (sseField l st1) d')"
proof -
  from readLine_line [OF assms(1,2), of "[]" "sd_Maximum d - ss_Size st"] assms(5)
  obtain r' where r: "readLine live (sd_Maximum d - ss_Size st) [] (sd_Reader d) = ((l @ [lf], None), r')" "br_Data r' = rest" by auto
  have "lineText (sd_First d) (l @ [lf]) = l" using assms(3,4) by (simp add: lineText_line trimPrefix_def)
  with r that [of "d\<lparr>sd_Reader := r', sd_First := False\<rparr>"] show ?thesis
    by (simp add: sseLoop.simps [of live st d] Let_def ac_simps cong: if_cong)
qed

section \<open>Fields\<close>

lemma takeWhile_cut [simp]: "c \<notin> set a \<Longrightarrow> cutByte c (a @ c # b) = (a, b, True)"
  by (simp add: cutByte_def takeWhile_append dropWhile_append)

lemma sseField_fields:
  "sseField (''data: '' @ v) st =
     st\<lparr>ss_Data := (if ss_HasData st then ss_Data st @ [lf] @ v else ss_Data st @ v), ss_HasData := True\<rparr>"
  "sseField (''event: '' @ v) st = st\<lparr>ss_Event := (ss_Event st)\<lparr>se_Event := v\<rparr>\<rparr>"
  "nul \<notin> set v \<Longrightarrow> sseField (''id: '' @ v) st = st\<lparr>ss_Event := (ss_Event st)\<lparr>se_ID := v\<rparr>\<rparr>"
proof -
  have "cutByte (CHR '':'') (''data: '' @ v) = (''data'', '' '' @ v, True)"
    "cutByte (CHR '':'') (''event: '' @ v) = (''event'', '' '' @ v, True)"
    "cutByte (CHR '':'') (''id: '' @ v) = (''id'', '' '' @ v, True)"
    by (simp_all add: cutByte_def)
  then show "sseField (''data: '' @ v) st =
     st\<lparr>ss_Data := (if ss_HasData st then ss_Data st @ [lf] @ v else ss_Data st @ v), ss_HasData := True\<rparr>"
    "sseField (''event: '' @ v) st = st\<lparr>ss_Event := (ss_Event st)\<lparr>se_Event := v\<rparr>\<rparr>"
    "nul \<notin> set v \<Longrightarrow> sseField (''id: '' @ v) st = st\<lparr>ss_Event := (ss_Event st)\<lparr>se_ID := v\<rparr>\<rparr>"
    by (simp_all add: sseField_def trimPrefix_def hasPrefix_def)
qed

text \<open>A field line whose name begins with a lower-case letter is neither a comment nor a byte order mark.\<close>

lemma sseLoop_field:
  assumes "br_Data (sd_Reader d) = (c # l) @ lf # rest" "lf \<notin> set (c # l)" "cr \<notin> set (c # l)" "c \<in> {CHR ''d'', CHR ''e'', CHR ''i''}"
    and "ss_Size st + int (length (c # l)) + 1 \<le> sd_Maximum d"
  obtains d' where "br_Data (sd_Reader d') = rest" "sd_Maximum d' = sd_Maximum d"
    and "sseLoop live st d = sseLoop live (sseField (c # l) (st\<lparr>ss_Size := ss_Size st + int (length (c # l)) + 1\<rparr>)) d'"
proof -
  have "\<not> hasPrefix (c # l) bom" "\<not> hasPrefix (c # l) '':''"
    using assms(4) by (auto simp: hasPrefix_def bom_def char_of_def bit_0)
  with sseLoop_line [OF assms(1-3) _ assms(5)] that show ?thesis by (auto simp: Let_def)
qed

lemma literal_bytes: "lf \<notin> set ''data: ''" "cr \<notin> set ''data: ''" "lf \<notin> set ''event: ''" "cr \<notin> set ''event: ''"
  "lf \<notin> set ''id: ''" "cr \<notin> set ''id: ''"
  by (simp_all add: lf_def cr_def char_of_def bit_0)

text \<open>The state after a data line.\<close>

definition dataStep :: "string \<Rightarrow> sseState \<Rightarrow> sseState" where
  "dataStep v st = sseField (''data: '' @ v) (st\<lparr>ss_Size := ss_Size st + int (length (dataLine v))\<rparr>)"

lemma dataStep_fields [simp]:
  "ss_Size (dataStep v st) = ss_Size st + int (length (dataLine v))" "ss_Event (dataStep v st) = ss_Event st" "ss_HasData (dataStep v st)"
  "ss_Data (dataStep v st) = (if ss_HasData st then ss_Data st @ [lf] @ v else ss_Data st @ v)"
  unfolding dataStep_def sseField_fields by simp_all

lemma joinWith_Cons: "joinWith sep (x # xs) = (if xs = [] then x else x @ sep @ joinWith sep xs)"
  by (cases xs) simp_all

lemma fold_dataStep:
  "ss_Size (fold dataStep vs st) = ss_Size st + int (length (concat (map dataLine vs)))"
  "ss_Event (fold dataStep vs st) = ss_Event st"
  "ss_HasData (fold dataStep vs st) \<longleftrightarrow> ss_HasData st \<or> vs \<noteq> []"
  "ss_Data (fold dataStep vs st) = (if vs = [] then ss_Data st
     else if ss_HasData st then ss_Data st @ [lf] @ joinWith [lf] vs else ss_Data st @ joinWith [lf] vs)"
  by (induction vs arbitrary: st) (simp_all add: joinWith_Cons)

lemma sseLoop_data:
  assumes "br_Data (sd_Reader d) = concat (map dataLine vs) @ rest" "\<forall>v \<in> set vs. lf \<notin> set v \<and> cr \<notin> set v"
    and "ss_Size st + int (length (concat (map dataLine vs))) \<le> sd_Maximum d"
  shows "\<exists>d'. br_Data (sd_Reader d') = rest \<and> sd_Maximum d' = sd_Maximum d
     \<and> sseLoop live st d = sseLoop live (fold dataStep vs st) d'"
  using assms
proof (induction vs arbitrary: d st)
  case Nil
  then show ?case by (intro exI [of _ d]) simp
next
  case (Cons v vs)
  let ?l = "''ata: '' @ v"
  have l: "CHR ''d'' # ?l = ''data: '' @ v" "int (length (''data: '' @ v)) + 1 = int (length (dataLine v))"
    by (simp_all add: dataLine_def)
  have p1: "br_Data (sd_Reader d) = (CHR ''d'' # ?l) @ lf # (concat (map dataLine vs) @ rest)"
    using Cons.prems(1) by (simp add: dataLine_def [of v])
  have p2: "lf \<notin> set (CHR ''d'' # ?l)" "cr \<notin> set (CHR ''d'' # ?l)" using Cons.prems(2) literal_bytes(1,2) by auto
  have p3: "ss_Size st + int (length (CHR ''d'' # ?l)) + 1 \<le> sd_Maximum d"
    using Cons.prems(3) by (simp add: dataLine_def [of v])
  obtain d1 where d1: "br_Data (sd_Reader d1) = concat (map dataLine vs) @ rest" "sd_Maximum d1 = sd_Maximum d"
    and step0: "sseLoop live st d = sseLoop live (sseField (CHR ''d'' # ?l) (st\<lparr>ss_Size := ss_Size st + int (length (CHR ''d'' # ?l)) + 1\<rparr>)) d1"
    by (rule sseLoop_field [OF p1 p2 _ p3]) simp
  then have step: "sseLoop live st d = sseLoop live (dataStep v st) d1" by (simp only: l add.assoc dataStep_def)
  have "\<exists>d'. br_Data (sd_Reader d') = rest \<and> sd_Maximum d' = sd_Maximum d1
     \<and> sseLoop live (dataStep v st) d1 = sseLoop live (fold dataStep vs (dataStep v st)) d'"
    by (rule Cons.IH) (use d1 Cons.prems in simp_all)
  with d1 step show ?case by auto
qed

text \<open>An optional line of metadata.\<close>

definition metaLine :: "string \<Rightarrow> string \<Rightarrow> string" where
  "metaLine name v = (if v \<noteq> [] then name @ v @ [lf] else [])"

definition metaStep :: "string \<Rightarrow> string \<Rightarrow> sseState \<Rightarrow> sseState" where
  "metaStep name v st =
     (if v \<noteq> [] then sseField (name @ v) (st\<lparr>ss_Size := ss_Size st + int (length (metaLine name v))\<rparr>) else st)"

lemma metaStep_fields [simp]:
  "metaStep ''event: '' v st = st\<lparr>ss_Size := ss_Size st + int (length (metaLine ''event: '' v)),
     ss_Event := (if v \<noteq> [] then (ss_Event st)\<lparr>se_Event := v\<rparr> else ss_Event st)\<rparr>"
  "nul \<notin> set v \<Longrightarrow> metaStep ''id: '' v st = st\<lparr>ss_Size := ss_Size st + int (length (metaLine ''id: '' v)),
     ss_Event := (if v \<noteq> [] then (ss_Event st)\<lparr>se_ID := v\<rparr> else ss_Event st)\<rparr>"
proof -
  show "metaStep ''event: '' v st = st\<lparr>ss_Size := ss_Size st + int (length (metaLine ''event: '' v)),
     ss_Event := (if v \<noteq> [] then (ss_Event st)\<lparr>se_Event := v\<rparr> else ss_Event st)\<rparr>"
    unfolding metaStep_def sseField_fields by (simp add: metaLine_def)
  assume "nul \<notin> set v"
  then show "metaStep ''id: '' v st = st\<lparr>ss_Size := ss_Size st + int (length (metaLine ''id: '' v)),
     ss_Event := (if v \<noteq> [] then (ss_Event st)\<lparr>se_ID := v\<rparr> else ss_Event st)\<rparr>"
    unfolding metaStep_def sseField_fields(3) [OF \<open>nul \<notin> set v\<close>] by (simp add: metaLine_def)
qed

lemma sseLoop_meta:
  assumes "br_Data (sd_Reader d) = metaLine name v @ rest" "lf \<notin> set name" "cr \<notin> set name" "lf \<notin> set v" "cr \<notin> set v"
    and "name \<noteq> []" "hd name \<in> {CHR ''d'', CHR ''e'', CHR ''i''}"
    and "ss_Size st + int (length (metaLine name v)) \<le> sd_Maximum d"
  shows "\<exists>d'. br_Data (sd_Reader d') = rest \<and> sd_Maximum d' = sd_Maximum d \<and> sseLoop live st d = sseLoop live (metaStep name v st) d'"
proof (cases "v = []")
  case True
  with assms show ?thesis by (intro exI [of _ d]) (simp add: metaLine_def metaStep_def)
next
  case False
  obtain c l where name: "name = c # l" using assms(6) by (cases name) auto
  have p: "br_Data (sd_Reader d) = (c # l @ v) @ lf # rest" "lf \<notin> set (c # l @ v)" "cr \<notin> set (c # l @ v)"
    "c \<in> {CHR ''d'', CHR ''e'', CHR ''i''}" "ss_Size st + int (length (c # l @ v)) + 1 \<le> sd_Maximum d"
    using assms False name by (auto simp: metaLine_def)
  obtain d' where "br_Data (sd_Reader d') = rest" "sd_Maximum d' = sd_Maximum d"
    and "sseLoop live st d = sseLoop live (sseField (c # l @ v) (st\<lparr>ss_Size := ss_Size st + int (length (c # l @ v)) + 1\<rparr>)) d'"
    by (rule sseLoop_field [OF p])
  with False name show ?thesis by (intro exI [of _ d']) (simp add: metaStep_def metaLine_def ac_simps)
qed

lemma replaceAll_Nil [simp]: "replaceAll old new [] = []"
  by (simp add: replaceAll.simps)

lemma replaceAll_single: "replaceAll [a] [b] s = map (\<lambda>c. if c = a then b else c) s"
  by (induction s) (simp_all add: replaceAll.simps [of "[a]" "[b]" "_ # _"] hasPrefix_def)

lemma replaceAll_absent: "a \<notin> set s \<Longrightarrow> replaceAll (a # old) new s = s"
  by (induction s) (auto simp add: replaceAll.simps [of "a # old" new "_ # _"] hasPrefix_def)

lemma normalizeData_lines: "cr \<notin> set (normalizeData s)" "cr \<notin> set s \<Longrightarrow> normalizeData s = s"
  by (auto simp: normalizeData_def replaceAll_single replaceAll_absent intro!: map_idI)

lemma splitByte_nonempty [simp]: "splitByte sep s \<noteq> []"
  by (induction s) (auto split: list.splits)

lemma splitByte_parts: "v \<in> set (splitByte sep s) \<Longrightarrow> sep \<notin> set v \<and> set v \<subseteq> set s"
  by (induction s arbitrary: v) (fastforce split: list.splits if_splits)+

lemma joinWith_splitByte: "joinWith [sep] (splitByte sep s) = s"
  by (induction s) (auto simp: joinWith_Cons split: list.splits)

section \<open>Properties\<close>

lemma encodeSSE_Inr:
  "encodeSSE ev = Inr out \<longleftrightarrow>
     cr \<notin> set (se_Event ev) \<and> lf \<notin> set (se_Event ev) \<and> cr \<notin> set (se_ID ev) \<and> lf \<notin> set (se_ID ev) \<and> nul \<notin> set (se_ID ev)
     \<and> out = metaLine ''event: '' (se_Event ev) @ metaLine ''id: '' (se_ID ev)
         @ concat (map dataLine (splitByte lf (normalizeData (se_Data ev)))) @ [lf]"
  unfolding encodeSSE_def metaLine_def by auto

text \<open>
  C12: What \<open>WriteSSE\<close> writes, \<open>Next\<close> reads: over a live context, on any stream that goes on with the bytes of an event, within the
  decoder's limit, the next event is that event, with its line breaks normalized to newlines, and the
  decoder is left at the bytes that follow; an event without carriage returns comes back unchanged.
\<close>

theorem sse_roundtrip:
  assumes "WriteSSE (\<lambda>out w. (Inr (), w @ out)) ev [] = (Inr (), out)"
    and "br_Data (sd_Reader d) = out @ rest" "int (length out) \<le> sd_Maximum d"
  shows "\<exists>d'. sseNext live d = (Inr (ev\<lparr>se_Data := normalizeData (se_Data ev)\<rparr>), d') \<and> br_Data (sd_Reader d') = rest
     \<and> (cr \<notin> set (se_Data ev) \<longrightarrow> normalizeData (se_Data ev) = se_Data ev)"
proof -
  let ?e = "metaLine ''event: '' (se_Event ev)" and ?i = "metaLine ''id: '' (se_ID ev)"
  let ?vs = "splitByte lf (normalizeData (se_Data ev))" and ?st = "\<lparr>ss_Event = noEvent, ss_Data = '''', ss_Size = 0, ss_HasData = False\<rparr>"
  have ok: "encodeSSE ev = Inr out" using assms(1) by (auto simp: WriteSSE_def split: sum.splits)
  then have out: "out = ?e @ ?i @ concat (map dataLine ?vs) @ [lf]" and free: "cr \<notin> set (se_Event ev)" "lf \<notin> set (se_Event ev)"
    "cr \<notin> set (se_ID ev)" "lf \<notin> set (se_ID ev)" "nul \<notin> set (se_ID ev)" by (simp_all add: encodeSSE_Inr)
  have "\<forall>v \<in> set ?vs. lf \<notin> set v \<and> cr \<notin> set v" using splitByte_parts normalizeData_lines(1) by fast
  note vs = this
  define st1 where "st1 = metaStep ''event: '' (se_Event ev) ?st"
  define st2 where "st2 = metaStep ''id: '' (se_ID ev) st1"
  have size: "ss_Size st1 = int (length ?e)" "ss_Size st2 = int (length ?e) + int (length ?i)"
    using free by (simp_all add: st1_def st2_def)
  obtain d1 where d1: "br_Data (sd_Reader d1) = ?i @ concat (map dataLine ?vs) @ lf # rest" "sd_Maximum d1 = sd_Maximum d"
    "sseLoop live ?st d = sseLoop live st1 d1"
    using sseLoop_meta [of d "''event: ''" "se_Event ev" "?i @ concat (map dataLine ?vs) @ lf # rest" ?st] assms(2,3) free literal_bytes
    by (auto simp: out st1_def)
  obtain d2 where d2: "br_Data (sd_Reader d2) = concat (map dataLine ?vs) @ lf # rest" "sd_Maximum d2 = sd_Maximum d"
    "sseLoop live st1 d1 = sseLoop live st2 d2"
    using sseLoop_meta [of d1 "''id: ''" "se_ID ev" "concat (map dataLine ?vs) @ lf # rest" st1] assms(3) d1 free literal_bytes size
    by (auto simp: out st2_def)
  obtain d3 where d3: "br_Data (sd_Reader d3) = lf # rest" "sd_Maximum d3 = sd_Maximum d"
    "sseLoop live st2 d2 = sseLoop live (fold dataStep ?vs st2) d3"
    using sseLoop_data [OF d2(1) vs, of st2] assms(3) d2 size by (auto simp: out)
  have "ss_Size (fold dataStep ?vs st2) + int (length []) + 1 \<le> sd_Maximum d3"
    using assms(3) d3(2) size by (simp add: fold_dataStep out)
  then obtain d4 where "br_Data (sd_Reader d4) = rest"
    "sseLoop live (fold dataStep ?vs st2) d3 = (Inr ((ss_Event (fold dataStep ?vs st2))\<lparr>se_Data := ss_Data (fold dataStep ?vs st2)\<rparr>), d4)"
    using sseLoop_line [of d3 "[]" rest "fold dataStep ?vs st2"] d3(1) by (auto simp: fold_dataStep Let_def hasPrefix_def bom_def)
  moreover have "(ss_Event (fold dataStep ?vs st2))\<lparr>se_Data := ss_Data (fold dataStep ?vs st2)\<rparr> = ev\<lparr>se_Data := normalizeData (se_Data ev)\<rparr>"
    using free by (simp add: fold_dataStep st2_def st1_def joinWith_splitByte noEvent_def)
  ultimately show ?thesis using d1(3) d2(3) d3(3) normalizeData_lines(2) by (simp add: sseNext_def)
qed

theorem sse_roundtrip_witness:
  "\<exists>d'. sseNext live (NewSSEDecoder \<lparr>br_Data = ''event: m'' @ [lf] @ ''data: hi'' @ [lf, lf] @ ''rest'', br_Err = EOF, br_Polls = 0\<rparr> 100)
     = (Inr \<lparr>se_Event = ''m'', se_Data = ''hi'', se_ID = []\<rparr>, d') \<and> br_Data (sd_Reader d') = ''rest''"
proof -
  let ?ev = "\<lparr>se_Event = ''m'', se_Data = ''hi'', se_ID = []\<rparr>" and ?out = "''event: m'' @ [lf] @ ''data: hi'' @ [lf, lf]"
  let ?d = "NewSSEDecoder \<lparr>br_Data = ?out @ ''rest'', br_Err = EOF, br_Polls = 0\<rparr> 100"
  have c: "cr \<notin> set ''hi''" "lf \<notin> set ''hi''" "cr \<notin> set ''m''" "lf \<notin> set ''m''" by (simp_all add: lf_def cr_def char_of_def bit_0)
  have "splitByte lf ''hi'' = [''hi'']" by (rule splitByte_none [OF c(2)])
  then have "WriteSSE (\<lambda>out w. (Inr (), w @ out)) ?ev [] = (Inr (), ?out)"
    using c by (simp add: WriteSSE_def encodeSSE_def normalizeData_lines(2) dataLine_def)
  from sse_roundtrip [OF this, of ?d "''rest''"] c show ?thesis by (simp add: NewSSEDecoder_def normalizeData_lines(2))
qed

end
