(* ===== verification/Endpoint.thy ===== *)
theory Endpoint
  imports Policy_Plan
begin

text \<open>
  Endpoint inventories of provider connectors (\<open>src/internal/provider/endpoint/endpoint.go\<close>): the binding of a
  target to an allow-listed endpoint and the expansion of its path template. A route's response policy
  and header validator are values the binding only hands on, so they are type parameters; \<open>url.Parse\<close>
  is an argument that gives the parts \<open>ValidateRelative\<close> reads. The \<open>for\<close> loop of \<open>BindEndpoint\<close> rewrites
  its path until no brace is left; it is \<open>expandPath\<close>, with \<open>None\<close> for a loop that never ends.
\<close>

section \<open>Path segments\<close>

definition failure :: "string \<Rightarrow> string \<Rightarrow> go_error" where
  "failure code msg = Problem code 400 msg"

definition unreservedByte :: "char \<Rightarrow> bool" where
  "unreservedByte c =
     (inByte 97 122 c \<or> inByte 65 90 c \<or> inByte 48 57 c \<or> c \<in> set ''-_.~$&+:=@'')"

definition upperHex :: "nat \<Rightarrow> char" where
  "upperHex n = (if n < 10 then char_of (48 + n) else char_of (55 + n))"

text \<open>\<open>url.PathEscape\<close>.\<close>

definition pathEscape :: "string \<Rightarrow> string" where
  "pathEscape s =
     concat (map (\<lambda>c. if unreservedByte c then [c] else [CHR ''%'', upperHex (byteOf c div 16), upperHex (byteOf c mod 16)]) s)"

definition unhex :: "char \<Rightarrow> nat option" where
  "unhex c =
     (if inByte 48 57 c then Some (byteOf c - 48)
      else if inByte 97 102 c then Some (byteOf c - 87)
      else if inByte 65 70 c then Some (byteOf c - 55)
      else None)"

text \<open>\<open>url.PathUnescape\<close>: \<open>None\<close> is an invalid escape.\<close>

fun pathUnescape :: "string \<Rightarrow> string option" where
  "pathUnescape [] = Some []"
| "pathUnescape (c # s) =
     (if c = CHR ''%'' then
        (case s of
           a # b # t \<Rightarrow>
             (case (unhex a, unhex b) of
                (Some x, Some y) \<Rightarrow> map_option (Cons (char_of (16 * x + y))) (pathUnescape t)
              | _ \<Rightarrow> None)
         | _ \<Rightarrow> None)
      else map_option (Cons c) (pathUnescape s))"

definition unsafeBytes :: string where
  "unsafeBytes = [CHR ''/'', char_of (92 :: nat), CHR ''%'', CHR ''?'', CHR ''#'', nul, char_of (13 :: nat), char_of (10 :: nat)]"

definition Segment :: "string \<Rightarrow> string res" where
  "Segment s =
     (if s = '''' \<or> s = ''.'' \<or> s = ''..'' \<or> list_ex (\<lambda>c. c \<in> set unsafeBytes) s then
        Inl (failure ''unsupported_operation'' ''Invalid endpoint path component'')
      else Inr (pathEscape s))"

section \<open>Relative paths\<close>

text \<open>What \<open>ValidateRelative\<close> reads of a parsed reference.\<close>

record relURL =
  ru_Scheme :: string
  ru_Host :: string
  ru_Fragment :: string
  ru_EscapedPath :: string

definition unsafePart :: "string \<Rightarrow> bool" where
  "unsafePart part =
     (case pathUnescape part of
        None \<Rightarrow> True
      | Some txt \<Rightarrow> txt = ''.'' \<or> txt = ''..''
          \<or> list_ex (\<lambda>c. c \<in> {CHR ''/'', char_of (92 :: nat), nul}) txt)"

definition ValidateRelative :: "(string \<Rightarrow> relURL option) \<Rightarrow> string \<Rightarrow> unit res" where
  "ValidateRelative parse path =
     (case parse path of
        None \<Rightarrow> Inl (failure ''unsupported_operation'' ''Endpoint must be a relative allowlisted path'')
      | Some u \<Rightarrow>
          if ru_Scheme u \<noteq> '''' \<or> ru_Host u \<noteq> '''' \<or> ru_Fragment u \<noteq> '''' \<or> hasPrefix path ''/'' \<or> char_of (92 :: nat) \<in> set path then
            Inl (failure ''unsupported_operation'' ''Endpoint must be a relative allowlisted path'')
          else if list_ex unsafePart (splitByte (CHR ''/'') (ru_EscapedPath u)) then
            Inl (failure ''unsupported_operation'' ''Unsafe endpoint path'')
          else Inr ())"

section \<open>Routes and bindings\<close>

record NativeEndpoint =
  ep_Method :: string
  ep_Path :: string
  ep_Action :: string
  ep_Operation :: Operation
  ep_ModelLocation :: string
  ep_Framing :: string
  ep_Stateful :: bool
  ep_ResourceIDField :: string

record ('v, 'r) Route =
  ro_Endpoint :: NativeEndpoint
  ro_Protocol :: string
  ro_Variant :: string
  ro_Response :: 'r
  ro_AllowedRequestHeaders :: "string list"
  ro_ValidateRequestHeaders :: 'v
  ro_DefaultBody :: string

text \<open>The fields of a binding that \<open>BindEndpoint\<close> sets; the others keep their zero value.\<close>

record ('v, 'r) Binding =
  bd_Codec :: "string \<times> string \<times> Operation"
  bd_Endpoint :: string
  bd_Method :: string
  bd_ModelLocation :: string
  bd_Framing :: string
  bd_ReplaySafe :: bool
  bd_CancellationSupported :: bool
  bd_AllowedRequestHeaders :: "string list"
  bd_ValidateRequestHeaders :: 'v
  bd_DefaultBody :: string
  bd_Response :: 'r

definition malformed :: go_error where
  "malformed = failure ''unsupported_operation'' ''Malformed endpoint descriptor''"

definition templateKey :: "string \<Rightarrow> string" where
  "templateKey rest = takeWhile (\<lambda>c. c \<noteq> CHR ''}'') (tl rest)"

definition afterKey :: "string \<Rightarrow> string" where
  "afterKey rest = tl (dropWhile (\<lambda>c. c \<noteq> CHR ''}'') rest)"

partial_function (option) expandPath :: "(string \<times> string) list \<Rightarrow> string \<Rightarrow> string res option" where
  "expandPath params path =
     (if CHR ''{'' \<notin> set path then Some (Inr path)
      else let start = takeWhile (\<lambda>c. c \<noteq> CHR ''{'') path; rest = dropWhile (\<lambda>c. c \<noteq> CHR ''{'') path in
        if CHR ''}'' \<notin> set rest then Some (Inl malformed)
        else case Segment (goIndex params (templateKey rest)) of
          Inl e \<Rightarrow> Some (Inl e)
        | Inr v \<Rightarrow> expandPath params (start @ v @ afterKey rest))"

text \<open>The parameters of a call: the resource identifier also stands for the endpoint's own field.\<close>

definition resourceParams :: "NativeEndpoint \<Rightarrow> (string \<times> string) list \<Rightarrow> (string \<times> string) list" where
  "resourceParams e params =
     (if ep_ResourceIDField e \<noteq> '''' \<and> goIndex params (ep_ResourceIDField e) = '''' then
        AList.update (ep_ResourceIDField e) (goIndex params ''resource_id'') params
      else params)"

definition hasSuffix :: "string \<Rightarrow> string \<Rightarrow> bool" where
  "hasSuffix s p = (length p \<le> length s \<and> drop (length s - length p) s = p)"

definition routeBinding :: "('v, 'r) Route \<Rightarrow> NativeEndpoint \<Rightarrow> string \<Rightarrow> ('v, 'r) Binding" where
  "routeBinding route e path =
     \<lparr>bd_Codec = (ro_Protocol route, ro_Variant route, ep_Operation e), bd_Endpoint = path, bd_Method = ep_Method e,
      bd_ModelLocation = ep_ModelLocation e, bd_Framing = ep_Framing e,
      bd_ReplaySafe = (ep_Method e = ''GET'' \<or> ep_Method e = ''HEAD''),
      bd_CancellationSupported = (ep_Action e = ''cancel'' \<or> hasSuffix (ep_Action e) ''.cancel''),
      bd_AllowedRequestHeaders = ro_AllowedRequestHeaders route, bd_ValidateRequestHeaders = ro_ValidateRequestHeaders route,
      bd_DefaultBody = ro_DefaultBody route, bd_Response = ro_Response route\<rparr>"

definition BindEndpoint :: "(string \<Rightarrow> relURL option) \<Rightarrow> go_error option \<Rightarrow> ('v, 'r) Route list \<Rightarrow> NativeEndpoint
    \<Rightarrow> (string \<times> string) list \<Rightarrow> ('v, 'r) Binding res option" where
  "BindEndpoint parse ctxErr routes e params =
     (case ctxErr of
        Some err \<Rightarrow> Some (Inl err)
      | None \<Rightarrow>
          (case find (\<lambda>r. ro_Endpoint r = e) routes of
             None \<Rightarrow> Some (Inl (failure ''unsupported_operation'' ''Endpoint is not in connector inventory''))
           | Some route \<Rightarrow>
               map_option (\<lambda>result. bindR result (\<lambda>path. bindR (ValidateRelative parse path) (\<lambda>_. Inr (routeBinding route e path))))
                 (expandPath (resourceParams e params) (ep_Path e))))"

definition bindsTo :: "Operation \<Rightarrow> string \<Rightarrow> ('v, 'r) Route \<Rightarrow> bool" where
  "bindsTo op action r =
     (let e = ro_Endpoint r in
      ep_Operation e = op \<and> (action = '''' \<or> ep_Action e = action) \<and> \<not> (action = '''' \<and> ep_Stateful e \<and> ep_ModelLocation e = ''none''))"

definition bindRoute :: "(string \<Rightarrow> relURL option) \<Rightarrow> go_error option \<Rightarrow> ('v, 'r) Route list \<Rightarrow> Operation \<Rightarrow> string
    \<Rightarrow> (string \<times> string) list \<Rightarrow> ('v, 'r) Binding res option" where
  "bindRoute parse ctxErr routes op action params =
     (case find (bindsTo op action) routes of
        None \<Rightarrow> Some (Inl (failure ''unsupported_operation'' ''Endpoint action is not supported''))
      | Some r \<Rightarrow> BindEndpoint parse ctxErr routes (ro_Endpoint r) params)"

definition Bind :: "(string \<Rightarrow> relURL option) \<Rightarrow> go_error option \<Rightarrow> ('v, 'r) Route list \<Rightarrow> target \<Rightarrow> Operation
    \<Rightarrow> ('v, 'r) Binding res option" where
  "Bind parse ctxErr routes t op =
     (case t of
        ModelTarget c m alias \<Rightarrow>
          if op \<notin> set (md_Operations m) then
            Some (Inl (failure ''unsupported_operation'' ''Model manifest does not approve this operation''))
          else bindRoute parse ctxErr routes op '''' [(''model'', md_ID m)]
      | ConnectionTarget c action rid \<Rightarrow> bindRoute parse ctxErr routes op action [(''id'', rid), (''resource_id'', rid)]
      | _ \<Rightarrow> Some (Inl (failure ''unsupported_operation'' ''Unknown target'')))"

lemma afterKey_shorter:
  assumes "CHR ''{'' \<in> set path"
  shows "length (afterKey (dropWhile (\<lambda>c. c \<noteq> CHR ''{'') path)) < length path"
proof -
  let ?rest = "dropWhile (\<lambda>c. c \<noteq> CHR ''{'') path"
  have "length (dropWhile (\<lambda>c. c \<noteq> CHR ''}'') ?rest) \<le> length path"
    by (meson le_trans length_dropWhile_le)
  then show ?thesis using assms by (cases path) (auto simp: afterKey_def)
qed

section \<open>The template in one pass\<close>

text \<open>What the loop should compute: every placeholder replaced once, from left to right.\<close>

function fillTemplate :: "(string \<times> string) list \<Rightarrow> string \<Rightarrow> string res" where
  "fillTemplate params path =
     (if CHR ''{'' \<notin> set path then Inr path
      else let start = takeWhile (\<lambda>c. c \<noteq> CHR ''{'') path; rest = dropWhile (\<lambda>c. c \<noteq> CHR ''{'') path in
        if CHR ''}'' \<notin> set rest then Inl malformed
        else bindR (Segment (goIndex params (templateKey rest))) (\<lambda>v.
          bindR (fillTemplate params (afterKey rest)) (\<lambda>t. Inr (start @ v @ t))))"
  by auto
termination
  by (relation "measure (\<lambda>(params, path). length path)") (auto intro: afterKey_shorter)

declare fillTemplate.simps [simp del]

lemma hex_plain:
  assumes "n < 16"
  shows "upperHex n \<noteq> CHR ''{''" "upperHex n \<noteq> CHR ''/''"
proof -
  have "byteOf (upperHex n) = (if n < 10 then 48 + n else 55 + n)" using assms by (simp add: upperHex_def)
  moreover have "byteOf (CHR ''{'') = 123" "byteOf (CHR ''/'') = 47" by (simp_all add: byteOf_def)
  ultimately show "upperHex n \<noteq> CHR ''{''" "upperHex n \<noteq> CHR ''/''" using assms by (auto split: if_splits)
qed

lemma not_unreserved: "\<not> unreservedByte (CHR ''{'')" "\<not> unreservedByte (CHR ''/'')"
  by (simp_all add: unreservedByte_def inByte_def byteOf_def)

lemma byte_nibbles: "byteOf c div 16 < 16" "byteOf c mod 16 < 16"
  using byteOf_less [of c] by linarith+

lemma pathEscape_plain: "CHR ''{'' \<notin> set (pathEscape s)" "CHR ''/'' \<notin> set (pathEscape s)"
  unfolding pathEscape_def
  by (induction s) (auto simp: not_unreserved hex_plain [OF byte_nibbles(1), symmetric] hex_plain [OF byte_nibbles(2), symmetric])

lemma Segment_plain: "Segment s = Inr v \<Longrightarrow> CHR ''{'' \<notin> set v \<and> CHR ''/'' \<notin> set v"
  using pathEscape_plain [of s] by (simp add: Segment_def split: if_splits)

lemma expandPath_fill:
  "CHR ''{'' \<notin> set acc \<Longrightarrow> expandPath params (acc @ path) = Some (bindR (fillTemplate params path) (\<lambda>t. Inr (acc @ t)))"
proof (induction params path arbitrary: acc rule: fillTemplate.induct)
  case (1 params path)
  let ?start = "takeWhile (\<lambda>c. c \<noteq> CHR ''{'') path" and ?rest = "dropWhile (\<lambda>c. c \<noteq> CHR ''{'') path"
  have all: "\<forall>x \<in> set acc. x \<noteq> CHR ''{''" using "1.prems" by metis
  then have split: "takeWhile (\<lambda>c. c \<noteq> CHR ''{'') (acc @ path) = acc @ ?start" "dropWhile (\<lambda>c. c \<noteq> CHR ''{'') (acc @ path) = ?rest"
    by (simp_all add: takeWhile_append dropWhile_append)
  show ?case
  proof (cases "CHR ''{'' \<in> set path \<and> CHR ''}'' \<in> set ?rest")
    case False
    with "1.prems" split show ?thesis
      by (auto simp: expandPath.simps [of params "acc @ path"] fillTemplate.simps [of params path] Let_def)
  next
    case True
    show ?thesis
    proof (cases "Segment (goIndex params (templateKey ?rest))")
      case (Inl err)
      with True split show ?thesis by (simp add: expandPath.simps [of params "acc @ path"] fillTemplate.simps [of params path] Let_def)
    next
      case (Inr v)
      have "CHR ''{'' \<notin> set (acc @ ?start @ v)" using "1.prems" Segment_plain [OF Inr] by (auto dest: set_takeWhileD)
      with "1.IH" [OF _ refl refl, of "acc @ ?start @ v"] True
      have "expandPath params ((acc @ ?start @ v) @ afterKey ?rest) =
          Some (bindR (fillTemplate params (afterKey ?rest)) (\<lambda>t. Inr ((acc @ ?start @ v) @ t)))" by blast
      with True Inr split show ?thesis
        by (cases "fillTemplate params (afterKey ?rest)")
          (simp_all add: expandPath.simps [of params "acc @ path"] fillTemplate.simps [of params path] Let_def)
    qed
  qed
qed

lemma count_cut: "count_list path x = count_list (takeWhile P path) x + count_list (dropWhile P path) x"
  by (metis count_list_append takeWhile_dropWhile_id)

lemma count_afterKey: "count_list (afterKey rest) x \<le> count_list rest x"
proof -
  have "count_list (tl ys) x \<le> count_list ys x" for ys by (cases ys) simp_all
  then show ?thesis using count_cut [of rest x "\<lambda>c. c \<noteq> CHR ''}''"] unfolding afterKey_def by (metis le_add2 le_trans)
qed

lemma fillTemplate_slashes:
  "fillTemplate params path = Inr p \<Longrightarrow> count_list p (CHR ''/'') \<le> count_list path (CHR ''/'')"
proof (induction params path arbitrary: p rule: fillTemplate.induct)
  case (1 params path)
  let ?start = "takeWhile (\<lambda>c. c \<noteq> CHR ''{'') path" and ?rest = "dropWhile (\<lambda>c. c \<noteq> CHR ''{'') path"
  show ?case
  proof (cases "CHR ''{'' \<in> set path")
    case False
    with "1.prems" show ?thesis by (simp add: fillTemplate.simps [of params path])
  next
    case True
    with "1.prems" obtain v t where v: "CHR ''}'' \<in> set ?rest" "Segment (goIndex params (templateKey ?rest)) = Inr v"
      "fillTemplate params (afterKey ?rest) = Inr t" "p = ?start @ v @ t"
      by (auto simp: fillTemplate.simps [of params path] Let_def bindR_Inr split: if_splits)
    have "count_list t (CHR ''/'') \<le> count_list (afterKey ?rest) (CHR ''/'')"
      using "1.IH" [OF _ refl refl _ v(3)] True v(1) by blast
    moreover have "count_list v (CHR ''/'') = 0" using Segment_plain [OF v(2)] by (simp add: count_list_0_iff)
    ultimately show ?thesis
      using count_afterKey [of ?rest "CHR ''/''"] count_cut [of path "CHR ''/''" "\<lambda>c. c \<noteq> CHR ''{''"] by (simp add: v(4))
  qed
qed

text \<open>
  C36: Binding an endpoint always returns: the loop that rewrites a path template ends for every template
  and all parameters, because an escaped parameter never contains a brace. When it succeeds the
  endpoint is in the connector's inventory, its path is the template with every placeholder replaced
  once from left to right, and no parameter has added a path separator.
\<close>

theorem binding_terminates:
  "\<exists>r. BindEndpoint parse ctxErr routes e params = Some r
     \<and> (\<forall>b. r = Inr b \<longrightarrow> (\<exists>route \<in> set routes. ro_Endpoint route = e)
          \<and> fillTemplate (resourceParams e params) (ep_Path e) = Inr (bd_Endpoint b)
          \<and> count_list (bd_Endpoint b) (CHR ''/'') \<le> count_list (ep_Path e) (CHR ''/''))"
proof -
  have run: "expandPath ps path = Some (fillTemplate ps path)" for ps path
    using expandPath_fill [of "[]" ps path] by (cases "fillTemplate ps path") simp_all
  have "\<exists>route \<in> set routes. ro_Endpoint route = e" if "find (\<lambda>r. ro_Endpoint r = e) routes \<noteq> None"
    using that by (auto simp: find_Some_iff)
  then show ?thesis
    using fillTemplate_slashes [of "resourceParams e params" "ep_Path e"]
    by (auto simp: BindEndpoint_def run bindR_Inr routeBinding_def split: option.splits)
qed

definition fileRoute :: "(unit, unit) Route" where
  "fileRoute = \<lparr>ro_Endpoint = \<lparr>ep_Method = ''GET'', ep_Path = ''files/{id}/content'', ep_Action = ''content'', ep_Operation = ''native'',
      ep_ModelLocation = ''none'', ep_Framing = ''json'', ep_Stateful = True, ep_ResourceIDField = ''''\<rparr>,
     ro_Protocol = ''openai'', ro_Variant = '''', ro_Response = (), ro_AllowedRequestHeaders = [], ro_ValidateRequestHeaders = (),
     ro_DefaultBody = ''''\<rparr>"

definition plainURL :: "string \<Rightarrow> relURL option" where
  "plainURL path = Some \<lparr>ru_Scheme = '''', ru_Host = '''', ru_Fragment = '''', ru_EscapedPath = path\<rparr>"

lemma fileRoute_segment: "Segment ''a b'' = Inr ''a%20b''"
  by (simp add: Segment_def unsafeBytes_def nul_def pathEscape_def unreservedByte_def inByte_def byteOf_def upperHex_def char_of_def bit_0)

lemma fileRoute_template:
  "ep_Path (ro_Endpoint fileRoute) = ''files/{id}/content''" "resourceParams (ro_Endpoint fileRoute) ps = ps"
  by (simp_all add: fileRoute_def resourceParams_def)

lemma fileRoute_fill: "fillTemplate [(''id'', ''a b'')] ''files/{id}/content'' = Inr ''files/a%20b/content''"
proof -
  have key: "templateKey ''{id}/content'' = ''id''" "afterKey ''{id}/content'' = ''/content''" by (simp_all add: templateKey_def afterKey_def)
  have "fillTemplate [(''id'', ''a b'')] ''/content'' = Inr ''/content''" by (simp add: fillTemplate.simps [of _ "''/content''"])
  with key fileRoute_segment show ?thesis
    by (simp add: fillTemplate.simps [of _ "''files/{id}/content''"] Let_def goIndex_def)
qed

theorem binding_terminates_witness:
  "\<exists>b. BindEndpoint plainURL None [fileRoute] (ro_Endpoint fileRoute) [(''id'', ''a b'')] = Some (Inr b)
     \<and> bd_Endpoint b = ''files/a%20b/content'' \<and> count_list (bd_Endpoint b) (CHR ''/'') \<le> 2"
proof -
  have split: "splitByte (CHR ''/'') ''files/a%20b/content'' = [''files'', ''a%20b'', ''content'']" by simp
  have "ValidateRelative plainURL ''files/a%20b/content'' = Inr ()"
    by (simp add: ValidateRelative_def plainURL_def split hasPrefix_def unsafePart_def unhex_def inByte_def byteOf_def
        char_of_def bit_0 nul_def del: splitByte.simps)
  moreover have "expandPath [(''id'', ''a b'')] ''files/{id}/content'' = Some (Inr ''files/a%20b/content'')"
    using expandPath_fill [of "[]" "[(''id'', ''a b'')]" "''files/{id}/content''"] by (simp add: fileRoute_fill)
  ultimately have "BindEndpoint plainURL None [fileRoute] (ro_Endpoint fileRoute) [(''id'', ''a b'')] =
      Some (Inr (routeBinding fileRoute (ro_Endpoint fileRoute) ''files/a%20b/content''))"
    by (simp add: BindEndpoint_def fileRoute_template)
  with binding_terminates [of plainURL None "[fileRoute]" "ro_Endpoint fileRoute" "[(''id'', ''a b'')]"]
  show ?thesis by (auto simp: fileRoute_template fileRoute_fill)
qed

end
