(* ===== verification/Plan_Types.thy ===== *)
theory Plan_Types
  imports Admission Catalog
begin

text \<open>
  The plans that \<open>PlanAttempt\<close> (\<open>src/internal/store/policy_plan.go\<close>) makes: the bounds they carry are 64-bit
  numbers and the cost they reserve is not negative, which is what admission and the accounting
  invariant rely on, and the reserved cost covers what a call within the planned bounds is charged.
\<close>

declare split_paired_All [simp del] split_paired_Ex [simp del]

section \<open>Bounds of a plan\<close>

text \<open>A snapshot whose model limits are 64-bit numbers and whose unit prices are not negative.\<close>

definition modelTyped :: "Model \<Rightarrow> bool" where
  "modelTyped m \<longleftrightarrow> i64opt (md_ContextLimit m) \<and> i64opt (md_OutputLimit m)
     \<and> (case md_Price m of None \<Rightarrow> True | Some pr \<Rightarrow> (case ps_MaximumUnitCost pr of None \<Rightarrow> True | Some c \<Rightarrow> 0 \<le> c))"

definition snapshotTyped :: "RuntimeSnapshot \<Rightarrow> bool" where
  "snapshotTyped snap = list_all (\<lambda>(k, m). modelTyped m) (sn_Models snap)"

lemma i64Range_i64: "i64Range x \<longleftrightarrow> i64 x"
  by (auto simp: i64Range_def i64_def)

lemma boundMeta_range:
  assumes "boundMeta body = Some (a, b)"
  shows "i64opt a" "i64opt b"
proof -
  have "i64 x" if "jfieldInt name None m = Some (Some x)" for name x m
    using jfieldInt_range [OF that] by (simp add: i64Range_i64)
  then show "i64opt a" "i64opt b" using assms by (auto simp: boundMeta_def i64opt_def split: option.splits sum.splits json.splits)
qed

lemma boundCost_nonneg: "boundCost input outp price rates = Inr (Some c) \<Longrightarrow> 0 \<le> c"
proof -
  have "0 \<le> c" if "EstimateBound i u (Some price) = Inr c" for i u
  proof -
    from EstimateBound_Inr [OF that] obtain R where "0 \<le> i" "0 \<le> u" "0 \<le> R" "0 \<le> orZero (ps_OutputPerMillion price)"
      "c = ceilDiv (i * R + u * orZero (ps_OutputPerMillion price)) 1000000" by blast
    moreover have "0 \<le> i * R + u * orZero (ps_OutputPerMillion price)" using calculation by simp
    then have "0 \<le> (i * R + u * orZero (ps_OutputPerMillion price) + 999999) div 1000000" by (intro pos_imp_zdiv_nonneg_iff [THEN iffD2]) auto
    ultimately show ?thesis by (simp add: ceilDiv_def add.commute)
  qed
  then show "boundCost input outp price rates = Inr (Some c) \<Longrightarrow> 0 \<le> c"
    by (auto simp: boundCost_def split: option.splits if_splits sum.splits)
qed

lemma outputBound_range: "i64opt limit \<Longrightarrow> i64opt (fst meta) \<Longrightarrow> i64opt (snd meta) \<Longrightarrow> i64opt (outputBound limit meta)"
  by (auto simp: outputBound_def i64opt_def Let_def split: option.splits)

lemma boundModel_typed:
  assumes "boundModel out m body = Inr out'" "modelTyped m" "i64opt (ap_InputBound out)" "i64opt (ap_OutputBound out)" "ap_MaximumCost out = None"
  shows "planTyped out' \<and> ap_TenantID out' = ap_TenantID out \<and> ap_KeyID out' = ap_KeyID out
     \<and> ap_KeyRevision out' = ap_KeyRevision out \<and> ap_ConfigRevision out' = ap_ConfigRevision out \<and> ap_Allowances out' = ap_Allowances out"
proof -
  obtain meta where meta: "boundMeta body = Some meta" using assms(1) by (auto simp: boundModel_def split: option.splits)
  have "i64opt (outputBound (md_OutputLimit m) meta)"
    using boundMeta_range [of body "fst meta" "snd meta"] meta assms(2) by (intro outputBound_range) (auto simp: modelTyped_def)
  then have bounds: "i64opt (case md_ContextLimit m of None \<Rightarrow> ap_InputBound out | Some x \<Rightarrow> Some x)"
    "i64opt (case outputBound (md_OutputLimit m) meta of None \<Rightarrow> ap_OutputBound out | Some x \<Rightarrow> Some x)"
    using assms(2-4) by (auto simp: modelTyped_def i64opt_def split: option.splits)
  show ?thesis
  proof (cases "md_Price m")
    case None
    with assms meta bounds show ?thesis by (auto simp: boundModel_def Let_def planTyped_def split: if_splits)
  next
    case (Some price)
    let ?rates = "cachePricingAvailable (Some price) (cachePricingRequired (decodedBody body))"
    from assms(1) meta Some obtain cost where
      cost: "boundCost (md_ContextLimit m) (outputBound (md_OutputLimit m) meta) price ?rates = Inr cost"
      by (auto simp: boundModel_def Let_def bindR_Inr split: if_splits)
    have "case cost of None \<Rightarrow> True | Some c \<Rightarrow> 0 \<le> c" using boundCost_nonneg cost by (cases cost) auto
    with assms meta Some cost bounds show ?thesis
      by (auto simp: boundModel_def Let_def planTyped_def modelTyped_def split: if_splits option.splits)
  qed
qed

lemma planTarget_typed:
  assumes "planTarget p snap tgt op body out = Inr (out', x)" "snapshotTyped snap"
    and "i64opt (ap_InputBound out)" "i64opt (ap_OutputBound out)" "ap_MaximumCost out = None"
  shows "planTyped out' \<and> ap_TenantID out' = ap_TenantID out \<and> ap_KeyID out' = ap_KeyID out
     \<and> ap_KeyRevision out' = ap_KeyRevision out \<and> ap_ConfigRevision out' = ap_ConfigRevision out \<and> ap_Allowances out' = ap_Allowances out"
proof (cases tgt)
  case (ModelTarget c tm al)
  then obtain sm where sm: "map_of (sn_Models snap) (md_CatalogID tm) = Some sm"
    and bound: "boundModel (out\<lparr>ap_Alias := al\<rparr>) sm body = Inr out'"
    using assms(1) by (auto simp: planTarget_def Let_def bindR_Inr split: if_splits option.splits)
  from sm assms(2) have "modelTyped sm" by (auto simp: snapshotTyped_def list_all_iff dest!: map_of_SomeD)
  from boundModel_typed [OF bound this] assms(3-5) show ?thesis by simp
qed (use assms in \<open>auto simp: planTarget_def planTyped_def split: if_splits\<close>)

text \<open>
  From a snapshot whose model limits are 64-bit numbers every planned attempt is well typed, whatever the request
  body says, and bound to the caller and to the configuration revision.
\<close>

lemma planned_attempt_typed:
  assumes "PlanAttempt p snap tgt op body inp = Inr out" "snapshotTyped snap" "i64opt (ap_InputBound inp)" "i64opt (ap_OutputBound inp)"
  shows "planTyped out \<and> ap_TenantID out = pr_TenantID p \<and> ap_KeyID out = pr_KeyID p \<and> ap_KeyRevision out = pr_KeyRevision p
     \<and> ap_ConfigRevision out = sn_Revision snap \<and> ap_Allowances out = []"
proof -
  let ?base = "inp\<lparr>ap_TenantID := pr_TenantID p, ap_KeyID := pr_KeyID p, ap_KeyRevision := pr_KeyRevision p,
      ap_ConfigRevision := sn_Revision snap, ap_Allowances := [], ap_MaximumCost := None, ap_PriceVersion := '''', ap_Operation := op\<rparr>"
  from assms(1) obtain out1 al c m a where t: "planTarget p snap tgt op body ?base = Inr (out1, al, c, m, a)"
    and out: "out = out1\<lparr>ap_ConnectionID := c, ap_ModelID := m, ap_AccountID := a\<rparr>"
    by (auto simp: PlanAttempt_def bindR_Inr split: if_splits)
  from planTarget_typed [OF t assms(2)] assms(3,4) show ?thesis by (simp add: out planTyped_def)
qed

lemma boundModel_cost:
  assumes "boundModel q m body = Inr out" "ap_MaximumCost q = None" "md_Price m = Some price" "ps_UnitOperation price \<noteq> ap_Operation q"
    and "ap_MaximumCost out = Some cost"
  obtains meta inb outb where "boundMeta body = Some meta" "md_ContextLimit m = Some inb" "ap_InputBound out = Some inb"
    "outputBound (md_OutputLimit m) meta = Some outb" "ap_OutputBound out = Some outb" "ap_PriceVersion out = ps_Version price"
    "EstimateBound inb outb (Some price) = Inr cost"
proof -
  from assms(1) obtain meta where meta: "boundMeta body = Some meta" by (auto simp: boundModel_def split: option.splits)
  let ?rates = "cachePricingAvailable (Some price) (cachePricingRequired (decodedBody body))"
  from assms meta have bc: "boundCost (md_ContextLimit m) (outputBound (md_OutputLimit m) meta) price ?rates = Inr (Some cost)"
    by (auto simp: boundModel_def Let_def bindR_Inr split: if_splits option.splits)
  then obtain inb outb where b: "md_ContextLimit m = Some inb" "outputBound (md_OutputLimit m) meta = Some outb"
    "EstimateBound inb outb (Some price) = Inr cost"
    by (auto simp: boundCost_def split: option.splits if_splits sum.splits)
  with assms(1,3) meta bc have "ap_InputBound out = Some inb \<and> ap_OutputBound out = Some outb \<and> ap_PriceVersion out = ps_Version price"
    by (auto simp: boundModel_def Let_def bindR_Inr split: if_splits)
  with that meta b show thesis by blast
qed

lemma PlanAttempt_model:
  assumes "PlanAttempt p snap (ModelTarget c tm al) op body inp = Inr out" "map_of (sn_Models snap) (md_CatalogID tm) = Some m"
  obtains q out1 where "boundModel q m body = Inr out1" "ap_MaximumCost q = None" "ap_Operation q = op" "ap_InputBound out = ap_InputBound out1"
    "ap_OutputBound out = ap_OutputBound out1" "ap_MaximumCost out = ap_MaximumCost out1" "ap_PriceVersion out = ap_PriceVersion out1"
proof -
  let ?q = "inp\<lparr>ap_TenantID := pr_TenantID p, ap_KeyID := pr_KeyID p, ap_KeyRevision := pr_KeyRevision p,
      ap_ConfigRevision := sn_Revision snap, ap_Allowances := [], ap_MaximumCost := None, ap_PriceVersion := '''', ap_Operation := op\<rparr>"
  from assms(1) obtain out1 x c' m' a where t: "planTarget p snap (ModelTarget c tm al) op body ?q = Inr (out1, x, c', m', a)"
    and out: "out = out1\<lparr>ap_ConnectionID := c', ap_ModelID := m', ap_AccountID := a\<rparr>"
    by (auto simp: PlanAttempt_def bindR_Inr split: if_splits)
  from t assms(2) have "boundModel (?q\<lparr>ap_Alias := al\<rparr>) m body = Inr out1"
    by (auto simp: planTarget_def Let_def bindR_Inr split: if_splits)
  with that out show thesis by fastforce
qed

section \<open>Properties\<close>

text \<open>
  C37: The cost that planning reserves covers the call. When \<open>PlanAttempt\<close> puts a maximum cost on an attempt
  for a priced model whose price is not per unit of the operation, the plan's input bound is the context limit of the model and its output
  bound is the output limit, lowered to what the request asks for (\<open>max_output_tokens\<close> before
  \<open>max_tokens\<close>); both are nonnegative, and every usage within the two bounds that can be priced costs at most the reserved maximum.
\<close>

theorem planned_cost_covers:
  assumes "PlanAttempt p snap (ModelTarget c tm al) op body inp = Inr out"
    and "map_of (sn_Models snap) (md_CatalogID tm) = Some m" "md_Price m = Some price" "ps_UnitOperation price \<noteq> op"
    and "ap_MaximumCost out = Some cost"
  shows "\<exists>maxTokens maxOutputTokens limit inb outb.
      boundMeta body = Some (maxTokens, maxOutputTokens) \<and> md_OutputLimit m = Some limit \<and> md_ContextLimit m = Some inb
    \<and> ap_InputBound out = Some inb \<and> ap_OutputBound out = Some outb \<and> ap_PriceVersion out = ps_Version price
    \<and> 0 \<le> inb \<and> 0 \<le> outb
    \<and> outb = (case (maxOutputTokens, maxTokens) of (Some n, _) \<Rightarrow> min n limit | (None, Some n) \<Rightarrow> min n limit | (None, None) \<Rightarrow> limit)
    \<and> (\<forall>u i n charge. usageTyped u \<longrightarrow> us_Input u = Some i \<longrightarrow> i \<le> inb \<longrightarrow> us_Output u = Some n \<longrightarrow> n \<le> outb
         \<longrightarrow> EstimateUsageCost (Some u) (Some price) = Inr charge \<longrightarrow> charge \<le> cost)"
proof -
  obtain q out1 where q: "boundModel q m body = Inr out1" "ap_MaximumCost q = None" "ap_Operation q = op"
    and out: "ap_InputBound out = ap_InputBound out1" "ap_OutputBound out = ap_OutputBound out1"
      "ap_MaximumCost out = ap_MaximumCost out1" "ap_PriceVersion out = ap_PriceVersion out1"
    by (rule PlanAttempt_model [OF assms(1,2)])
  have "ps_UnitOperation price \<noteq> ap_Operation q" "ap_MaximumCost out1 = Some cost" using assms(4,5) q(3) out(3) by simp_all
  from boundModel_cost [OF q(1,2) assms(3) this] obtain meta inb outb where b: "boundMeta body = Some meta" "md_ContextLimit m = Some inb"
    "ap_InputBound out = Some inb" "outputBound (md_OutputLimit m) meta = Some outb" "ap_OutputBound out = Some outb"
    "ap_PriceVersion out = ps_Version price" and bound: "EstimateBound inb outb (Some price) = Inr cost"
    unfolding out by blast
  obtain a d limit where meta: "meta = (a, d)" "md_OutputLimit m = Some limit"
    using b(4) by (cases meta) (auto simp: outputBound_def split: option.splits)
  have "outb = (case (d, a) of (Some n, _) \<Rightarrow> min n limit | (None, Some n) \<Rightarrow> min n limit | (None, None) \<Rightarrow> limit)"
    using b(4) by (auto simp: meta outputBound_def Let_def split: option.splits if_splits)
  moreover have "0 \<le> inb" "0 \<le> outb" using EstimateBound_Inr [OF bound] by blast+
  ultimately show ?thesis using b meta usage_within_bound [OF bound] by (intro exI conjI) blast+
qed

section \<open>Examples\<close>

definition planPrincipal :: Principal where
  "planPrincipal = zeroPrincipal\<lparr>pr_TenantID := ''t'', pr_KeyID := ''k1'', pr_KeyRevision := 1, pr_Role := ''admin''\<rparr>"

definition planInput :: AttemptPlan where
  "planInput = samplePlan\<lparr>ap_TenantID := '''', ap_KeyID := '''', ap_ConnectionID := '''', ap_AccountID := ''''\<rparr>"

text \<open>The first model of the sample catalog, with a price.\<close>

definition pricedModel :: Model where
  "pricedModel = (sampleModel ''m1'' ''c1'')\<lparr>md_Price := Some samplePrice\<rparr>"

definition pricedSnapshot :: RuntimeSnapshot where
  "pricedSnapshot = (sampleSnapshot ''openai'')\<lparr>sn_Models := [(''m1'', pricedModel)]\<rparr>"

lemma plan_sample:
  "\<exists>out. PlanAttempt planPrincipal pricedSnapshot (ModelTarget (sampleConnection ''c1'') pricedModel '''') ''chat'' None planInput = Inr out
     \<and> ap_MaximumCost out = Some 7500000"
proof -
  have ref: "validRef ''chat''" "validRef ''r1''" "validRef ''at1''" "validRef ''c1''" "validRef ''m1''" "validRef ''gpt''"
    by (simp_all add: validRef_def str_eval)
  have ident: "planIdentity planPrincipal planInput = Inr ()"
    using ref by (simp add: planIdentity_def planPrincipal_def planInput_def samplePlan_def zeroPrincipal_def isZeroTime_def zeroTime_def second_def)
  have cost: "EstimateBound 1000 100 (Some samplePrice) = Inr 7500000" by (simp add: sample_simps)
  have "\<exists>b. boundModel q pricedModel None = Inr b \<and> ap_MaximumCost b = Some 7500000" for q
    by (simp add: boundModel_def boundMeta_def outputBound_def boundCost_def pricedModel_def sampleModel_def cost Let_def
        cachePricingAvailable_def cachePricingRequired_def decodedBody_def noRequirements_def)
  note bounded = this
  have m: "md_CatalogID pricedModel = ''m1''" "md_ID pricedModel = ''gpt''" "md_ConnectionID pricedModel = ''c1''" "md_Operations pricedModel = [''chat'']"
    by (simp_all add: pricedModel_def sampleModel_def)
  have "\<exists>b. planTarget planPrincipal pricedSnapshot (ModelTarget (sampleConnection ''c1'') pricedModel '''') ''chat'' None q
      = Inr (b, '''', ''c1'', ''m1'', ''acct'') \<and> ap_MaximumCost b = Some 7500000" for q
    using bounded [of "q\<lparr>ap_Alias := ''''\<rparr>"] ref
    by (auto simp: planTarget_def pricedSnapshot_def m sampleSnapshot_def sampleConnection_def planPrincipal_def zeroPrincipal_def
        staleConnection_def aliasMatches_def hasOperation_def)
  note run = this
  have "\<not> sn_Revision pricedSnapshot < 0" "permitted planPrincipal [] ''c1'' ''chat''"
    "ap_ConnectionID planInput = []" "ap_ModelID planInput = []" "ap_AccountID planInput = []"
    by (simp_all add: pricedSnapshot_def sampleSnapshot_def permitted_def planPrincipal_def planInput_def samplePlan_def)
  moreover obtain b where "planTarget planPrincipal pricedSnapshot (ModelTarget (sampleConnection ''c1'') pricedModel []) ''chat'' None
      (planInput\<lparr>ap_TenantID := pr_TenantID planPrincipal, ap_KeyID := pr_KeyID planPrincipal, ap_KeyRevision := pr_KeyRevision planPrincipal,
         ap_ConfigRevision := sn_Revision pricedSnapshot, ap_Allowances := [], ap_MaximumCost := None, ap_PriceVersion := [],
         ap_Operation := ''chat''\<rparr>) = Inr (b, [], ''c1'', ''m1'', ''acct'')" "ap_MaximumCost b = Some 7500000" using run by blast
  ultimately show ?thesis using ident ref(1) by (simp add: PlanAttempt_def)
qed

theorem planned_cost_covers_witness:
  "\<exists>out charge. PlanAttempt planPrincipal pricedSnapshot (ModelTarget (sampleConnection ''c1'') pricedModel '''') ''chat'' None planInput = Inr out
     \<and> ap_MaximumCost out = Some 7500000 \<and> ap_OutputBound out = Some 100
     \<and> EstimateUsageCost (Some (sampleUsage\<lparr>us_Output := Some 80\<rparr>)) (Some samplePrice) = Inr charge \<and> charge \<le> 7500000"
proof -
  obtain out where out: "PlanAttempt planPrincipal pricedSnapshot (ModelTarget (sampleConnection ''c1'') pricedModel '''') ''chat'' None planInput = Inr out"
    "ap_MaximumCost out = Some 7500000" using plan_sample by blast
  have m: "map_of (sn_Models pricedSnapshot) (md_CatalogID pricedModel) = Some pricedModel" "md_Price pricedModel = Some samplePrice"
    "ps_UnitOperation samplePrice \<noteq> ''chat''" "md_ContextLimit pricedModel = Some 1000" "md_OutputLimit pricedModel = Some 100"
    by (simp_all add: pricedSnapshot_def pricedModel_def sampleModel_def samplePrice_def)
  let ?u = "sampleUsage\<lparr>us_Output := Some 80\<rparr>"
  obtain charge where charge: "EstimateUsageCost (Some ?u) (Some samplePrice) = Inr charge" by (simp add: sample_simps)
  have u: "usageTyped ?u" "us_Input ?u = Some 1000" "us_Output ?u = Some 80" by (simp_all add: sample_simps)
  from planned_cost_covers [OF out(1) m(1-3) out(2)] m(4,5)
  have "ap_OutputBound out = Some 100 \<and> charge \<le> 7500000" using u charge by (auto simp: boundMeta_def)
  with out charge show ?thesis by blast
qed

end
