(* ===== verification/Fencing.thy ===== *)
theory Fencing
  imports Main
begin

text \<open>
  Fenced grants, the contract that several parts of the store keep: an operation may grant exclusive use of
  a key (a credential's refresh token, a provider job) for one generation of it, and generations
  never come back. What the contract gives is that along every run the generations granted for a
  key strictly increase, so no generation is ever granted twice.
\<close>

text \<open>A run of steps and the grants they made, in order.\<close>

inductive grant_run :: "('s \<Rightarrow> ('k \<times> int) list \<Rightarrow> 's \<Rightarrow> bool) \<Rightarrow> 's \<Rightarrow> ('k \<times> int) list \<Rightarrow> 's \<Rightarrow> bool"
  for step where
  start: "grant_run step s [] s"
| more: "grant_run step s gs s' \<Longrightarrow> step s' g s'' \<Longrightarrow> grant_run step s (gs @ g) s''"

definition grantsOf :: "'k \<Rightarrow> ('k \<times> int) list \<Rightarrow> int list" where
  "grantsOf k gs = map snd (filter (\<lambda>g. fst g = k) gs)"

lemma grantsOf_simps [simp]: "grantsOf k [] = []" "grantsOf k (gs @ hs) = grantsOf k gs @ grantsOf k hs"
  by (simp_all add: grantsOf_def)

lemma grantsOf_mem: "g \<in> set (grantsOf k gs) \<longleftrightarrow> (k, g) \<in> set gs"
  by (force simp: grantsOf_def)

lemma grantsOf_single: "distinct (map fst gs) \<Longrightarrow> length (grantsOf k gs) \<le> 1"
proof (induction gs)
  case (Cons g gs)
  have "grantsOf k gs = []" if "fst g = k"
    using Cons.prems that by (auto simp: grantsOf_def filter_empty_conv rev_image_eqI)
  with Cons show ?case by (cases "fst g = k") (auto simp: grantsOf_def)
qed simp

locale fenced =
  fixes inv :: "'s \<Rightarrow> bool" and gen :: "'s \<Rightarrow> 'k \<Rightarrow> int" and step :: "'s \<Rightarrow> ('k \<times> int) list \<Rightarrow> 's \<Rightarrow> bool"
  assumes keeps: "inv s \<Longrightarrow> step s gs s' \<Longrightarrow> inv s'"
    and grows: "inv s \<Longrightarrow> step s gs s' \<Longrightarrow> gen s k \<le> gen s' k"
    and fresh: "inv s \<Longrightarrow> step s gs s' \<Longrightarrow> (k, g) \<in> set gs \<Longrightarrow> gen s k < g \<and> g \<le> gen s' k"
    and one_each: "inv s \<Longrightarrow> step s gs s' \<Longrightarrow> distinct (map fst gs)"
begin

lemma run_inv: "grant_run step s gs s' \<Longrightarrow> inv s \<Longrightarrow> inv s'"
  by (induction rule: grant_run.induct) (blast intro: keeps)+

lemma run_fenced:
  assumes "grant_run step s gs s'" "inv s"
  shows "gen s k \<le> gen s' k \<and> sorted_wrt (<) (grantsOf k gs) \<and> (\<forall>g \<in> set (grantsOf k gs). gen s k < g \<and> g \<le> gen s' k)"
  using assms
proof (induction rule: grant_run.induct)
  case (start s)
  then show ?case by simp
next
  case (more s gs s1 g s2)
  note inv = run_inv [OF more.hyps(1) more.prems]
  have grew: "gen s1 k \<le> gen s2 k" by (rule grows [OF inv more.hyps(2)])
  have new: "\<forall>x \<in> set (grantsOf k g). gen s1 k < x \<and> x \<le> gen s2 k"
    using fresh [OF inv more.hyps(2)] by (simp add: grantsOf_mem)
  have "sorted_wrt (<) (grantsOf k g)"
    using grantsOf_single [OF one_each [OF inv more.hyps(2)], of k] by (cases "grantsOf k g") auto
  with more.IH [OF more.prems] grew new show ?case by (fastforce simp: sorted_wrt_append)
qed

lemma granted_once:
  assumes "grant_run step s gs s'" "inv s"
  shows "distinct (grantsOf k gs)"
  using run_fenced [OF assms, of k] strict_sorted_iff by blast

text \<open>A grant is outdated as soon as the same key has been granted again.\<close>

lemma later_grant:
  assumes "grant_run step s (gs @ (k, f) # gs') s'" "inv s" "(k, g) \<in> set gs'"
  shows "f < g \<and> f < gen s' k"
proof -
  have "grantsOf k (gs @ (k, f) # gs') = grantsOf k gs @ f # grantsOf k gs'" by (simp add: grantsOf_def)
  with run_fenced [OF assms(1,2), of k]
  have "sorted_wrt (<) (grantsOf k gs @ f # grantsOf k gs')" "\<forall>x \<in> set (grantsOf k gs'). x \<le> gen s' k" by simp_all
  moreover have "g \<in> set (grantsOf k gs')" using assms(3) by (simp add: grantsOf_mem)
  ultimately show ?thesis by (force simp: sorted_wrt_append)
qed

end

end
