(* ===== verification/Credential_Store.thy ===== *)
theory Credential_Store
  imports Identity Fencing
begin

text \<open>
  The durable credential records and their refresh protocol: \<open>src/internal/store/auxiliary.go\<close>, the manager of
  \<open>src/internal/credential/envelope.go\<close> and the refresher of \<open>src/internal/credential/refresh.go\<close>. The listeners that
  \<open>withCredentialRevision\<close> notifies after a commit are outside the store; an operation returns the
  revision they are told. The call to the provider is a function of the token it is given.
\<close>

section \<open>Durable records\<close>

fun asCredential :: "durableData \<Rightarrow> storedCredential option" where
  "asCredential (CredentialRec x) = Some x"
| "asCredential _ = None"

fun asOAuthLogin :: "durableData \<Rightarrow> LoginSession option" where
  "asOAuthLogin (OAuthLoginRec x) = Some x"
| "asOAuthLogin _ = None"

definition durableGet :: "(durableData \<Rightarrow> 'a option) \<Rightarrow> string \<Rightarrow> string \<Rightarrow> string \<Rightarrow> Store \<Rightarrow> (int64 \<times> 'a) res" where
  "durableGet dec tenant kind rid s =
     (case map_of (st_durable s) (tenant, kind, rid) of
        None \<Rightarrow> Inl ErrNoRows
      | Some r \<Rightarrow> (case dec (dr_data r) of None \<Rightarrow> Inl decodeError | Some x \<Rightarrow> Inr (dr_version r, x)))"

definition putTx :: "string \<Rightarrow> string \<Rightarrow> string \<Rightarrow> int64 \<Rightarrow> durableData \<Rightarrow> unit txn" where
  "putTx tenant kind rid version value s = bindR (durablePut tenant kind rid version value s) (\<lambda>s'. Inr ((), s'))"

definition withCredentialRevision :: "txEnv \<Rightarrow> unit txn \<Rightarrow> Store \<Rightarrow> int64 res \<times> Store" where
  "withCredentialRevision env mutate s =
     withTx env (\<lambda>s0.
       bindR (mutate s0) (\<lambda>(_, s1).
       bindR (bumpRevisionTx s1) (\<lambda>(_, s2).
       case st_config s2 of None \<Rightarrow> Inl ErrNoRows | Some revision \<Rightarrow> Inr (revision, s2)))) s"

section \<open>Credential records\<close>

definition credentialOf :: "string \<Rightarrow> string \<Rightarrow> Store \<Rightarrow> (int64 \<times> storedCredential) res" where
  "credentialOf tenant rid s = durableGet asCredential tenant ''credential'' rid s"

definition putCredential :: "Identity \<Rightarrow> int64 \<Rightarrow> storedCredential \<Rightarrow> unit txn" where
  "putCredential i version row = putTx (id_TenantID i) ''credential'' (id_ConnectionID i) version (CredentialRec row)"

definition LoadCredential :: "txEnv \<Rightarrow> string \<Rightarrow> string \<Rightarrow> Store \<Rightarrow> CredentialRecord res \<times> Store" where
  "LoadCredential env tenant rid s =
     withTx env (\<lambda>s0. bindR (credentialOf tenant rid s0) (\<lambda>(_, row). Inr (cs_Record row, s0))) s"

definition refreshing :: "storedCredential \<Rightarrow> bool" where
  "refreshing row = (cs_Intent row \<noteq> None \<or> cs_RefreshStatus row = ''pending'' \<or> cs_RefreshStatus row = ''reauth_required'')"

definition inactive :: "CredentialRecord \<Rightarrow> bool" where
  "inactive r = (cr_Status r \<noteq> '''' \<and> cr_Status r \<noteq> ''active'')"

definition usableTx :: "string \<Rightarrow> string \<Rightarrow> CredentialRecord txn" where
  "usableTx tenant rid s =
     bindR (credentialOf tenant rid s) (\<lambda>(_, row).
     let r = cs_Record row in
     if id_TenantID (cr_Identity r) \<noteq> tenant \<or> id_ConnectionID (cr_Identity r) \<noteq> rid then Inl ErrInvalidCredential
     else if refreshing row then Inl ErrReauthRequired
     else if inactive r then Inl ErrInvalidCredential
     else Inr (r, s))"

definition LoadUsableCredential :: "txEnv \<Rightarrow> string \<Rightarrow> string \<Rightarrow> Store \<Rightarrow> CredentialRecord res \<times> Store" where
  "LoadUsableCredential env tenant rid s = withTx env (usableTx tenant rid) s"

definition incomplete :: "Identity \<Rightarrow> bool" where
  "incomplete i = (id_TenantID i = '''' \<or> id_ConnectionID i = '''' \<or> id_CredentialID i = '''' \<or> id_AccountID i = '''' \<or> id_Provider i = '''')"

definition sameCredential :: "Identity \<Rightarrow> Identity \<Rightarrow> bool" where
  "sameCredential a b = (id_TenantID a = id_TenantID b \<and> id_ConnectionID a = id_ConnectionID b
     \<and> id_CredentialID a = id_CredentialID b \<and> id_AccountID a = id_AccountID b \<and> id_Provider a = id_Provider b)"

definition completed :: "CredentialRecord \<Rightarrow> storedCredential" where
  "completed r = \<lparr>cs_Record = r, cs_Intent = None, cs_RefreshStatus = ''completed''\<rparr>"

definition putCredentialTx :: "CredentialRecord \<Rightarrow> int64 \<Rightarrow> unit txn" where
  "putCredentialTx r expected s =
     (let i = cr_Identity r in
      case credentialOf (id_TenantID i) (id_ConnectionID i) s of
        Inl e \<Rightarrow> if e = ErrNoRows \<and> expected = 0 then putCredential i 0 (completed r) s else Inl e
      | Inr (v, old) \<Rightarrow>
          if id_Version (cr_Identity (cs_Record old)) \<noteq> expected then Inl ErrConflict
          else if \<not> sameCredential (cr_Identity (cs_Record old)) i then Inl ErrConflict
          else putCredential i v (completed r) s)"

definition PutCredential :: "txEnv \<Rightarrow> CredentialRecord \<Rightarrow> int64 \<Rightarrow> Store \<Rightarrow> int64 res \<times> Store" where
  "PutCredential env r expected s =
     (if expected < 0 \<or> expected = maxInt64 \<or> incomplete (cr_Identity r) \<or> id_Version (cr_Identity r) \<noteq> expected + 1 then
        (Inl ErrConflict, s)
      else withCredentialRevision env (putCredentialTx r expected) s)"

definition rewrapTx :: "CredentialRecord \<Rightarrow> int64 \<Rightarrow> unit txn" where
  "rewrapTx r expected s =
     (let i = cr_Identity r in
      bindR (credentialOf (id_TenantID i) (id_ConnectionID i) s) (\<lambda>(v, old).
      let next = cr_Identity (cs_Record old) in
      if refreshing old \<or> cr_Status (cs_Record old) = ''reauth_required'' then Inl ErrReauthRequired
      else if id_Version next \<noteq> expected then Inl ErrConflict
      else if next\<lparr>id_Version := id_Version next + 1\<rparr> \<noteq> i \<or> cr_Status r \<noteq> cr_Status (cs_Record old) then Inl ErrConflict
      else putCredential i v (old\<lparr>cs_Record := r\<rparr>) s))"

definition RewrapCredential :: "txEnv \<Rightarrow> CredentialRecord \<Rightarrow> int64 \<Rightarrow> Store \<Rightarrow> int64 res \<times> Store" where
  "RewrapCredential env r expected s =
     (if expected < 1 \<or> expected = maxInt64 \<or> id_Version (cr_Identity r) \<noteq> expected + 1 then (Inl ErrConflict, s)
      else withCredentialRevision env (rewrapTx r expected) s)"

section \<open>Refreshing\<close>

definition refreshableIdentity :: "Identity \<Rightarrow> bool" where
  "refreshableIdentity i = (\<not> incomplete i \<and> 1 \<le> id_Version i \<and> id_Version i \<noteq> maxInt64)"

definition beginRefreshTx :: "RefreshIntent \<Rightarrow> unit txn" where
  "beginRefreshTx i s =
     (let idn = ri_Identity i in
      bindR (credentialOf (id_TenantID idn) (id_ConnectionID idn) s) (\<lambda>(v, row).
      if cr_Identity (cs_Record row) \<noteq> idn then Inl ErrConflict
      else if refreshing row \<or> cr_Status (cs_Record row) = ''reauth_required'' \<or> cr_Status (cs_Record row) = ''revoked''
              \<or> inactive (cs_Record row) then Inl ErrReauthRequired
      else putCredential idn v (row\<lparr>cs_Intent := Some i, cs_RefreshStatus := ''pending''\<rparr>) s))"

definition BeginRefresh :: "txEnv \<Rightarrow> time \<Rightarrow> RefreshIntent \<Rightarrow> Store \<Rightarrow> unit res \<times> Store" where
  "BeginRefresh env now i s =
     (if \<not> refreshableIdentity (ri_Identity i) \<or> ri_AttemptID i = '''' \<or> ri_Fence i = '''' \<or> \<not> now < ri_LeaseUntil i then
        (Inl ErrConflict, s)
      else withTx env (beginRefreshTx i) s)"

definition refreshMatches :: "storedCredential \<Rightarrow> RefreshIntent \<Rightarrow> bool" where
  "refreshMatches row i =
     (cr_Identity (cs_Record row) = ri_Identity i \<and> cs_RefreshStatus row = ''pending''
      \<and> (case cs_Intent row of
           None \<Rightarrow> False
         | Some j \<Rightarrow> ri_Identity j = ri_Identity i \<and> ri_AttemptID j = ri_AttemptID i \<and> ri_Fence j = ri_Fence i))"

definition leaseExpired :: "time \<Rightarrow> storedCredential \<Rightarrow> bool" where
  "leaseExpired now row = (case cs_Intent row of None \<Rightarrow> True | Some j \<Rightarrow> \<not> now < ri_LeaseUntil j)"

definition commitRefreshTx :: "time \<Rightarrow> RefreshIntent \<Rightarrow> CredentialRecord \<Rightarrow> unit txn" where
  "commitRefreshTx now i r s =
     (let idn = ri_Identity i in
      bindR (credentialOf (id_TenantID idn) (id_ConnectionID idn) s) (\<lambda>(v, row).
      if \<not> refreshMatches row i \<or> inactive (cs_Record row) \<or> cr_Identity r \<noteq> idn\<lparr>id_Version := id_Version idn + 1\<rparr>
         \<or> leaseExpired now row then Inl ErrConflict
      else putCredential idn v (completed r) s))"

definition CommitRefresh :: "txEnv \<Rightarrow> time \<Rightarrow> RefreshIntent \<Rightarrow> CredentialRecord \<Rightarrow> Store \<Rightarrow> int64 res \<times> Store" where
  "CommitRefresh env now i r s =
     (if \<not> refreshableIdentity (ri_Identity i) \<or> cr_Status r \<noteq> ''active'' then (Inl ErrConflict, s)
      else withCredentialRevision env (commitRefreshTx now i r) s)"

definition failRefreshTx :: "RefreshIntent \<Rightarrow> unit txn" where
  "failRefreshTx i s =
     (let idn = ri_Identity i in
      bindR (credentialOf (id_TenantID idn) (id_ConnectionID idn) s) (\<lambda>(v, row).
      if \<not> refreshMatches row i then Inl ErrConflict
      else putCredential idn v
             (row\<lparr>cs_RefreshStatus := ''reauth_required'', cs_Record := (cs_Record row)\<lparr>cr_Status := ''reauth_required''\<rparr>\<rparr>) s))"

definition FailRefresh :: "txEnv \<Rightarrow> RefreshIntent \<Rightarrow> string \<Rightarrow> Store \<Rightarrow> int64 res \<times> Store" where
  "FailRefresh env i reason s = withCredentialRevision env (failRefreshTx i) s"

section \<open>Logins\<close>

definition SaveOAuthLogin :: "txEnv \<Rightarrow> time \<Rightarrow> LoginSession \<Rightarrow> Store \<Rightarrow> unit res \<times> Store" where
  "SaveOAuthLogin env now l s =
     (if lo_TenantID l = '''' \<or> lo_StateHash l = '''' \<or> lo_AdminSessionID l = '''' \<or> lo_Connector l = '''' \<or> \<not> now < lo_ExpiresAt l then
        (Inl ErrConflict, s)
      else withTx env (putTx (lo_TenantID l) ''credential_login'' (lo_StateHash l) 0 (OAuthLoginRec l)) s)"

definition consumeLoginTx :: "string \<Rightarrow> string \<Rightarrow> string \<Rightarrow> string \<Rightarrow> time \<Rightarrow> LoginSession txn" where
  "consumeLoginTx hash tenant session connector now s =
     bindR (durableGet asOAuthLogin tenant ''credential_login'' hash s) (\<lambda>(_, l).
     if lo_TenantID l \<noteq> tenant \<or> lo_StateHash l \<noteq> hash \<or> lo_AdminSessionID l \<noteq> session \<or> lo_Connector l \<noteq> connector
        \<or> \<not> now < lo_ExpiresAt l then Inl ErrConflict
     else Inr (l, durableDelete tenant ''credential_login'' hash s))"

definition ConsumeOAuthLogin :: "txEnv \<Rightarrow> string \<Rightarrow> string \<Rightarrow> string \<Rightarrow> string \<Rightarrow> time \<Rightarrow> Store \<Rightarrow> LoginSession res \<times> Store" where
  "ConsumeOAuthLogin env hash tenant session connector now s = withTx env (consumeLoginTx hash tenant session connector now) s"

section \<open>The manager\<close>

definition nextVersion :: "Identity \<Rightarrow> Identity" where
  "nextVersion i = i\<lparr>id_Version := wrap64 (id_Version i + 1)\<rparr>"

definition managerPut :: "txEnv \<Rightarrow> (Secret, Identity) aead \<Rightarrow> string res \<Rightarrow> Keyring \<Rightarrow> time \<Rightarrow> Identity \<Rightarrow> Secret \<Rightarrow> Store
    \<Rightarrow> Metadata res \<times> Store" where
  "managerPut env gcm nonce keys now i secret s =
     (case bindR (validateSecret secret) (\<lambda>_. Seal gcm nonce keys (nextVersion i) secret) of
        Inl e \<Rightarrow> (Inl e, s)
      | Inr envl \<Rightarrow>
          let r = \<lparr>cr_Identity = nextVersion i, cr_Envelope = envl, cr_Status = ''active'', cr_RotatedAt = now\<rparr> in
          case PutCredential env r (id_Version i) s of
            (Inl e, s') \<Rightarrow> (Inl e, s')
          | (Inr _, s') \<Rightarrow> (Inr (maskedSecret r secret), s'))"

definition managerMetadata :: "txEnv \<Rightarrow> (Secret, Identity) aead \<Rightarrow> Keyring \<Rightarrow> string \<Rightarrow> string \<Rightarrow> Store \<Rightarrow> Metadata res \<times> Store" where
  "managerMetadata env gcm keys tenant connection s =
     (case LoadCredential env tenant connection s of
        (Inl e, s') \<Rightarrow> (Inl e, s')
      | (Inr r, s') \<Rightarrow> (bindR (OpenEnvelope gcm keys (cr_Identity r) (cr_Envelope r)) (\<lambda>x. Inr (maskedSecret r x)), s'))"

definition managerRewrap :: "txEnv \<Rightarrow> txEnv \<Rightarrow> (Secret, Identity) aead \<Rightarrow> string res \<Rightarrow> Keyring \<Rightarrow> time \<Rightarrow> string \<Rightarrow> string \<Rightarrow> Store
    \<Rightarrow> Metadata res \<times> Store" where
  "managerRewrap env env2 gcm nonce keys now tenant connection s =
     (case LoadCredential env tenant connection s of
        (Inl e, s') \<Rightarrow> (Inl e, s')
      | (Inr r, s') \<Rightarrow>
          (case bindR (OpenEnvelope gcm keys (cr_Identity r) (cr_Envelope r)) (\<lambda>x.
                 bindR (Seal gcm nonce keys (nextVersion (cr_Identity r)) x) (\<lambda>envl. Inr (x, envl))) of
             Inl e \<Rightarrow> (Inl e, s')
           | Inr (x, envl) \<Rightarrow>
               let i = nextVersion (cr_Identity r); r' = r\<lparr>cr_Identity := i, cr_Envelope := envl, cr_RotatedAt := now\<rparr> in
               case RewrapCredential env2 r' (wrap64 (id_Version i - 1)) s' of
                 (Inl e, s'') \<Rightarrow> (Inl e, s'')
               | (Inr _, s'') \<Rightarrow> (Inr (maskedSecret r' x), s'')))"

text \<open>The lease for an outbound request; \<open>None\<close> is the lease of a keyless connection.\<close>

definition sourceLease :: "txEnv \<Rightarrow> (Secret, Identity) aead \<Rightarrow> Keyring \<Rightarrow> Connection \<Rightarrow> Store \<Rightarrow> lease option res \<times> Store" where
  "sourceLease env gcm keys conn s =
     (if goIndex (cn_Settings conn) ''self_hosted'' = ''true'' \<and> goIndex (cn_Settings conn) ''keyless_approved'' = ''true'' then
        (Inr None, s)
      else case LoadUsableCredential env (cn_TenantID conn) (cn_ID conn) s of
        (Inl e, s') \<Rightarrow> (Inl e, s')
      | (Inr r, s') \<Rightarrow>
          let i = cr_Identity r in
          if id_TenantID i \<noteq> cn_TenantID conn \<or> id_ConnectionID i \<noteq> cn_ID conn
             \<or> (cn_AccountID conn \<noteq> '''' \<and> id_AccountID i \<noteq> cn_AccountID conn)
             \<or> (cn_Connector conn \<noteq> '''' \<and> id_Provider i \<noteq> cn_Connector conn) \<or> inactive r then (Inl ErrInvalidCredential, s')
          else (bindR (leaseRecord gcm keys r) (\<lambda>l. Inr (Some l)), s'))"

definition managerLease :: "txEnv \<Rightarrow> (Secret, Identity) aead \<Rightarrow> Keyring \<Rightarrow> Identity \<Rightarrow> Store \<Rightarrow> lease res \<times> Store" where
  "managerLease env gcm keys c s =
     (case LoadUsableCredential env (id_TenantID c) (id_ConnectionID c) s of
        (Inl e, s') \<Rightarrow> (Inl e, s')
      | (Inr r, s') \<Rightarrow>
          let i = cr_Identity r in
          if id_TenantID i \<noteq> id_TenantID c \<or> id_ConnectionID i \<noteq> id_ConnectionID c \<or> id_AccountID i \<noteq> id_AccountID c
             \<or> id_Provider i \<noteq> id_Provider c \<or> id_Version i \<noteq> id_Version c \<or> inactive r then (Inl ErrInvalidCredential, s')
          else (leaseRecord gcm keys r, s'))"

section \<open>The refresher\<close>

text \<open>The provider's answer to a refresh; \<open>RefreshError e False\<close> is one that was never sent.\<close>

datatype callError = RefreshError go_error bool | CallError go_error

text \<open>
  What a run of \<open>refreshRecord\<close> finds outside the store, in the order it meets it; \<open>rf_Between\<close> is what other
  transactions do to the store between the one that begins the refresh and the one that ends it.
\<close>

record refreshEnv =
  rf_Fence :: "string res"
  rf_AttemptID :: string
  rf_LeaseNow :: time
  rf_BeginNow :: time
  rf_BeginTx :: txEnv
  rf_Between :: "Store \<Rightarrow> Store"
  rf_Call :: "OAuthToken \<Rightarrow> callError + OAuthToken"
  rf_TokenNow :: time
  rf_Nonce :: "string res"
  rf_RotatedAt :: time
  rf_CommitNow :: time
  rf_EndTx :: txEnv

definition validateOAuth :: "OAuthToken \<Rightarrow> time \<Rightarrow> unit res" where
  "validateOAuth t now =
     (if ot_AccessToken t = '''' then Inl (GoErr ''provider returned empty access token'')
      else if ot_TokenType t \<noteq> '''' \<and> \<not> equalFold (ot_TokenType t) ''Bearer'' then Inl (GoErr ''provider returned unsupported token type'')
      else if isZeroTime (ot_ExpiresAt t) \<or> \<not> now < ot_ExpiresAt t then Inl (GoErr ''provider returned expired token'')
      else Inr ())"

definition sealRefreshed :: "refreshEnv \<Rightarrow> (Secret, Identity) aead \<Rightarrow> Keyring \<Rightarrow> Identity \<Rightarrow> OAuthToken \<Rightarrow> OAuthToken \<Rightarrow> CredentialRecord res" where
  "sealRefreshed rf gcm keys idn tok answer =
     (let next1 = (if ot_RefreshToken answer = '''' then answer\<lparr>ot_RefreshToken := ot_RefreshToken tok\<rparr> else answer) in
      bindR (validateOAuth next1 (rf_TokenNow rf)) (\<lambda>_.
      let next2 = (if ot_TokenType next1 = '''' then next1\<lparr>ot_TokenType := ''Bearer''\<rparr> else next1);
          i = idn\<lparr>id_Version := id_Version idn + 1\<rparr>
      in bindR (Seal gcm (rf_Nonce rf) keys i \<lparr>sc_APIKey = None, sc_OAuth = Some next2\<rparr>) (\<lambda>envl.
         Inr \<lparr>cr_Identity = i, cr_Envelope = envl, cr_Status = ''active'', cr_RotatedAt = rf_RotatedAt rf\<rparr>)))"

text \<open>After the intent is stored. An error after the request may have been sent is reported as \<open>ErrReauthRequired\<close>.\<close>

definition dispatchRefresh :: "refreshEnv \<Rightarrow> (Secret, Identity) aead \<Rightarrow> Keyring \<Rightarrow> RefreshIntent \<Rightarrow> OAuthToken \<Rightarrow> Store
    \<Rightarrow> CredentialRecord res \<times> Store" where
  "dispatchRefresh rf gcm keys intent tok s =
     (case rf_Call rf tok of
        Inl (RefreshError e False) \<Rightarrow> (Inl e, snd (FailRefresh (rf_EndTx rf) intent ''refresh rejected before dispatch'' s))
      | Inl _ \<Rightarrow> (Inl ErrReauthRequired, snd (FailRefresh (rf_EndTx rf) intent ''refresh outcome unknown'' s))
      | Inr answer \<Rightarrow>
          (case sealRefreshed rf gcm keys (ri_Identity intent) tok answer of
             Inl e \<Rightarrow> (Inl e, snd (FailRefresh (rf_EndTx rf) intent ''provider returned invalid token'' s))
           | Inr out \<Rightarrow>
               (case CommitRefresh (rf_EndTx rf) (rf_CommitNow rf) intent out s of
                  (Inl e, s') \<Rightarrow> (Inl e, s')
                | (Inr _, s') \<Rightarrow> (Inr out, s'))))"

definition refreshIntent :: "refreshEnv \<Rightarrow> Identity \<Rightarrow> string \<Rightarrow> RefreshIntent" where
  "refreshIntent rf idn fence =
     \<lparr>ri_Identity = idn, ri_AttemptID = rf_AttemptID rf, ri_Fence = fence, ri_LeaseUntil = rf_LeaseNow rf + 120 * second\<rparr>"

definition refreshToken :: "(Secret, Identity) aead \<Rightarrow> Keyring \<Rightarrow> Identity \<Rightarrow> CredentialRecord \<Rightarrow> OAuthToken res" where
  "refreshToken gcm keys idn old =
     (if id_AccountID (cr_Identity old) \<noteq> id_AccountID idn \<or> id_Version (cr_Identity old) \<noteq> id_Version idn then Inl ErrConflict
      else bindR (OpenEnvelope gcm keys idn (cr_Envelope old)) (\<lambda>secret.
        case sc_OAuth secret of
          None \<Rightarrow> Inl ErrReauthRequired
        | Some tok \<Rightarrow> if ot_RefreshToken tok = '''' then Inl ErrReauthRequired else Inr tok))"

definition refreshRecord :: "refreshEnv \<Rightarrow> (Secret, Identity) aead \<Rightarrow> Keyring \<Rightarrow> Identity \<Rightarrow> CredentialRecord \<Rightarrow> Store
    \<Rightarrow> CredentialRecord res \<times> Store" where
  "refreshRecord rf gcm keys idn old s =
     (case bindR (refreshToken gcm keys idn old) (\<lambda>tok. bindR (rf_Fence rf) (\<lambda>fence. Inr (tok, fence))) of
        Inl e \<Rightarrow> (Inl e, s)
      | Inr (tok, fence) \<Rightarrow>
          (case BeginRefresh (rf_BeginTx rf) (rf_BeginNow rf) (refreshIntent rf idn fence) s of
             (Inl e, s') \<Rightarrow> (Inl e, s')
           | (Inr _, s') \<Rightarrow> dispatchRefresh rf gcm keys (refreshIntent rf idn fence) tok (rf_Between rf s')))"

text \<open>The call that leads a single flight; the others of the flight are given its result.\<close>

definition refreshSingleflight :: "txEnv \<Rightarrow> refreshEnv \<Rightarrow> (Secret, Identity) aead \<Rightarrow> Keyring \<Rightarrow> Identity \<Rightarrow> Store
    \<Rightarrow> CredentialRecord res \<times> Store" where
  "refreshSingleflight env rf gcm keys idn s =
     (case LoadUsableCredential env (id_TenantID idn) (id_ConnectionID idn) s of
        (Inl e, s') \<Rightarrow> (Inl e, s')
      | (Inr old, s') \<Rightarrow>
          if cr_Identity old \<noteq> idn then
            (if sameCredential (cr_Identity old) idn \<and> id_Version (cr_Identity old) > id_Version idn then (Inr old, s')
             else (Inl ErrConflict, s'))
          else refreshRecord rf gcm keys idn old s')"

section \<open>What the operations do to the records\<close>

lemma completed_fields [simp]: "cs_Record (completed r) = r" "cs_Intent (completed r) = None" "cs_RefreshStatus (completed r) = ''completed''"
  by (simp_all add: completed_def)

lemma credentialOf_put:
  assumes "putCredential i v row s = Inr (u, s')"
  shows "\<exists>n. credentialOf t c s' = (if t = id_TenantID i \<and> c = id_ConnectionID i then Inr (n, row) else credentialOf t c s)"
  using assms by (auto simp: putCredential_def putTx_def durablePut_def bindR_Inr credentialOf_def durableGet_def split: option.splits if_splits)

lemma credentialOf_durable: "st_durable s' = st_durable s \<Longrightarrow> credentialOf t c s' = credentialOf t c s"
  by (simp add: credentialOf_def durableGet_def)

lemma withCredentialRevision_effect:
  "(\<exists>e. withCredentialRevision env m s = (Inl e, s)) \<or> (\<exists>s1. m s = Inr ((), s1) \<and> st_durable (snd (withCredentialRevision env m s)) = st_durable s1)"
proof -
  let ?fn = "\<lambda>s0. bindR (m s0) (\<lambda>(_, s1). bindR (bumpRevisionTx s1) (\<lambda>(_, s2).
       case st_config s2 of None \<Rightarrow> Inl ErrNoRows | Some revision \<Rightarrow> Inr (revision, s2)))"
  have "\<exists>s1. m s = Inr ((), s1) \<and> st_durable s' = st_durable s1" if "?fn s = Inr (rev, s')" for rev s'
    using that by (auto simp: bindR_Inr bumpRevisionTx_def split: option.splits)
  then show ?thesis unfolding withCredentialRevision_def using withTx_cases [of env ?fn s] by fastforce
qed

text \<open>
  The last generation of a credential whose refresh was begun: its version while a refresh is pending or
  has failed, and the version before it otherwise.
\<close>

definition rowGen :: "storedCredential \<Rightarrow> int" where
  "rowGen row = id_Version (cr_Identity (cs_Record row)) - (if cs_Intent row = None then 1 else 0)"

definition refreshGen :: "Store \<Rightarrow> string \<times> string \<Rightarrow> int" where
  "refreshGen s k =
     (case credentialOf (fst k) (snd k) s of
        Inl _ \<Rightarrow> 0
      | Inr (_, row) \<Rightarrow> rowGen row)"

lemma refreshGen_frame: "(\<And>t c. credentialOf t c s' = credentialOf t c s) \<Longrightarrow> refreshGen s' = refreshGen s"
  by (simp add: refreshGen_def rowGen_def fun_eq_iff)

lemma refreshGen_put:
  assumes "putCredential i v row s = Inr (u, s')"
  shows "refreshGen s' k = (if k = (id_TenantID i, id_ConnectionID i)
     then rowGen row else refreshGen s k)"
  using credentialOf_put [OF assms, of "fst k" "snd k"] by (cases k) (auto simp: refreshGen_def rowGen_def)

text \<open>A transaction that changes one record moves generations forward if it does so for that record.\<close>

lemma refreshGen_advance:
  assumes "putCredential i v row s = Inr (u, s')"
    and "refreshGen s (id_TenantID i, id_ConnectionID i)
      \<le> rowGen row"
  shows "refreshGen s k \<le> refreshGen s' k"
  using refreshGen_put [OF assms(1), of k] assms(2) by simp

lemma putCredentialTx_advance:
  assumes "putCredentialTx r expected s = Inr (u, s')" "id_Version (cr_Identity r) = expected + 1" "0 \<le> expected"
  shows "refreshGen s k \<le> refreshGen s' k"
proof -
  let ?i = "cr_Identity r"
  from assms(1) obtain v where put: "putCredential ?i v (completed r) s = Inr (u, s')"
    and le: "refreshGen s (id_TenantID ?i, id_ConnectionID ?i) \<le> expected"
    using assms(3) by (auto simp: putCredentialTx_def refreshGen_def rowGen_def Let_def split: sum.splits if_splits)
  show ?thesis using le assms(2) by (intro refreshGen_advance [OF put]) (simp add: rowGen_def)
qed

lemma rewrapTx_advance:
  assumes "rewrapTx r expected s = Inr (u, s')"
  shows "refreshGen s k \<le> refreshGen s' k"
proof -
  let ?i = "cr_Identity r"
  obtain v old where get: "credentialOf (id_TenantID ?i) (id_ConnectionID ?i) s = Inr (v, old)"
    using assms by (auto simp: rewrapTx_def bindR_Inr Let_def)
  with assms have put: "putCredential ?i v (old\<lparr>cs_Record := r\<rparr>) s = Inr (u, s')"
    and idn: "(cr_Identity (cs_Record old))\<lparr>id_Version := id_Version (cr_Identity (cs_Record old)) + 1\<rparr> = ?i"
    by (auto simp: rewrapTx_def Let_def split: if_splits)
  have "id_Version ?i = id_Version (cr_Identity (cs_Record old)) + 1" by (simp flip: idn)
  with get show ?thesis by (intro refreshGen_advance [OF put]) (simp add: refreshGen_def rowGen_def)
qed

lemma commitRefreshTx_advance:
  assumes "commitRefreshTx now i r s = Inr (u, s')"
  shows "refreshGen s k \<le> refreshGen s' k"
proof -
  let ?i = "ri_Identity i"
  from assms obtain v row where get: "credentialOf (id_TenantID ?i) (id_ConnectionID ?i) s = Inr (v, row)"
    and put: "putCredential ?i v (completed r) s = Inr (u, s')"
    and ok: "refreshMatches row i" "cr_Identity r = ?i\<lparr>id_Version := id_Version ?i + 1\<rparr>"
    by (auto simp: commitRefreshTx_def bindR_Inr Let_def split: if_splits)
  from get ok(1) have "refreshGen s (id_TenantID ?i, id_ConnectionID ?i) = id_Version ?i"
    by (auto simp: refreshGen_def rowGen_def refreshMatches_def split: option.splits)
  then show ?thesis using ok(2) by (intro refreshGen_advance [OF put]) (simp add: rowGen_def)
qed

lemma failRefreshTx_advance:
  assumes "failRefreshTx i s = Inr (u, s')"
  shows "refreshGen s k \<le> refreshGen s' k"
proof -
  let ?i = "ri_Identity i"
  from assms obtain v row where get: "credentialOf (id_TenantID ?i) (id_ConnectionID ?i) s = Inr (v, row)"
    and put: "putCredential ?i v (row\<lparr>cs_RefreshStatus := ''reauth_required'',
        cs_Record := (cs_Record row)\<lparr>cr_Status := ''reauth_required''\<rparr>\<rparr>) s = Inr (u, s')"
    by (auto simp: failRefreshTx_def bindR_Inr Let_def split: if_splits)
  from get show ?thesis by (intro refreshGen_advance [OF put]) (simp add: refreshGen_def rowGen_def)
qed

lemma beginRefreshTx_grants:
  assumes "beginRefreshTx i s = Inr (u, s')"
  shows "refreshGen s (id_TenantID (ri_Identity i), id_ConnectionID (ri_Identity i)) = id_Version (ri_Identity i) - 1"
    "refreshGen s' k = (if k = (id_TenantID (ri_Identity i), id_ConnectionID (ri_Identity i)) then id_Version (ri_Identity i) else refreshGen s k)"
proof -
  let ?i = "ri_Identity i"
  from assms obtain v row where get: "credentialOf (id_TenantID ?i) (id_ConnectionID ?i) s = Inr (v, row)"
    and put: "putCredential ?i v (row\<lparr>cs_Intent := Some i, cs_RefreshStatus := ''pending''\<rparr>) s = Inr (u, s')"
    and ok: "cr_Identity (cs_Record row) = ?i" "\<not> refreshing row"
    by (auto simp: beginRefreshTx_def bindR_Inr Let_def split: if_splits)
  show "refreshGen s (id_TenantID ?i, id_ConnectionID ?i) = id_Version ?i - 1"
    using get ok by (simp add: refreshGen_def rowGen_def refreshing_def)
  show "refreshGen s' k = (if k = (id_TenantID ?i, id_ConnectionID ?i) then id_Version ?i else refreshGen s k)"
    using refreshGen_put [OF put, of k] ok(1) by (simp add: rowGen_def)
qed

section \<open>Refreshes are fenced\<close>

definition keyOfIntent :: "RefreshIntent \<Rightarrow> string \<times> string" where
  "keyOfIntent i = (id_TenantID (ri_Identity i), id_ConnectionID (ri_Identity i))"

text \<open>
  Any operation on credentials by any process, and everything else that leaves the credential records
  alone. A refresh that is begun is granted the credential's version.
\<close>

inductive cred_step :: "Store \<Rightarrow> ((string \<times> string) \<times> int) list \<Rightarrow> Store \<Rightarrow> bool" where
  put: "cred_step s [] (snd (PutCredential env r expected s))"
| rewrap: "cred_step s [] (snd (RewrapCredential env r expected s))"
| begun: "BeginRefresh env now i s = (Inr (), s') \<Longrightarrow> cred_step s [(keyOfIntent i, id_Version (ri_Identity i))] s'"
| refused: "BeginRefresh env now i s = (Inl e, s') \<Longrightarrow> cred_step s [] s'"
| commit: "cred_step s [] (snd (CommitRefresh env now i r s))"
| fail: "cred_step s [] (snd (FailRefresh env i reason s))"
| other: "(\<And>t c. map_of (st_durable s') (t, ''credential'', c) = map_of (st_durable s) (t, ''credential'', c)) \<Longrightarrow> cred_step s [] s'"

lemma withCredentialRevision_advance:
  assumes "\<And>u s1. m s = Inr (u, s1) \<Longrightarrow> refreshGen s k \<le> refreshGen s1 k"
  shows "refreshGen s k \<le> refreshGen (snd (withCredentialRevision env m s)) k"
  using withCredentialRevision_effect [of env m s]
proof
  assume "\<exists>s1. m s = Inr ((), s1) \<and> st_durable (snd (withCredentialRevision env m s)) = st_durable s1"
  then obtain s1 where s1: "m s = Inr ((), s1)" "st_durable (snd (withCredentialRevision env m s)) = st_durable s1" by blast
  from refreshGen_frame [OF credentialOf_durable [OF s1(2)]] assms [OF s1(1)] show ?thesis by simp
qed auto

lemma BeginRefresh_Inr: "BeginRefresh env now i s = (Inr (), s') \<Longrightarrow> beginRefreshTx i s = Inr ((), s')"
  by (auto simp: BeginRefresh_def dest: withTx_okD split: if_splits)

lemma BeginRefresh_Inl: "BeginRefresh env now i s = (Inl e, s') \<Longrightarrow> s' = s"
  using withTx_cases [of env "beginRefreshTx i" s] by (auto simp: BeginRefresh_def split: if_splits)

lemma begun_gen:
  assumes "BeginRefresh env now i s = (Inr (), s')"
  shows "refreshGen s (keyOfIntent i) = id_Version (ri_Identity i) - 1 \<and> refreshGen s' (keyOfIntent i) = id_Version (ri_Identity i)"
  using beginRefreshTx_grants [OF BeginRefresh_Inr [OF assms]] by (simp add: keyOfIntent_def)

interpretation cf: fenced "\<lambda>_. True" refreshGen cred_step
proof unfold_locales
  fix s gs s' k assume "cred_step s gs s'"
  then show "refreshGen s k \<le> refreshGen s' k"
  proof cases
    case (put env r expected)
    then show ?thesis
      by (auto simp: PutCredential_def intro!: withCredentialRevision_advance dest: putCredentialTx_advance)
  next
    case (rewrap env r expected)
    then show ?thesis by (auto simp: RewrapCredential_def intro!: withCredentialRevision_advance dest: rewrapTx_advance)
  next
    case (begun env now i)
    then show ?thesis using beginRefreshTx_grants [OF BeginRefresh_Inr [OF begun(2)]] by simp
  next
    case (refused env now i e)
    then show ?thesis using BeginRefresh_Inl [of env now i s e s'] by simp
  next
    case (commit env now i r)
    then show ?thesis by (auto simp: CommitRefresh_def intro!: withCredentialRevision_advance dest: commitRefreshTx_advance)
  next
    case (fail env i reason)
    then show ?thesis by (auto simp: FailRefresh_def intro!: withCredentialRevision_advance dest: failRefreshTx_advance)
  next
    case other
    then have "credentialOf t c s' = credentialOf t c s" for t c by (simp add: credentialOf_def durableGet_def)
    then show ?thesis using refreshGen_frame [of s' s] by simp
  qed
next
  fix s gs s' k g assume "cred_step s gs s'" "(k, g) \<in> set gs"
  then show "refreshGen s k < g \<and> g \<le> refreshGen s' k"
    by cases (auto dest!: begun_gen)
next
  fix s gs s' assume "cred_step s gs s'"
  then show "distinct (map fst gs)" by cases simp_all
qed

text \<open>
  C11: A refresh token is sent at most once: in every interleaving of puts, rewraps, refreshes, commits and failures by
  any number of processes, the versions of a credential whose refresh was begun strictly increase,
  so no version of a credential is ever refreshed twice.
\<close>

theorem refresh_begun_once:
  assumes "grant_run cred_step s gs s'"
  shows "sorted_wrt (<) (grantsOf (tenant, connection) gs) \<and> distinct gs"
proof -
  have "distinct gs"
  proof (rule ccontr)
    assume "\<not> distinct gs"
    then obtain xs ys zs k g where "gs = xs @ [(k, g)] @ ys @ [(k, g)] @ zs" using not_distinct_decomp [of gs] by auto
    then have "\<not> distinct (grantsOf k gs)" by (simp add: grantsOf_def)
    with cf.granted_once [OF assms TrueI] show False by blast
  qed
  with cf.run_fenced [OF assms TrueI] show ?thesis by blast
qed

section \<open>A refresh that does not commit leaves no usable token\<close>

lemma usableTx_durable:
  assumes "st_durable s' = st_durable s"
  shows "usableTx t c s' = bindR (usableTx t c s) (\<lambda>(r, _). Inr (r, s'))"
  using credentialOf_durable [OF assms, of t c] by (cases "credentialOf t c s") (auto simp: usableTx_def Let_def)

lemma usableTx_refreshing:
  assumes "credentialOf t c s = Inr (v, row)" "id_TenantID (cr_Identity (cs_Record row)) = t" "id_ConnectionID (cr_Identity (cs_Record row)) = c"
    and "refreshing row"
  shows "usableTx t c s = Inl ErrReauthRequired"
  using assms by (simp add: usableTx_def Let_def)

text \<open>The record while a refresh is pending: nobody can use it, and failing the refresh keeps it so.\<close>

definition pendingFor :: "RefreshIntent \<Rightarrow> Store \<Rightarrow> bool" where
  "pendingFor i s \<longleftrightarrow> (\<exists>v row. credentialOf (fst (keyOfIntent i)) (snd (keyOfIntent i)) s = Inr (v, row)
     \<and> cr_Identity (cs_Record row) = ri_Identity i \<and> refreshing row)"

lemma pendingFor_unusable: "pendingFor i s \<Longrightarrow> usableTx (fst (keyOfIntent i)) (snd (keyOfIntent i)) s = Inl ErrReauthRequired"
  by (auto simp: pendingFor_def keyOfIntent_def intro: usableTx_refreshing)

lemma begun_pending:
  assumes "BeginRefresh env now i s = (Inr (), s')"
  shows "pendingFor i s'"
proof -
  from BeginRefresh_Inr [OF assms] obtain v row where
    put: "putCredential (ri_Identity i) v (row\<lparr>cs_Intent := Some i, cs_RefreshStatus := ''pending''\<rparr>) s = Inr ((), s')"
    and ok: "cr_Identity (cs_Record row) = ri_Identity i"
    by (auto simp: beginRefreshTx_def bindR_Inr Let_def split: if_splits)
  from credentialOf_put [OF put, of "fst (keyOfIntent i)" "snd (keyOfIntent i)"] ok show ?thesis
    by (auto simp: pendingFor_def keyOfIntent_def refreshing_def)
qed

lemma failed_pending:
  assumes "pendingFor i s"
  shows "pendingFor i (snd (FailRefresh env i reason s))"
  using withCredentialRevision_effect [of env "failRefreshTx i" s]
proof
  assume "\<exists>s1. failRefreshTx i s = Inr ((), s1) \<and> st_durable (snd (withCredentialRevision env (failRefreshTx i) s)) = st_durable s1"
  then obtain s1 where s1: "failRefreshTx i s = Inr ((), s1)" "st_durable (snd (withCredentialRevision env (failRefreshTx i) s)) = st_durable s1" by blast
  from s1(1) obtain v row where match: "refreshMatches row i"
    and put: "putCredential (ri_Identity i) v (row\<lparr>cs_RefreshStatus := ''reauth_required'',
        cs_Record := (cs_Record row)\<lparr>cr_Status := ''reauth_required''\<rparr>\<rparr>) s = Inr ((), s1)"
    by (auto simp: failRefreshTx_def bindR_Inr Let_def split: if_splits)
  from credentialOf_put [OF put, of "fst (keyOfIntent i)" "snd (keyOfIntent i)"] match have "pendingFor i s1"
    by (auto simp: pendingFor_def keyOfIntent_def refreshing_def refreshMatches_def)
  then show ?thesis using credentialOf_durable [OF s1(2)] by (simp add: pendingFor_def FailRefresh_def)
qed (use assms in \<open>auto simp: FailRefresh_def\<close>)

lemma commit_effect:
  assumes "CommitRefresh env now i out s = (res, s')" "cr_Status out = ''active''"
  shows "(\<exists>e. res = Inl e \<and> s' = s) \<or> (\<exists>rev. res = Inr rev)
     \<and> usableTx (fst (keyOfIntent i)) (snd (keyOfIntent i)) s' = Inr (out, s')"
proof (cases "\<not> refreshableIdentity (ri_Identity i)")
  case False
  then have run: "withCredentialRevision env (commitRefreshTx now i out) s = (res, s')" using assms by (simp add: CommitRefresh_def)
  from withCredentialRevision_effect [of env "commitRefreshTx now i out" s] show ?thesis
  proof
    assume "\<exists>s1. commitRefreshTx now i out s = Inr ((), s1) \<and> st_durable (snd (withCredentialRevision env (commitRefreshTx now i out) s)) = st_durable s1"
    then obtain s1 where s1: "commitRefreshTx now i out s = Inr ((), s1)" "st_durable s' = st_durable s1" using run by auto
    from s1(1) obtain v where put: "putCredential (ri_Identity i) v (completed out) s = Inr ((), s1)"
      and idn: "cr_Identity out = (ri_Identity i)\<lparr>id_Version := id_Version (ri_Identity i) + 1\<rparr>"
      by (auto simp: commitRefreshTx_def bindR_Inr Let_def split: if_splits)
    from credentialOf_put [OF put, of "fst (keyOfIntent i)" "snd (keyOfIntent i)"] idn assms(2)
    have "usableTx (fst (keyOfIntent i)) (snd (keyOfIntent i)) s1 = Inr (out, s1)"
      by (auto simp: usableTx_def keyOfIntent_def refreshing_def inactive_def)
    then have "usableTx (fst (keyOfIntent i)) (snd (keyOfIntent i)) s' = Inr (out, s')" using usableTx_durable [OF s1(2)] by simp
    moreover have "(\<exists>e. res = Inl e \<and> s' = s) \<or> (\<exists>rev. res = Inr rev)"
      using run withTx_cases by (cases res) (auto simp: withCredentialRevision_def withTx_def split: option.splits sum.splits)
    ultimately show ?thesis by blast
  qed (use run in auto)
qed (use assms in \<open>auto simp: CommitRefresh_def\<close>)

text \<open>
  C9: Refreshing fails closed: whenever a refresh has changed the store, the credential can be used afterwards exactly
  when the refresh returned a record, and then it is that record; in every other case, a rejected
  call, an unknown outcome, an invalid answer, a failed commit, the old token is not used again. Other
  transactions may commit while the provider is called, as long as they leave the record of this credential alone.
\<close>

theorem refresh_fails_closed:
  assumes "refreshRecord rf gcm keys idn old s = (res, s')" "s' \<noteq> s"
    and "\<And>x. credentialOf (id_TenantID idn) (id_ConnectionID idn) (rf_Between rf x) = credentialOf (id_TenantID idn) (id_ConnectionID idn) x"
  shows "LoadUsableCredential sound (id_TenantID idn) (id_ConnectionID idn) s' =
     ((case res of Inr out \<Rightarrow> Inr out | Inl _ \<Rightarrow> Inl ErrReauthRequired), s')"
proof -
  from assms obtain tok fence where
    "bindR (refreshToken gcm keys idn old) (\<lambda>tok. bindR (rf_Fence rf) (\<lambda>fence. Inr (tok, fence))) = Inr (tok, fence)"
    by (auto simp: refreshRecord_def split: sum.splits)
  note tok = this
  define i where "i = refreshIntent rf idn fence"
  have key: "keyOfIntent i = (id_TenantID idn, id_ConnectionID idn)" by (simp add: i_def keyOfIntent_def refreshIntent_def)
  obtain s1 where begun: "BeginRefresh (rf_BeginTx rf) (rf_BeginNow rf) i s = (Inr (), s1)"
    and run: "dispatchRefresh rf gcm keys i tok (rf_Between rf s1) = (res, s')"
    using assms(1,2) tok BeginRefresh_Inl by (auto simp: refreshRecord_def i_def split: prod.splits sum.splits)
  have pend: "pendingFor i (rf_Between rf s1)"
    using begun_pending [OF begun] assms(3) key by (simp add: pendingFor_def keyOfIntent_def)
  have "(\<exists>e. res = Inl e) \<and> pendingFor i s' \<or> (\<exists>out. res = Inr out \<and> usableTx (id_TenantID idn) (id_ConnectionID idn) s' = Inr (out, s'))"
  proof (cases "rf_Call rf tok")
    case (Inl err)
    with run failed_pending [OF pend] show ?thesis by (auto simp: dispatchRefresh_def split: callError.splits bool.splits)
  next
    case (Inr answer)
    show ?thesis
    proof (cases "sealRefreshed rf gcm keys (ri_Identity i) tok answer")
      case (Inl e)
      with Inr run have "res = Inl e" "\<exists>reason. s' = snd (FailRefresh (rf_EndTx rf) i reason (rf_Between rf s1))" by (auto simp: dispatchRefresh_def)
      then show ?thesis using failed_pending [OF pend] by auto
    next
      case sealed: (Inr out)
      then have active: "cr_Status out = ''active''" by (auto simp: sealRefreshed_def bindR_Inr Let_def)
      obtain cres s2 where c: "CommitRefresh (rf_EndTx rf) (rf_CommitNow rf) i out (rf_Between rf s1) = (cres, s2)" by fastforce
      from commit_effect [OF c active] Inr sealed run c pend key show ?thesis by (auto simp: dispatchRefresh_def)
    qed
  qed
  then show ?thesis using pendingFor_unusable [of i s'] key by (auto simp: LoadUsableCredential_def withTx_sound)
qed

section \<open>Examples\<close>

definition credIdentity :: Identity where
  "credIdentity = \<lparr>id_TenantID = ''t1'', id_ConnectionID = ''c1'', id_CredentialID = ''cred'', id_AccountID = ''a1'',
     id_Provider = ''openai'', id_Version = 1\<rparr>"

definition credToken :: OAuthToken where
  "credToken = \<lparr>ot_AccessToken = ''at'', ot_RefreshToken = ''rt'', ot_TokenType = ''Bearer'', ot_ExpiresAt = 5, ot_Scopes = []\<rparr>"

definition credRecord :: CredentialRecord where
  "credRecord = \<lparr>cr_Identity = credIdentity, cr_Envelope = \<lparr>en_KeyID = ''m'', en_Nonce = replicate 12 (CHR ''n''), en_Ciphertext = ''x''\<rparr>,
     cr_Status = ''active'', cr_RotatedAt = 0\<rparr>"

definition credStore :: Store where
  "credStore = emptyStore\<lparr>st_durable := [((''t1'', ''credential'', ''c1''), \<lparr>dr_version = 1, dr_data = CredentialRec (completed credRecord)\<rparr>)]\<rparr>"

definition credKeys :: Keyring where
  "credKeys = \<lparr>kr_Current = Inr (''m'', replicate 32 (CHR ''k'')), kr_ByID = (\<lambda>_. Inr (replicate 32 (CHR ''k'')))\<rparr>"

definition credCipher :: "(Secret, Identity) aead" where
  "credCipher = \<lparr>gcm_Seal = (\<lambda>_ _ _ _. ''x''), gcm_Open = (\<lambda>_ _ _ _. Some \<lparr>sc_APIKey = None, sc_OAuth = Some credToken\<rparr>)\<rparr>"

text \<open>A refresh whose call to the provider is cut off.\<close>

definition cutRefresh :: refreshEnv where
  "cutRefresh = \<lparr>rf_Fence = Inr ''f'', rf_AttemptID = ''r'', rf_LeaseNow = 0, rf_BeginNow = 0, rf_BeginTx = sound,
     rf_Between = (\<lambda>s. s),
     rf_Call = (\<lambda>_. Inl (CallError (GoErr ''connection reset''))), rf_TokenNow = 0, rf_Nonce = Inr ''n'', rf_RotatedAt = 0,
     rf_CommitNow = 0, rf_EndTx = sound\<rparr>"

lemma credStore_record: "credentialOf ''t1'' ''c1'' credStore = Inr (1, completed credRecord)"
  by (simp add: credentialOf_def durableGet_def credStore_def)

lemma begin_sample:
  "\<exists>s1. BeginRefresh sound 0 (refreshIntent cutRefresh credIdentity ''f'') credStore = (Inr (), s1)"
  by (simp add: BeginRefresh_def refreshableIdentity_def incomplete_def refreshIntent_def credIdentity_def cutRefresh_def second_def
      withTx_sound beginRefreshTx_def credStore_record maxInt64_def refreshing_def inactive_def putCredential_def putTx_def durablePut_def
      completed_def Let_def credRecord_def)
    (simp add: credStore_def)

theorem refresh_begun_once_witness:
  "\<exists>s1. grant_run cred_step credStore [((''t1'', ''c1''), 1)] s1 \<and> sorted_wrt (<) (grantsOf (''t1'', ''c1'') [((''t1'', ''c1''), 1)])"
proof -
  define i where "i = refreshIntent cutRefresh credIdentity ''f''"
  have i: "keyOfIntent i = (''t1'', ''c1'')" "id_Version (ri_Identity i) = 1"
    by (simp_all add: i_def keyOfIntent_def refreshIntent_def credIdentity_def)
  obtain s1 where s1: "BeginRefresh sound 0 i credStore = (Inr (), s1)" unfolding i_def by (rule exE [OF begin_sample])
  have run: "grant_run cred_step credStore [((''t1'', ''c1''), 1)] s1"
    using grant_run.more [OF grant_run.start [of cred_step credStore] cred_step.begun [OF s1]] unfolding i append_Nil .
  show ?thesis by (rule exI, rule conjI, rule run, rule conjunct1, rule refresh_begun_once, rule run)
qed

lemma token_sample: "refreshToken credCipher credKeys credIdentity credRecord = Inr credToken"
proof -
  have "trimSpace ''at'' = ''at''" by (simp add: trimSpace_def isSpaceRune_def str_eval)
  then show ?thesis
    by (simp add: refreshToken_def credRecord_def OpenEnvelope_def credKeys_def credCipher_def aesKey_def nonceSize_def validateSecret_def
        credToken_def overhead_def)
qed

theorem refresh_fails_closed_witness:
  "\<exists>s'. refreshRecord cutRefresh credCipher credKeys credIdentity credRecord credStore = (Inl ErrReauthRequired, s')
     \<and> LoadUsableCredential sound ''t1'' ''c1'' credStore = (Inr credRecord, credStore)
     \<and> LoadUsableCredential sound ''t1'' ''c1'' s' = (Inl ErrReauthRequired, s')"
proof -
  obtain s1 where s1: "BeginRefresh sound 0 (refreshIntent cutRefresh credIdentity ''f'') credStore = (Inr (), s1)" using begin_sample by blast
  obtain s' where run: "refreshRecord cutRefresh credCipher credKeys credIdentity credRecord credStore = (Inl ErrReauthRequired, s')"
    and s': "s' = snd (FailRefresh sound (refreshIntent cutRefresh credIdentity ''f'') ''refresh outcome unknown'' s1)"
    using s1 by (simp add: refreshRecord_def token_sample dispatchRefresh_def) (simp add: cutRefresh_def dispatchRefresh_def)
  have before: "LoadUsableCredential sound ''t1'' ''c1'' credStore = (Inr credRecord, credStore)"
    by (simp add: LoadUsableCredential_def withTx_sound usableTx_def credStore_record Let_def refreshing_def inactive_def)
      (simp add: credRecord_def credIdentity_def)
  have "pendingFor (refreshIntent cutRefresh credIdentity ''f'') s'" unfolding s' by (intro failed_pending begun_pending [OF s1])
  then have "s' \<noteq> credStore"
    by (auto simp: pendingFor_def keyOfIntent_def refreshIntent_def credIdentity_def credStore_record refreshing_def)
  from refresh_fails_closed [OF run this] have "LoadUsableCredential sound ''t1'' ''c1'' s' = (Inl ErrReauthRequired, s')"
    by (simp add: credIdentity_def) (simp add: cutRefresh_def)
  with before run show ?thesis by (intro exI conjI)
qed

end
