(* ===== verification/Jobs.thy ===== *)
theory Jobs
  imports Credential_Store
begin

text \<open>
  Provider jobs and upload continuations: \<open>store/resource_jobs.go\<close>, \<open>store/job_actions.go\<close> and the
  reconciler of \<open>resource/resource.go\<close>. A job is worked on under a lease with a fencing number, given out by
  \<open>ClaimJobs\<close> to reconcilers and by \<open>ClaimJobAction\<close> to administrative actions. The clock of the database is a
  parameter (a reading may fail), and so is what \<open>time.Now\<close> returns. \<open>ClaimJobAction\<close> reads the job in
  one transaction and writes it in another, so it takes two stores: what it read and what it finds when
  it writes. The proofs show that fencing works under that interleaving.
\<close>

section \<open>Rows\<close>

fun asJob :: "durableData \<Rightarrow> Job option" where
  "asJob (JobRec x) = Some x"
| "asJob _ = None"

fun asContinuation :: "durableData \<Rightarrow> Continuation option" where
  "asContinuation (ContinuationRec x) = Some x"
| "asContinuation _ = None"

definition jobID :: "Job \<Rightarrow> string" where
  "jobID j = durableKey [jb_TenantID j, jb_ConnectionID j, jb_AccountID j, jb_ResourceID j]"

type_synonym kindRow = "(string \<times> string) \<times> durableRow"

text \<open>The rows of one kind, by tenant and identifier, and the first row of a tenant that decodes to what is asked for.\<close>

definition rowsOfKind :: "string \<Rightarrow> Store \<Rightarrow> kindRow list" where
  "rowsOfKind kind s = map (\<lambda>((t, k, i), r). ((t, i), r)) (filter (\<lambda>((t, k, i), r). k = kind) (st_durable s))"

definition rowsOfTenant :: "string \<Rightarrow> string \<Rightarrow> Store \<Rightarrow> kindRow list" where
  "rowsOfTenant tenant kind s = filter (\<lambda>((t, i), r). t = tenant) (rowsOfKind kind s)"

fun firstMatch :: "(durableData \<Rightarrow> 'a option) \<Rightarrow> ('a \<Rightarrow> bool) \<Rightarrow> kindRow list \<Rightarrow> (string \<times> 'a) res" where
  "firstMatch dec P [] = Inl ErrNoRows"
| "firstMatch dec P (((t, i), r) # rows) =
     (case dec (dr_data r) of
        None \<Rightarrow> Inl decodeError
      | Some x \<Rightarrow> if P x then Inr (i, x) else firstMatch dec P rows)"

section \<open>Jobs\<close>

definition PutJob :: "txEnv \<Rightarrow> Job \<Rightarrow> Store \<Rightarrow> unit res \<times> Store" where
  "PutJob env j s =
     (if jb_TenantID j = '''' \<or> jb_ConnectionID j = '''' \<or> jb_AccountID j = '''' \<or> jb_ResourceID j = '''' then
        (Inl (GoErr ''invalid job scope''), s)
      else withTx env (putTx (jb_TenantID j) ''resource_job'' (jobID j) 0 (JobRec j)) s)"

definition GetJob :: "txEnv \<Rightarrow> string \<Rightarrow> string \<Rightarrow> string \<Rightarrow> Store \<Rightarrow> Job res \<times> Store" where
  "GetJob env tenant connection resourceID s =
     withTx env (\<lambda>s0.
       bindR (firstMatch asJob (\<lambda>j. jb_ConnectionID j = connection \<and> jb_ResourceID j = resourceID) (rowsOfTenant tenant ''resource_job'' s0))
         (\<lambda>(_, j). Inr (j, s0))) s"

record candidate =
  cd_tenant :: string
  cd_id :: string
  cd_version :: int64
  cd_job :: Job

type_synonym jobCursor = "string \<times> string"

definition scanBudget :: "int \<Rightarrow> int" where
  "scanBudget limit =
     (let budget = (if limit < 8 then limit * 16 else 1024) in
      if budget < 128 then 128 else budget)"

text \<open>A job that is not to be polled now, and a row whose identity or fence is unusable.\<close>

definition notDue :: "time \<Rightarrow> Job \<Rightarrow> bool" where
  "notDue now j =
     (jb_Status j = ''outcome_unknown''
      \<or> (jb_Status j = ''settled'' \<or> jb_Status j = ''completed'' \<or> jb_Status j = ''failed'' \<or> jb_Status j = ''cancelled'') \<and> \<not> jb_SettlementPending j
      \<or> jb_NextPoll j > now \<or> jb_LeaseUntil j > now)"

definition invalidRow :: "string \<Rightarrow> string \<Rightarrow> Job \<Rightarrow> bool" where
  "invalidRow tenant rid j = (jb_TenantID j \<noteq> tenant \<or> jobID j \<noteq> rid \<or> jb_Fence j < 0 \<or> jb_Fence j = maxInt64)"

fun scanRows :: "time \<Rightarrow> kindRow list \<Rightarrow> candidate list res" where
  "scanRows now [] = Inr []"
| "scanRows now (((t, i), r) # rows) =
     (case asJob (dr_data r) of
        None \<Rightarrow> Inl decodeError
      | Some j \<Rightarrow>
          if notDue now j then scanRows now rows
          else if invalidRow t i j then Inl (GoErr ''invalid persisted job identity or fence'')
          else bindR (scanRows now rows) (\<lambda>cs. Inr (\<lparr>cd_tenant = t, cd_id = i, cd_version = dr_version r, cd_job = j\<rparr> # cs)))"

definition afterCursor :: "jobCursor \<Rightarrow> kindRow \<Rightarrow> bool" where
  "afterCursor cursor row =
     (fst cursor = '''' \<or> fst (fst row) > fst cursor \<or> fst (fst row) = fst cursor \<and> snd (fst row) > snd cursor)"

definition scanPage :: "jobCursor \<Rightarrow> int \<Rightarrow> Store \<Rightarrow> kindRow list" where
  "scanPage after n s = take (nat n) (sort_key fst (filter (afterCursor after) (rowsOfKind ''resource_job'' s)))"

definition scanJobs :: "time \<Rightarrow> jobCursor \<Rightarrow> int \<Rightarrow> Store \<Rightarrow> (candidate list \<times> jobCursor \<times> int) res" where
  "scanJobs now after n s =
     (let page = scanPage after n s in
      bindR (scanRows now page) (\<lambda>cs. Inr (cs, if page = [] then after else fst (last page), int (length page))))"

definition gatherCandidates :: "time \<Rightarrow> int \<Rightarrow> jobCursor \<Rightarrow> Store \<Rightarrow> (candidate list \<times> jobCursor) res" where
  "gatherCandidates now limit cursor s =
     bindR (scanJobs now cursor (scanBudget limit) s) (\<lambda>(cs, lst, scanned).
       if scanned < scanBudget limit \<and> fst cursor \<noteq> '''' then
         bindR (scanJobs now ('''', '''') (scanBudget limit - scanned) s) (\<lambda>(wrapped, wrappedLast, wrappedScanned).
           Inr (cs @ wrapped, if wrappedScanned > 0 then wrappedLast else lst))
       else Inr (cs, lst))"

definition candidateOrder :: "candidate \<Rightarrow> time \<times> time \<times> string \<times> string" where
  "candidateOrder c = (jb_NextPoll (cd_job c), jb_UpdatedAt (cd_job c), cd_tenant c, cd_id c)"

definition claimedJob :: "string \<Rightarrow> duration \<Rightarrow> time \<Rightarrow> Job \<Rightarrow> Job" where
  "claimedJob owner lease claimedAt j =
     j\<lparr>jb_LeaseOwner := owner, jb_Fence := wrap64 (jb_Fence j + 1), jb_LeaseUntil := claimedAt + lease, jb_UpdatedAt := claimedAt\<rparr>"

fun claimLoop :: "string \<Rightarrow> duration \<Rightarrow> time \<Rightarrow> candidate list \<Rightarrow> Job list txn" where
  "claimLoop owner lease claimedAt [] s = Inr ([], s)"
| "claimLoop owner lease claimedAt (c # cs) s =
     (let j = claimedJob owner lease claimedAt (cd_job c) in
      bindR (durablePut (cd_tenant c) ''resource_job'' (cd_id c) (cd_version c) (JobRec j) s) (\<lambda>s1.
      bindR (claimLoop owner lease claimedAt cs s1) (\<lambda>(js, s2). Inr (j # js, s2))))"

text \<open>The cursor is process memory: it moves once the candidates are gathered, also when the transaction fails later.\<close>

definition claimTx :: "string \<Rightarrow> duration \<Rightarrow> int \<Rightarrow> time res \<Rightarrow> time res \<Rightarrow> jobCursor \<Rightarrow> Store \<Rightarrow> jobCursor \<times> (Job list \<times> Store) res" where
  "claimTx owner lease limit now claimedAt cursor s =
     (case bindR now (\<lambda>n. gatherCandidates n limit cursor s) of
        Inl e \<Rightarrow> (cursor, Inl e)
      | Inr (cs, lst) \<Rightarrow>
          (lst, bindR claimedAt (\<lambda>t. claimLoop owner lease t (take (nat limit) (sort_key candidateOrder cs)) s)))"

definition ClaimJobs :: "txEnv \<Rightarrow> string \<Rightarrow> duration \<Rightarrow> int \<Rightarrow> time res \<Rightarrow> time res \<Rightarrow> jobCursor \<Rightarrow> Store \<Rightarrow> jobCursor \<times> Job list res \<times> Store" where
  "ClaimJobs env owner lease limit now claimedAt cursor s =
     (if owner = '''' \<or> lease \<le> 0 \<or> limit \<le> 0 then (cursor, Inl (GoErr ''invalid job lease''), s)
      else (if tx_begin env = None then fst (claimTx owner lease limit now claimedAt cursor s) else cursor,
            withTx env (\<lambda>s0. snd (claimTx owner lease limit now claimedAt cursor s0)) s))"

section \<open>Updates under a lease\<close>

definition staleLease :: go_error where
  "staleLease = GoErr ''stale job lease''"

definition sameJob :: "Job \<Rightarrow> Job \<Rightarrow> bool" where
  "sameJob j old =
     (jb_TenantID j = jb_TenantID old \<and> jb_ConnectionID j = jb_ConnectionID old \<and> jb_AccountID j = jb_AccountID old
      \<and> jb_ResourceID j = jb_ResourceID old \<and> jb_RequestID j = jb_RequestID old \<and> jb_Operation j = jb_Operation old
      \<and> jb_CreatedAt j = jb_CreatedAt old \<and> jb_AttemptID j = jb_AttemptID old)"

text \<open>The owner may give a lease back, and neither transfer nor extend it.\<close>

definition leaseChange :: "Job \<Rightarrow> Job \<Rightarrow> Job res" where
  "leaseChange j old =
     (if jb_LeaseOwner j = '''' \<and> isZeroTime (jb_LeaseUntil j) then Inr (j\<lparr>jb_LeaseOwner := '''', jb_LeaseUntil := zeroTime\<rparr>)
      else if jb_LeaseOwner j \<noteq> jb_LeaseOwner old \<or> jb_LeaseUntil j \<noteq> jb_LeaseUntil old then Inl (GoErr ''invalid job lease mutation'')
      else Inr (j\<lparr>jb_LeaseOwner := jb_LeaseOwner old, jb_LeaseUntil := jb_LeaseUntil old\<rparr>))"

definition millisecond :: duration where
  "millisecond = 1000000"

text \<open>SQLite reads its clock in milliseconds, so a lease counts as expired within its last tick.\<close>

definition updateJobTx :: "bool \<Rightarrow> time res \<Rightarrow> Job \<Rightarrow> string \<Rightarrow> int64 \<Rightarrow> unit txn" where
  "updateJobTx postgres now j owner fence s =
     bindR (durableGet asJob (jb_TenantID j) ''resource_job'' (jobID j) s) (\<lambda>(v, old).
     bindR now (\<lambda>n.
       if jb_LeaseOwner old \<noteq> owner \<or> jb_Fence old \<noteq> fence \<or> \<not> jb_LeaseUntil old > (if postgres then n else n + millisecond) then Inl staleLease
       else if \<not> sameJob j old then Inl (GoErr ''immutable job identity'')
       else bindR (leaseChange j old) (\<lambda>j'.
         putTx (jb_TenantID old) ''resource_job'' (jobID old) v (JobRec (j'\<lparr>jb_Fence := jb_Fence old, jb_UpdatedAt := n\<rparr>)) s)))"

definition UpdateJob :: "txEnv \<Rightarrow> bool \<Rightarrow> time res \<Rightarrow> Job \<Rightarrow> string \<Rightarrow> int64 \<Rightarrow> Store \<Rightarrow> unit res \<times> Store" where
  "UpdateJob env postgres now j owner fence s =
     (if owner = '''' \<or> fence \<le> 0 \<or> jb_Fence j \<noteq> fence then (Inl staleLease, s)
      else withTx env (updateJobTx postgres now j owner fence) s)"

text \<open>\<open>UnknownCreate\<close> and the reconciler of \<open>resource/resource.go\<close>.\<close>

definition UnknownCreate :: "string \<Rightarrow> string \<Rightarrow> string \<Rightarrow> string \<Rightarrow> string \<Rightarrow> time \<Rightarrow> Job" where
  "UnknownCreate tenant connection account operation request now =
     \<lparr>jb_TenantID = tenant, jb_ConnectionID = connection, jb_AccountID = account, jb_ResourceID = ''unknown:'' @ request,
      jb_Operation = operation, jb_Status = ''outcome_unknown'', jb_RequestID = request, jb_Usage = None, jb_CreatedAt = now,
      jb_UpdatedAt = now, jb_NextPoll = zeroTime, jb_LeaseOwner = '''', jb_Fence = 0, jb_LeaseUntil = zeroTime,
      jb_SettlementPending = False, jb_AttemptID = '''', jb_Metadata = ''''\<rparr>"

definition reconcileJob :: "txEnv \<Rightarrow> bool \<Rightarrow> time res \<Rightarrow> time \<Rightarrow> Job \<Rightarrow> string \<Rightarrow> int64 \<Rightarrow> string \<Rightarrow> Usage option \<Rightarrow> Store \<Rightarrow> unit res \<times> Store" where
  "reconcileJob env postgres dbNow now job owner fence status usage s =
     (if owner = '''' \<or> fence \<le> 0 then (Inl (GoErr ''invalid reconciliation fence''), s)
      else if jb_LeaseOwner job \<noteq> owner \<or> jb_Fence job \<noteq> fence then (Inl (GoErr ''stale reconciliation lease''), s)
      else if (jb_Status job = ''completed'' \<or> jb_Status job = ''failed'' \<or> jb_Status job = ''cancelled'') \<and> \<not> jb_SettlementPending job then (Inr (), s)
      else UpdateJob env postgres dbNow
             (job\<lparr>jb_Status := status, jb_Usage := usage, jb_UpdatedAt := now, jb_LeaseOwner := '''', jb_LeaseUntil := zeroTime\<rparr>) owner fence s)"

section \<open>Administrative actions\<close>

fun decodeJobs :: "kindRow list \<Rightarrow> (int64 \<times> Job) list res" where
  "decodeJobs [] = Inr []"
| "decodeJobs (((t, i), r) # rows) =
     (case asJob (dr_data r) of
        None \<Rightarrow> Inl decodeError
      | Some j \<Rightarrow> bindR (decodeJobs rows) (\<lambda>js. Inr ((dr_version r, j) # js)))"

definition jobActionTx :: "string \<Rightarrow> string \<Rightarrow> (Job \<times> int64) txn" where
  "jobActionTx tenant rid s =
     bindR (decodeJobs (rowsOfTenant tenant ''resource_job'' s)) (\<lambda>js.
       case filter (\<lambda>(v, j). jb_ResourceID j = rid) js of
         [] \<Rightarrow> Inl ErrNoRows
       | [(v, j)] \<Rightarrow> Inr ((j, v), s)
       | _ \<Rightarrow> Inl (Problem ''conflict'' 409 ''ambiguous upstream resource ID''))"

definition GetJobAction :: "txEnv \<Rightarrow> Principal \<Rightarrow> string \<Rightarrow> Store \<Rightarrow> (Job \<times> int64) res \<times> Store" where
  "GetJobAction env p rid s =
     (if pr_TenantID p = '''' \<or> rid = '''' then (Inl (GoErr ''job identity required''), s)
      else withTx env (jobActionTx (pr_TenantID p) rid) s)"

definition jobChanged :: go_error where
  "jobChanged = Problem ''version_conflict'' 412 ''job changed''"

text \<open>\<open>time.Now\<close> is read for the lease and again for the time of the update.\<close>

definition actionLease :: "Principal \<Rightarrow> time \<Rightarrow> time \<Rightarrow> Job \<Rightarrow> Job" where
  "actionLease p leaseNow updatedAt j =
     j\<lparr>jb_LeaseOwner := ''admin:'' @ pr_SubjectID p, jb_Fence := wrap64 (jb_Fence j + 1), jb_LeaseUntil := leaseNow + 30 * second, jb_UpdatedAt := updatedAt\<rparr>"

definition claimActionTx :: "Principal \<Rightarrow> time \<Rightarrow> time \<Rightarrow> int64 \<Rightarrow> Job \<Rightarrow> (Job \<times> int64) txn" where
  "claimActionTx p leaseNow updatedAt expected j s =
     (let key = (pr_TenantID p, ''resource_job'', jobID j); j' = actionLease p leaseNow updatedAt j in
      case map_of (st_durable s) key of
        None \<Rightarrow> Inl ErrNoRows
      | Some r \<Rightarrow>
          if expected > 0 \<and> dr_version r \<noteq> expected then Inl jobChanged
          else Inr ((j', dr_version r + 1), s\<lparr>st_durable := AList.update key \<lparr>dr_version = dr_version r + 1, dr_data = JobRec j'\<rparr> (st_durable s)\<rparr>))"

text \<open>
  The caller of \<open>ClaimJobAction\<close>, \<open>jobAction\<close> of \<open>app/action_operations.go\<close>, reads the job first and
  goes on only when the version the administrator names is the stored one and is positive.
\<close>

definition jobActionRead :: "Principal \<Rightarrow> string \<Rightarrow> int64 \<Rightarrow> (Job \<times> int64) res \<Rightarrow> Job res" where
  "jobActionRead p rid version read =
     (case read of
        Inl e \<Rightarrow> Inl (if e = ErrNoRows then Problem ''not_found'' 404 ''Job not found''
                      else Problem ''configuration_stale'' 503 ''Job storage is unavailable'')
      | Inr (job, storedVersion) \<Rightarrow>
          if storedVersion \<le> 0 \<or> version \<le> 0 \<or> storedVersion \<noteq> version then
            Inl (Problem ''version_conflict'' 412 ''Job changed; reload before acting'')
          else if jb_TenantID job \<noteq> pr_TenantID p \<or> jb_ConnectionID job = '''' \<or> jb_AccountID job = '''' \<or> jb_ResourceID job \<noteq> rid then
            Inl (Problem ''configuration_stale'' 503 ''Stored job identity is invalid'')
          else Inr job)"

text \<open>\<open>seen\<close> is the store the first transaction reads, \<open>s\<close> the store of the second.\<close>

definition ClaimJobAction :: "txEnv \<Rightarrow> txEnv \<Rightarrow> time \<Rightarrow> time \<Rightarrow> time \<Rightarrow> Principal \<Rightarrow> string \<Rightarrow> int64 \<Rightarrow> Store \<Rightarrow> Store \<Rightarrow> (Job \<times> int64) res \<times> Store" where
  "ClaimJobAction env1 env2 now leaseNow updatedAt p rid expected seen s =
     (case fst (GetJobAction env1 p rid seen) of
        Inl e \<Rightarrow> (Inl e, s)
      | Inr (j, v) \<Rightarrow>
          if expected > 0 \<and> v \<noteq> expected then (Inl jobChanged, s)
          else if jb_LeaseOwner j \<noteq> '''' \<and> jb_LeaseUntil j > now then (Inl (Problem ''conflict'' 409 ''job is already leased''), s)
          else withTx env2 (claimActionTx p leaseNow updatedAt expected j) s)"

section \<open>Upload continuations\<close>

definition continuationID :: "Continuation \<Rightarrow> string" where
  "continuationID c = durableKey [ct_TenantID c, ct_ConnectionID c, ct_AccountID c, ct_ID c]"

definition PutContinuation :: "txEnv \<Rightarrow> time \<Rightarrow> Continuation \<Rightarrow> Store \<Rightarrow> unit res \<times> Store" where
  "PutContinuation env now c s =
     (if ct_TenantID c = '''' \<or> ct_ConnectionID c = '''' \<or> ct_AccountID c = '''' \<or> ct_ID c = '''' \<or> \<not> ct_ExpiresAt c > now then
        (Inl (GoErr ''invalid continuation''), s)
      else withTx env (putTx (ct_TenantID c) ''resource_continuation'' (continuationID c) 0 (ContinuationRec c)) s)"

definition findContinuation :: "string \<Rightarrow> string \<Rightarrow> string \<Rightarrow> Store \<Rightarrow> (string \<times> Continuation) res" where
  "findContinuation tenant connection rid s =
     firstMatch asContinuation (\<lambda>c. ct_ConnectionID c = connection \<and> ct_ID c = rid) (rowsOfTenant tenant ''resource_continuation'' s)"

definition GetContinuation :: "txEnv \<Rightarrow> time \<Rightarrow> string \<Rightarrow> string \<Rightarrow> string \<Rightarrow> Store \<Rightarrow> Continuation res \<times> Store" where
  "GetContinuation env now tenant connection rid s =
     (case withTx env (\<lambda>s0. bindR (findContinuation tenant connection rid s0) (\<lambda>(_, c). Inr (c, s0))) s of
        (Inl e, s') \<Rightarrow> (Inl e, s')
      | (Inr c, s') \<Rightarrow> if \<not> ct_ExpiresAt c > now then (Inl ErrNoRows, s') else (Inr c, s'))"

definition DeleteContinuation :: "txEnv \<Rightarrow> string \<Rightarrow> string \<Rightarrow> string \<Rightarrow> Store \<Rightarrow> unit res \<times> Store" where
  "DeleteContinuation env tenant connection rid s =
     withTx env (\<lambda>s0.
       bindR (findContinuation tenant connection rid s0) (\<lambda>(key, _).
         if key = '''' then Inl ErrNoRows else Inr ((), durableDelete tenant ''resource_continuation'' key s0))) s"

section \<open>Claims\<close>

declare split_paired_All [simp del] split_paired_Ex [simp del]

text \<open>The row of a job, by tenant and identifier, and a store whose job rows are filed under their own identity.\<close>

definition jobRow :: "Store \<Rightarrow> string \<times> string \<Rightarrow> durableRow option" where
  "jobRow s k = map_of (st_durable s) (fst k, ''resource_job'', snd k)"

definition jobKey :: "Job \<Rightarrow> string \<times> string" where
  "jobKey j = (jb_TenantID j, jobID j)"

definition candKey :: "candidate \<Rightarrow> string \<times> string" where
  "candKey c = (cd_tenant c, cd_id c)"

definition filed :: "string \<times> string \<Rightarrow> durableRow \<Rightarrow> bool" where
  "filed k r = (\<exists>j. dr_data r = JobRec j \<and> jobKey j = k \<and> i64 (jb_Fence j))"

definition jobsOk :: "Store \<Rightarrow> bool" where
  "jobsOk s = (distinct (map fst (st_durable s)) \<and> (\<forall>k r. jobRow s k = Some r \<longrightarrow> filed k r))"

lemma filed_job [simp]: "filed k \<lparr>dr_version = v, dr_data = JobRec j\<rparr> \<longleftrightarrow> jobKey j = k \<and> i64 (jb_Fence j)"
  by (auto simp: filed_def)

lemma jobsOkD: "jobsOk s \<Longrightarrow> jobRow s k = Some r \<Longrightarrow> filed k r"
  by (simp add: jobsOk_def)

lemma rowsOfKind_mem:
  assumes "distinct (map fst (st_durable s))"
  shows "((t, i), r) \<in> set (rowsOfKind kind s) \<longleftrightarrow> map_of (st_durable s) (t, kind, i) = Some r"
  using assms by (force simp: rowsOfKind_def)

lemma scanPage_mem: "distinct (map fst (st_durable s)) \<Longrightarrow> (k, r) \<in> set (scanPage after n s) \<Longrightarrow> jobRow s k = Some r"
  using rowsOfKind_mem [of s "fst k" "snd k" r "''resource_job''"] by (auto simp: scanPage_def jobRow_def dest: in_set_takeD)

text \<open>What a candidate is: a row that is due and passes the checks.\<close>

definition candidateOk :: "time \<Rightarrow> Store \<Rightarrow> candidate \<Rightarrow> bool" where
  "candidateOk now s c \<longleftrightarrow>
     jobRow s (candKey c) = Some \<lparr>dr_version = cd_version c, dr_data = JobRec (cd_job c)\<rparr> \<and> \<not> notDue now (cd_job c)
     \<and> jobKey (cd_job c) = candKey c \<and> 0 \<le> jb_Fence (cd_job c) \<and> jb_Fence (cd_job c) \<noteq> maxInt64"

lemma asJob_Some: "asJob d = Some j \<longleftrightarrow> d = JobRec j"
  by (cases d) auto

lemma scanRows_ok:
  assumes "scanRows now rows = Inr cs" "\<forall>(k, r) \<in> set rows. jobRow s k = Some r"
  shows "\<forall>c \<in> set cs. candidateOk now s c"
  using assms
proof (induction now rows arbitrary: cs rule: scanRows.induct)
  case (2 now t i r rows)
  then show ?case
    by (cases r) (auto simp: bindR_Inr asJob_Some candidateOk_def candKey_def jobKey_def invalidRow_def split: option.splits if_splits)
qed simp

lemma scanJobs_ok:
  assumes "scanJobs now after n s = Inr out" "distinct (map fst (st_durable s))"
  shows "\<forall>c \<in> set (fst out). candidateOk now s c"
proof -
  obtain cs where cs: "scanRows now (scanPage after n s) = Inr cs" "fst out = cs"
    using assms(1) by (auto simp: scanJobs_def bindR_Inr Let_def)
  have "\<forall>(k, r) \<in> set (scanPage after n s). jobRow s k = Some r" using scanPage_mem [OF assms(2)] by blast
  with cs scanRows_ok [OF cs(1)] show ?thesis by blast
qed

lemma gatherCandidates_ok:
  assumes "gatherCandidates now limit cursor s = Inr (cs, lst)" "distinct (map fst (st_durable s))"
  shows "\<forall>c \<in> set cs. candidateOk now s c"
proof -
  obtain out where out: "scanJobs now cursor (scanBudget limit) s = Inr out"
    and "cs = fst out \<or> (\<exists>out'. scanJobs now ([], []) (scanBudget limit - snd (snd out)) s = Inr out' \<and> cs = fst out @ fst out')"
    using assms(1) by (fastforce simp: gatherCandidates_def bindR_Inr split: if_splits)
  with scanJobs_ok [OF _ assms(2)] show ?thesis by fastforce
qed

lemma durablePut_job:
  assumes "durablePut t ''resource_job'' i v d s = Inr s'" "jobRow s (t, i) = Some r"
  shows "dr_version r = v" "jobRow s' (t, i) = Some \<lparr>dr_version = v + 1, dr_data = d\<rparr>"
    and "\<And>k. k \<noteq> (t, i) \<Longrightarrow> jobRow s' k = jobRow s k" "distinct (map fst (st_durable s)) \<Longrightarrow> distinct (map fst (st_durable s'))"
  using assms by (auto simp: durablePut_def jobRow_def distinct_update map_of_update split: if_splits)

text \<open>A loop that ends without a conflict has met every row once.\<close>

lemma claimLoop_effect:
  assumes "claimLoop owner lease t cs s = Inr (js, s')" "\<forall>c \<in> set cs. \<exists>r. jobRow s (candKey c) = Some r \<and> cd_version c = f (candKey c)"
  shows "distinct (map candKey cs) \<and> js = map (claimedJob owner lease t \<circ> cd_job) cs
    \<and> (\<forall>c \<in> set cs. jobRow s' (candKey c) = Some \<lparr>dr_version = cd_version c + 1, dr_data = JobRec (claimedJob owner lease t (cd_job c))\<rparr>)
    \<and> (\<forall>k. k \<notin> candKey ` set cs \<longrightarrow> jobRow s' k = jobRow s k)
    \<and> (\<forall>c \<in> set cs. \<exists>r. jobRow s (candKey c) = Some r \<and> dr_version r = cd_version c)
    \<and> (distinct (map fst (st_durable s)) \<longrightarrow> distinct (map fst (st_durable s')))"
  using assms
proof (induction cs arbitrary: s js)
  case (Cons c cs)
  obtain s1 js1 where put: "durablePut (cd_tenant c) ''resource_job'' (cd_id c) (cd_version c) (JobRec (claimedJob owner lease t (cd_job c))) s = Inr s1"
    and rest: "claimLoop owner lease t cs s1 = Inr (js1, s')" and js: "js = claimedJob owner lease t (cd_job c) # js1"
    using Cons.prems(1) by (auto simp: Let_def bindR_Inr)
  obtain r where r: "jobRow s (cd_tenant c, cd_id c) = Some r" using Cons.prems(2) by (auto simp: candKey_def)
  note eff = durablePut_job [OF put r, folded candKey_def]
  have "\<exists>r. jobRow s1 (candKey c') = Some r \<and> cd_version c' = f (candKey c')" if "c' \<in> set cs" for c'
    using that Cons.prems(2) eff(2) eff(3) [of "candKey c'"] by (cases "candKey c' = candKey c") auto
  note IH = Cons.IH [OF rest, OF ballI [OF this]]
  have new: "candKey c \<notin> candKey ` set cs"
  proof
    assume "candKey c \<in> candKey ` set cs"
    then obtain c' where c': "c' \<in> set cs" "candKey c' = candKey c" by auto
    then have "cd_version c' = cd_version c" using Cons.prems(2) by (metis list.set_intros)
    moreover have "\<exists>r. jobRow s1 (candKey c') = Some r \<and> dr_version r = cd_version c'" using IH c'(1) by blast
    ultimately show False using c'(2) eff(2) by simp
  qed
  have old: "jobRow s1 (candKey c') = jobRow s (candKey c')" if "c' \<in> set cs" for c'
    by (rule eff(3)) (metis new that image_eqI)
  from IH js new eff r old show ?case by (auto simp: candKey_def [symmetric])
qed auto

lemma ClaimJobs_Inr:
  assumes "ClaimJobs env owner lease limit now claimedAt cursor s = (cursor', Inr js, s')" "distinct (map fst (st_durable s))"
  obtains n t cs where "now = Inr n" "claimedAt = Inr t" "claimLoop owner lease t cs s = Inr (js, s')"
    "\<forall>c \<in> set cs. candidateOk n s c" "int (length cs) \<le> limit"
proof -
  have "withTx env (\<lambda>s0. snd (claimTx owner lease limit now claimedAt cursor s0)) s = (Inr js, s')" and pos: "0 < limit"
    using assms(1) by (auto simp: ClaimJobs_def split: if_splits)
  then have "snd (claimTx owner lease limit now claimedAt cursor s) = Inr (js, s')" by (blast dest: withTx_okD)
  then obtain n t cs lst where g: "now = Inr n" "gatherCandidates n limit cursor s = Inr (cs, lst)" "claimedAt = Inr t"
    "claimLoop owner lease t (take (nat limit) (sort_key candidateOrder cs)) s = Inr (js, s')"
    by (auto simp: claimTx_def bindR_Inr split: sum.splits)
  have "\<forall>c \<in> set (take (nat limit) (sort_key candidateOrder cs)). candidateOk n s c"
    using gatherCandidates_ok [OF g(2) assms(2)] by (auto dest: in_set_takeD)
  with g pos that show ?thesis by fastforce
qed

lemma claimed_effect:
  assumes "claimLoop owner lease t cs s = Inr (js, s')" "\<forall>c \<in> set cs. candidateOk n s c"
  shows "distinct (map candKey cs) \<and> js = map (claimedJob owner lease t \<circ> cd_job) cs
    \<and> (\<forall>c \<in> set cs. jobRow s' (candKey c) = Some \<lparr>dr_version = cd_version c + 1, dr_data = JobRec (claimedJob owner lease t (cd_job c))\<rparr>)
    \<and> (\<forall>k. k \<notin> candKey ` set cs \<longrightarrow> jobRow s' k = jobRow s k)
    \<and> (distinct (map fst (st_durable s)) \<longrightarrow> distinct (map fst (st_durable s')))"
  using claimLoop_effect [OF assms(1), of "\<lambda>k. dr_version (the (jobRow s k))"] assms(2) by (simp add: candidateOk_def)

lemma jobKey_claimed [simp]: "jobKey (claimedJob owner lease t j) = jobKey j" "jobID (claimedJob owner lease t j) = jobID j"
  by (simp_all add: jobKey_def claimedJob_def jobID_def)

lemma fence_claimed: "0 \<le> jb_Fence j \<Longrightarrow> jb_Fence j \<noteq> maxInt64 \<Longrightarrow> i64 (jb_Fence j) \<Longrightarrow> jb_Fence (claimedJob owner lease t j) = jb_Fence j + 1"
  by (auto simp: claimedJob_def wrap64_id i64_def maxInt64_def)

text \<open>
  C38: What a claim gives: the jobs returned were due and not leased at the time the claim read the clock, there
  are no more of them than asked for, no job twice; each of them is now stored exactly as returned, leased to the
  claimant with the next fence, and no other job has changed.
\<close>

theorem claimed_jobs_leased:
  assumes "jobsOk s" "ClaimJobs env owner lease limit (Inr now) (Inr claimedAt) cursor s = (cursor', Inr js, s')"
  shows "int (length js) \<le> limit \<and> distinct (map jobKey js)
     \<and> (\<forall>j \<in> set js. \<exists>v old. jobRow s (jobKey j) = Some \<lparr>dr_version = v, dr_data = JobRec old\<rparr> \<and> \<not> notDue now old
          \<and> j = old\<lparr>jb_LeaseOwner := owner, jb_Fence := jb_Fence old + 1, jb_LeaseUntil := claimedAt + lease, jb_UpdatedAt := claimedAt\<rparr>
          \<and> jobRow s' (jobKey j) = Some \<lparr>dr_version = v + 1, dr_data = JobRec j\<rparr>)
     \<and> (\<forall>k. k \<notin> jobKey ` set js \<longrightarrow> jobRow s' k = jobRow s k)"
proof -
  have dist: "distinct (map fst (st_durable s))" using assms(1) by (simp add: jobsOk_def)
  obtain cs where run: "claimLoop owner lease claimedAt cs s = Inr (js, s')" and ok: "\<forall>c \<in> set cs. candidateOk now s c"
    and len: "int (length cs) \<le> limit" by (rule ClaimJobs_Inr [OF assms(2) dist]) auto
  note eff = claimed_effect [OF run ok]
  have js: "js = map (claimedJob owner lease claimedAt \<circ> cd_job) cs" using eff by simp
  have key: "jobKey (cd_job c) = candKey c" if "c \<in> set cs" for c using ok that by (auto simp: candidateOk_def)
  have keys: "map jobKey js = map candKey cs" using key by (simp add: js)
  have one: "\<exists>v old. jobRow s (jobKey j) = Some \<lparr>dr_version = v, dr_data = JobRec old\<rparr> \<and> \<not> notDue now old
          \<and> j = old\<lparr>jb_LeaseOwner := owner, jb_Fence := jb_Fence old + 1, jb_LeaseUntil := claimedAt + lease, jb_UpdatedAt := claimedAt\<rparr>
          \<and> jobRow s' (jobKey j) = Some \<lparr>dr_version = v + 1, dr_data = JobRec j\<rparr>" if "j \<in> set js" for j
  proof -
    obtain c where c: "c \<in> set cs" "j = claimedJob owner lease claimedAt (cd_job c)" using \<open>j \<in> set js\<close> js by auto
    have row: "jobRow s (candKey c) = Some \<lparr>dr_version = cd_version c, dr_data = JobRec (cd_job c)\<rparr>" "\<not> notDue now (cd_job c)"
      and fence: "0 \<le> jb_Fence (cd_job c)" "jb_Fence (cd_job c) \<noteq> maxInt64" using ok c(1) by (auto simp: candidateOk_def)
    have "i64 (jb_Fence (cd_job c))" using jobsOkD [OF assms(1) row(1)] by simp
    then have "wrap64 (jb_Fence (cd_job c) + 1) = jb_Fence (cd_job c) + 1" using fence_claimed [OF fence] by (simp add: claimedJob_def)
    then have eq: "j = (cd_job c)\<lparr>jb_LeaseOwner := owner, jb_Fence := jb_Fence (cd_job c) + 1, jb_LeaseUntil := claimedAt + lease, jb_UpdatedAt := claimedAt\<rparr>"
      by (simp add: c claimedJob_def)
    have "jobRow s' (candKey c) = Some \<lparr>dr_version = cd_version c + 1, dr_data = JobRec j\<rparr>" using eff c by blast
    moreover have "jobKey j = candKey c" using c key by simp
    ultimately show ?thesis using row eq by metis
  qed
  have "jobKey ` set js = candKey ` set cs" using keys by (metis set_map)
  moreover have "distinct (map jobKey js)" unfolding keys using eff by blast
  moreover have "length js = length cs" by (simp add: js)
  ultimately show ?thesis using eff len one by simp
qed

section \<open>Fencing\<close>

text \<open>
  Between two states of the store every job row is the same or has a higher version and no lower fence. A run
  keeps the stores it has passed, since an administrative action may have read any of them before it writes. The
  action is claimed as \<open>jobAction\<close> claims it, after \<open>jobActionRead\<close> has let the version pass on a store read
  before. Two conditions bound the arithmetic: a created job has a fence that fits an \<open>int64\<close>, and a grant to an
  administrator does not wrap the fence around, which takes \<open>2 ^ 63\<close> grants; \<open>ClaimJobs\<close> itself refuses the last fence.
\<close>

definition fenceOf :: "durableRow \<Rightarrow> int" where
  "fenceOf r = (case asJob (dr_data r) of None \<Rightarrow> 0 | Some j \<Rightarrow> jb_Fence j)"

definition rowAdvanced :: "durableRow option \<Rightarrow> durableRow option \<Rightarrow> bool" where
  "rowAdvanced a b =
     (case a of None \<Rightarrow> True | Some r \<Rightarrow> (case b of None \<Rightarrow> False | Some r' \<Rightarrow> r' = r \<or> dr_version r < dr_version r' \<and> fenceOf r \<le> fenceOf r'))"

definition advanced :: "Store \<Rightarrow> Store \<Rightarrow> bool" where
  "advanced s s' = (\<forall>k. rowAdvanced (jobRow s k) (jobRow s' k))"

definition jobGen :: "Store \<Rightarrow> string \<times> string \<Rightarrow> int" where
  "jobGen s k = (case jobRow s k of None \<Rightarrow> - 9223372036854775808 | Some r \<Rightarrow> fenceOf r)"

definition jobInv :: "Store \<times> Store list \<Rightarrow> bool" where
  "jobInv st = (jobsOk (fst st) \<and> (\<forall>s0 \<in> set (snd st). jobsOk s0 \<and> advanced s0 (fst st)))"

inductive job_step :: "Store \<times> Store list \<Rightarrow> ((string \<times> string) \<times> int) list \<Rightarrow> Store \<times> Store list \<Rightarrow> bool" where
  put: "PutJob env j s = (res, s') \<Longrightarrow> i64 (jb_Fence j) \<Longrightarrow> job_step (s, past) [] (s', s # past)"
| claim: "ClaimJobs env owner lease limit now claimedAt cursor s = (cursor', Inr js, s')
    \<Longrightarrow> job_step (s, past) (map (\<lambda>j. (jobKey j, jb_Fence j)) js) (s', s # past)"
| no_claim: "ClaimJobs env owner lease limit now claimedAt cursor s = (cursor', Inl e, s') \<Longrightarrow> job_step (s, past) [] (s', s # past)"
| update: "UpdateJob env postgres now j owner fence s = (res, s') \<Longrightarrow> job_step (s, past) [] (s', s # past)"
| action: "seen \<in> set (s # past) \<Longrightarrow> jobActionRead p rid expected (fst (GetJobAction env0 p rid before)) = Inr job
    \<Longrightarrow> ClaimJobAction env1 env2 now leaseNow updatedAt p rid expected seen s = (Inr (j, v), s')
    \<Longrightarrow> jb_Fence j \<noteq> - 9223372036854775808 \<Longrightarrow> job_step (s, past) [(jobKey j, jb_Fence j)] (s', s # past)"
| no_action: "ClaimJobAction env1 env2 now leaseNow updatedAt p rid expected seen s = (Inl e, s') \<Longrightarrow> job_step (s, past) [] (s', s # past)"
| other: "(\<And>k. jobRow s' k = jobRow s k) \<Longrightarrow> distinct (map fst (st_durable s')) \<Longrightarrow> job_step (s, past) [] (s', s # past)"

lemma rowAdvanced_refl [simp]: "rowAdvanced a a"
  by (simp add: rowAdvanced_def split: option.splits)

lemma rowAdvanced_trans: "rowAdvanced a b \<Longrightarrow> rowAdvanced b c \<Longrightarrow> rowAdvanced a c"
  by (auto simp: rowAdvanced_def split: option.splits)

lemma rowAdvanced_None [simp]: "rowAdvanced None b"
  by (simp add: rowAdvanced_def)

lemma fenceOf_job [simp]: "fenceOf \<lparr>dr_version = v, dr_data = JobRec j\<rparr> = jb_Fence j"
  by (simp add: fenceOf_def)

lemma advanced_refl [simp]: "advanced s s"
  by (simp add: advanced_def)

lemma advanced_trans: "advanced s s1 \<Longrightarrow> advanced s1 s2 \<Longrightarrow> advanced s s2"
  unfolding advanced_def by (blast intro: rowAdvanced_trans)

lemma filed_floor: "filed k r \<Longrightarrow> - 9223372036854775808 \<le> fenceOf r"
  by (auto simp: filed_def fenceOf_def i64_def)

lemma advanced_gen:
  assumes "jobsOk s'" "advanced s s'"
  shows "jobGen s k \<le> jobGen s' k"
proof -
  have "rowAdvanced (jobRow s k) (jobRow s' k)" using assms(2) by (simp add: advanced_def)
  then show ?thesis using jobsOkD [OF assms(1), of k]
    by (auto simp: jobGen_def rowAdvanced_def filed_floor split: option.splits)
qed

text \<open>A write to one row.\<close>

lemma written_row:
  assumes "jobsOk s" "jobRow s' k = Some r'" "filed k r'" "\<And>k'. k' \<noteq> k \<Longrightarrow> jobRow s' k' = jobRow s k'" "distinct (map fst (st_durable s'))"
    "rowAdvanced (jobRow s k) (Some r')"
  shows "jobsOk s' \<and> advanced s s'"
proof -
  have "filed k' r" if "jobRow s' k' = Some r" for k' r
    using that assms(2,3,4) jobsOkD [OF assms(1), of k' r] by (cases "k' = k") auto
  moreover have "rowAdvanced (jobRow s k') (jobRow s' k')" for k' using assms(2,4,6) by (cases "k' = k") auto
  ultimately show ?thesis using assms(5) by (simp add: jobsOk_def advanced_def)
qed

lemma put_advances:
  assumes "jobsOk s" "PutJob env j s = (res, s')" "i64 (jb_Fence j)"
  shows "jobsOk s' \<and> advanced s s'"
proof (cases "s' = s")
  case False
  have dist: "distinct (map fst (st_durable s))" using assms(1) by (simp add: jobsOk_def)
  obtain u where "withTx env (putTx (jb_TenantID j) ''resource_job'' (jobID j) 0 (JobRec j)) s = (Inr u, s')"
    using False assms(2) withTx_cases [of env "putTx (jb_TenantID j) ''resource_job'' (jobID j) 0 (JobRec j)" s]
    by (auto simp: PutJob_def split: if_splits)
  from withTx_okD [OF this] have put: "durablePut (jb_TenantID j) ''resource_job'' (jobID j) 0 (JobRec j) s = Inr s'"
    by (simp add: putTx_def bindR_Inr)
  from put have "jobRow s (jobKey j) = None" "jobRow s' (jobKey j) = Some \<lparr>dr_version = 1, dr_data = JobRec j\<rparr>"
    "\<And>k. k \<noteq> jobKey j \<Longrightarrow> jobRow s' k = jobRow s k" "distinct (map fst (st_durable s'))"
    using dist by (auto simp: durablePut_def jobRow_def jobKey_def distinct_update map_of_update split: option.splits if_splits)
  with assms(1,3) written_row [of s s' "jobKey j"] show ?thesis by simp
qed (simp add: assms(1))

lemma update_advances:
  assumes "jobsOk s" "UpdateJob env postgres now j owner fence s = (res, s')"
  shows "jobsOk s' \<and> advanced s s'"
proof (cases "s' = s")
  case False
  have dist: "distinct (map fst (st_durable s))" using assms(1) by (simp add: jobsOk_def)
  obtain u where "withTx env (updateJobTx postgres now j owner fence) s = (Inr u, s')"
    using False assms(2) withTx_cases [of env "updateJobTx postgres now j owner fence" s] by (auto simp: UpdateJob_def split: if_splits)
  from withTx_okD [OF this] obtain v old j' n where get: "durableGet asJob (jb_TenantID j) ''resource_job'' (jobID j) s = Inr (v, old)"
    and same: "sameJob j old" and j': "leaseChange j old = Inr j'"
    and put: "durablePut (jb_TenantID old) ''resource_job'' (jobID old) v (JobRec (j'\<lparr>jb_Fence := jb_Fence old, jb_UpdatedAt := n\<rparr>)) s = Inr s'"
    by (auto simp: updateJobTx_def putTx_def bindR_Inr split: if_splits)
  define new where "new = j'\<lparr>jb_Fence := jb_Fence old, jb_UpdatedAt := n\<rparr>"
  have key: "jobKey j = jobKey old" "jobKey new = jobKey old"
    using same j' by (auto simp: new_def leaseChange_def sameJob_def jobKey_def jobID_def split: if_splits)
  have row: "jobRow s (jobKey old) = Some \<lparr>dr_version = v, dr_data = JobRec old\<rparr>"
    using get unfolding key(1) [symmetric] by (auto simp: durableGet_def jobRow_def jobKey_def asJob_Some split: option.splits)
  note eff = durablePut_job [OF put [folded new_def], folded jobKey_def, OF row]
  have "i64 (jb_Fence old)" using jobsOkD [OF assms(1) row] by simp
  then have "filed (jobKey old) \<lparr>dr_version = v + 1, dr_data = JobRec new\<rparr>" using key by (simp add: new_def)
  moreover have "rowAdvanced (jobRow s (jobKey old)) (Some \<lparr>dr_version = v + 1, dr_data = JobRec new\<rparr>)"
    unfolding row by (simp add: rowAdvanced_def new_def)
  ultimately show ?thesis using written_row [OF assms(1) eff(2) _ eff(3) eff(4) [OF dist]] by simp
qed (simp add: assms(1))

lemma claim_advances:
  assumes "jobsOk s" "ClaimJobs env owner lease limit now claimedAt cursor s = (cursor', Inr js, s')"
  shows "jobsOk s' \<and> advanced s s'" and "distinct (map jobKey js)"
    and "\<And>j. j \<in> set js \<Longrightarrow> jobGen s (jobKey j) < jb_Fence j \<and> jobGen s' (jobKey j) = jb_Fence j"
proof -
  have dist: "distinct (map fst (st_durable s))" using assms(1) by (simp add: jobsOk_def)
  obtain n t cs where run: "claimLoop owner lease t cs s = Inr (js, s')" and ok: "\<forall>c \<in> set cs. candidateOk n s c"
    by (rule ClaimJobs_Inr [OF assms(2) dist])
  note eff = claimed_effect [OF run ok]
  define new :: "candidate \<Rightarrow> Job" where "new c = claimedJob owner lease t (cd_job c)" for c
  have js: "js = map new cs" using eff by (simp add: new_def comp_def)
  have old: "jobRow s (candKey c) = Some \<lparr>dr_version = cd_version c, dr_data = JobRec (cd_job c)\<rparr>" "jobKey (new c) = candKey c"
    "jb_Fence (new c) = jb_Fence (cd_job c) + 1" "i64 (jb_Fence (new c))" if "c \<in> set cs" for c
  proof -
    have c: "candidateOk n s c" using ok that by blast
    then show row: "jobRow s (candKey c) = Some \<lparr>dr_version = cd_version c, dr_data = JobRec (cd_job c)\<rparr>" "jobKey (new c) = candKey c"
      by (simp_all add: candidateOk_def new_def)
    from jobsOkD [OF assms(1) row(1)] have "i64 (jb_Fence (cd_job c))" by simp
    with c show "jb_Fence (new c) = jb_Fence (cd_job c) + 1" by (simp add: candidateOk_def new_def fence_claimed)
    show "i64 (jb_Fence (new c))" by (simp add: new_def claimedJob_def)
  qed
  have now: "jobRow s' (candKey c) = Some \<lparr>dr_version = cd_version c + 1, dr_data = JobRec (new c)\<rparr>" if "c \<in> set cs" for c
    using eff that by (simp add: new_def)
  have rest: "jobRow s' k = jobRow s k" if "k \<notin> candKey ` set cs" for k using eff that by blast
  have "filed k r" if "jobRow s' k = Some r" for k r
    using that now old(2,4) rest [of k] jobsOkD [OF assms(1), of k r] by (cases "k \<in> candKey ` set cs") auto
  moreover have "rowAdvanced (jobRow s k) (jobRow s' k)" for k
    using now old(1,3) rest [of k] by (cases "k \<in> candKey ` set cs") (auto simp: rowAdvanced_def)
  ultimately show "jobsOk s' \<and> advanced s s'" using eff dist by (simp add: jobsOk_def advanced_def)
  have keys: "map jobKey js = map candKey cs" using old(2) by (simp add: js)
  show "distinct (map jobKey js)" unfolding keys using eff by blast
  show "jobGen s (jobKey j) < jb_Fence j \<and> jobGen s' (jobKey j) = jb_Fence j" if "j \<in> set js" for j
    using that old now by (auto simp: js jobGen_def)
qed

lemma decodeJobs_mem: "decodeJobs rows = Inr js \<Longrightarrow> (v, j) \<in> set js \<Longrightarrow> \<exists>k. (k, \<lparr>dr_version = v, dr_data = JobRec j\<rparr>) \<in> set rows"
proof (induction rows arbitrary: js rule: decodeJobs.induct)
  case (2 t i r rows)
  then show ?case by (cases r) (fastforce simp: bindR_Inr asJob_Some split: option.splits)
qed simp

lemma one_match:
  assumes "(case xs of [] \<Rightarrow> Inl e | [(v, j)] \<Rightarrow> Inr ((j, v), s) | _ \<Rightarrow> Inl e') = Inr ((j, v), s')" "xs = [(v, j)] \<Longrightarrow> thesis"
  shows thesis
  using assms by (auto split: list.split_asm prod.split_asm)

lemma GetJobAction_Inr:
  assumes "fst (GetJobAction env p rid s) = Inr (j, v)" "jobsOk s"
  shows "jobRow s (pr_TenantID p, jobID j) = Some \<lparr>dr_version = v, dr_data = JobRec j\<rparr>" "jb_TenantID j = pr_TenantID p"
proof -
  have dist: "distinct (map fst (st_durable s))" using assms(2) by (simp add: jobsOk_def)
  have "jobActionTx (pr_TenantID p) rid s = Inr ((j, v), snd (withTx env (jobActionTx (pr_TenantID p) rid) s))"
    using assms(1) by (intro withTx_Inr) (simp add: GetJobAction_def split: if_splits)
  then obtain js where js: "decodeJobs (rowsOfTenant (pr_TenantID p) ''resource_job'' s) = Inr js" "filter (\<lambda>(v, j). jb_ResourceID j = rid) js = [(v, j)]"
    unfolding jobActionTx_def bindR_Inr by (elim exE conjE) (erule one_match)
  have "(v, j) \<in> set (filter (\<lambda>(v, j). jb_ResourceID j = rid) js)" unfolding js(2) by simp
  then have "(v, j) \<in> set js" by simp
  from decodeJobs_mem [OF js(1) this] obtain i where
    "((pr_TenantID p, i), \<lparr>dr_version = v, dr_data = JobRec j\<rparr>) \<in> set (rowsOfKind ''resource_job'' s)"
    by (auto simp: rowsOfTenant_def)
  then have row: "jobRow s (pr_TenantID p, i) = Some \<lparr>dr_version = v, dr_data = JobRec j\<rparr>"
    by (simp add: rowsOfKind_mem [OF dist] jobRow_def)
  from jobsOkD [OF assms(2) row] have "jobKey j = (pr_TenantID p, i)" by simp
  with row show "jobRow s (pr_TenantID p, jobID j) = Some \<lparr>dr_version = v, dr_data = JobRec j\<rparr>" "jb_TenantID j = pr_TenantID p"
    by (simp_all add: jobKey_def)
qed

lemma action_advances:
  assumes "jobsOk s" "jobsOk seen" "advanced seen s" "0 < expected"
    and "ClaimJobAction env1 env2 now leaseNow updatedAt p rid expected seen s = (Inr (j, v), s')" "jb_Fence j \<noteq> - 9223372036854775808"
  shows "jobsOk s' \<and> advanced s s'" "jobGen s (jobKey j) < jb_Fence j \<and> jobGen s' (jobKey j) = jb_Fence j"
proof -
  have dist: "distinct (map fst (st_durable s))" using assms(1) by (simp add: jobsOk_def)
  obtain old where read: "fst (GetJobAction env1 p rid seen) = Inr (old, expected)"
    and "withTx env2 (claimActionTx p leaseNow updatedAt expected old) s = (Inr (j, v), s')"
    using assms(4,5) by (auto simp: ClaimJobAction_def split: sum.splits if_splits)
  from withTx_okD [OF this(2)] obtain r where r: "jobRow s (pr_TenantID p, jobID old) = Some r" "dr_version r = expected"
    and j: "j = actionLease p leaseNow updatedAt old"
    and s': "s' = s\<lparr>st_durable := AList.update (pr_TenantID p, ''resource_job'', jobID old) \<lparr>dr_version = expected + 1, dr_data = JobRec j\<rparr> (st_durable s)\<rparr>"
    using assms(4) by (auto simp: claimActionTx_def Let_def jobRow_def split: option.splits if_splits)
  note seen = GetJobAction_Inr [OF read assms(2)]
  define k where "k = (pr_TenantID p, jobID old)"
  have key: "jobKey old = k" "jobKey j = k" using seen(2) by (simp_all add: k_def jobKey_def jobID_def j actionLease_def)
  have "rowAdvanced (jobRow seen k) (jobRow s k)" using assms(3) by (simp add: advanced_def)
  then have row: "jobRow s k = Some \<lparr>dr_version = expected, dr_data = JobRec old\<rparr>"
    using seen(1) r by (auto simp: k_def rowAdvanced_def)
  have "i64 (jb_Fence old)" using jobsOkD [OF assms(1) row] by simp
  then have fence: "jb_Fence j = jb_Fence old + 1"
    using assms(6) by (cases "jb_Fence old = maxInt64") (auto simp: j actionLease_def wrap64_id i64_def maxInt64_def wrap64_def)
  have new: "jobRow s' k = Some \<lparr>dr_version = expected + 1, dr_data = JobRec j\<rparr>" "distinct (map fst (st_durable s'))"
    using dist by (simp_all add: s' k_def jobRow_def map_of_update distinct_update)
  have rest: "jobRow s' k' = jobRow s k'" if "k' \<noteq> k" for k'
    using that by (cases k') (auto simp: s' k_def jobRow_def map_of_update)
  have "filed k \<lparr>dr_version = expected + 1, dr_data = JobRec j\<rparr>" using key by (simp add: j actionLease_def)
  moreover have "rowAdvanced (jobRow s k) (Some \<lparr>dr_version = expected + 1, dr_data = JobRec j\<rparr>)" using row fence by (simp add: rowAdvanced_def)
  ultimately show "jobsOk s' \<and> advanced s s'" using written_row [OF assms(1) new(1) _ rest new(2)] by blast
  show "jobGen s (jobKey j) < jb_Fence j \<and> jobGen s' (jobKey j) = jb_Fence j" using row new fence key by (simp add: jobGen_def)
qed

lemma ClaimJobs_Inl: "ClaimJobs env owner lease limit now claimedAt cursor s = (cursor', Inl e, s') \<Longrightarrow> s' = s"
  by (auto simp: ClaimJobs_def split: if_splits dest: withTx_Inl)

lemma ClaimJobAction_Inl: "ClaimJobAction env1 env2 now leaseNow updatedAt p rid expected seen s = (Inl e, s') \<Longrightarrow> s' = s"
  by (auto simp: ClaimJobAction_def split: sum.splits if_splits dest: withTx_Inl)

lemma jobActionRead_positive: "jobActionRead p rid version read = Inr job \<Longrightarrow> 0 < version"
  by (auto simp: jobActionRead_def split: sum.splits if_splits)

lemma job_step_effect:
  assumes "jobInv st" "job_step st gs st'"
  shows "jobsOk (fst st') \<and> advanced (fst st) (fst st') \<and> snd st' = fst st # snd st \<and> distinct (map fst gs)
    \<and> (\<forall>(k, g) \<in> set gs. jobGen (fst st) k < g \<and> jobGen (fst st') k = g)"
  using assms(2)
proof cases
  case (put env j s res s' past)
  with assms(1) put_advances [of s env j res s'] show ?thesis by (simp add: jobInv_def)
next
  case (claim env owner lease limit now claimedAt cursor s cursor' js s' past)
  have "jobsOk s" using assms(1) claim(1) by (simp add: jobInv_def)
  note eff = claim_advances [OF this claim(4)]
  have "map fst gs = map jobKey js" by (simp add: claim comp_def)
  then show ?thesis using eff claim(1,2,3) by (auto simp: claim(2) simp del: map_map)
next
  case (no_claim env owner lease limit now claimedAt cursor s cursor' e s' past)
  with assms(1) ClaimJobs_Inl [OF no_claim(4)] show ?thesis by (simp add: jobInv_def)
next
  case (update env postgres now j owner fence s res s' past)
  with assms(1) update_advances [of s env postgres now j owner fence res s'] show ?thesis by (simp add: jobInv_def)
next
  case (action seen s past p rid expected env0 before job env1 env2 now leaseNow updatedAt j v s')
  have "jobsOk seen \<and> advanced seen s" "0 < expected"
    using assms(1) action(1,4) jobActionRead_positive [OF action(5)] by (auto simp: jobInv_def)
  with action assms(1) action_advances [of s seen expected env1 env2 now leaseNow updatedAt p rid j v s'] show ?thesis by (simp add: jobInv_def)
next
  case (no_action env1 env2 now leaseNow updatedAt p rid expected seen s e s' past)
  with assms(1) ClaimJobAction_Inl [OF no_action(4)] show ?thesis by (simp add: jobInv_def)
next
  case (other s' s past)
  then have "jobsOk s' \<and> advanced s s'" using assms(1) by (simp add: jobInv_def jobsOk_def advanced_def)
  with other show ?thesis by simp
qed

interpretation jf: fenced jobInv "\<lambda>st. jobGen (fst st)" job_step
proof unfold_locales
  fix st gs st' assume a: "jobInv st" "job_step st gs st'"
  note eff = job_step_effect [OF a]
  show "jobInv st'" using a(1) eff by (auto simp: jobInv_def intro: advanced_trans)
  show "distinct (map fst gs)" using eff by blast
  show "jobGen (fst st) k \<le> jobGen (fst st') k" for k using eff advanced_gen by blast
  show "jobGen (fst st) k < g \<and> g \<le> jobGen (fst st') k" if "(k, g) \<in> set gs" for k g using eff that by auto
qed

text \<open>
  C10: A worker that lost its job cannot write it: in every interleaving of creations, claims by reconcilers, claims by
  administrators (who may have read the job at any earlier time, and pass the version check of \<open>jobAction\<close>) and updates,
  in which no grant to an administrator wraps the 64-bit fence around, once a job has been granted again, with a then
  larger fence, every update under the earlier fence is refused and changes nothing.
\<close>

theorem stale_claim_refused:
  assumes "jobsOk s" "grant_run job_step (s, []) (gs @ (jobKey j, f) # gs') (s', past)" "(jobKey j, g) \<in> set gs'"
  shows "f < g \<and> (\<exists>e. UpdateJob env postgres now j owner f s' = (Inl e, s'))"
proof -
  have inv: "jobInv (s, [])" using assms(1) by (simp add: jobInv_def)
  note later = jf.later_grant [OF assms(2) inv assms(3)]
  have "\<exists>e. updateJobTx postgres now j owner f s' = Inl e"
  proof (cases "durableGet asJob (jb_TenantID j) ''resource_job'' (jobID j) s'")
    case (Inr x)
    then obtain v old where x: "x = (v, old)" "jobRow s' (jobKey j) = Some \<lparr>dr_version = v, dr_data = JobRec old\<rparr>"
      by (auto simp: durableGet_def jobRow_def jobKey_def asJob_Some split: option.splits)
    with later have "jb_Fence old \<noteq> f" by (simp add: jobGen_def)
    with Inr x show ?thesis by (cases now) (auto simp: updateJobTx_def)
  qed (simp add: updateJobTx_def)
  then have "\<exists>e. withTx env (updateJobTx postgres now j owner f) s' = (Inl e, s')"
    using withTx_cases [of env "updateJobTx postgres now j owner f" s'] by auto
  with later show ?thesis by (auto simp: UpdateJob_def)
qed

section \<open>Examples\<close>

definition sampleJob :: "string \<Rightarrow> time \<Rightarrow> int64 \<Rightarrow> Job" where
  "sampleJob tenant poll fence =
     (UnknownCreate tenant ''c'' ''a'' ''video.create'' ''r'' 0)\<lparr>jb_Status := ''running'', jb_NextPoll := poll, jb_Fence := fence\<rparr>"

definition oneJob :: "int64 \<Rightarrow> Job \<Rightarrow> Store" where
  "oneJob v j = emptyStore\<lparr>st_durable := [((jb_TenantID j, ''resource_job'', jobID j), \<lparr>dr_version = v, dr_data = JobRec j\<rparr>)]\<rparr>"

lemma oneJob_ok: "i64 (jb_Fence j) \<Longrightarrow> jobsOk (oneJob v j)"
  by (auto simp: jobsOk_def oneJob_def jobRow_def jobKey_def split: if_splits)

lemma claim_one:
  assumes "\<not> notDue now j" "0 \<le> jb_Fence j" "jb_Fence j \<noteq> maxInt64" "v \<noteq> 0" "lease > 0"
  shows "ClaimJobs sound ''w'' lease 1 (Inr now) (Inr now) ('''', '''') (oneJob v j)
     = (jobKey j, Inr [claimedJob ''w'' lease now j], oneJob (v + 1) (claimedJob ''w'' lease now j))"
proof -
  have rows: "rowsOfKind ''resource_job'' (oneJob v j) = [(jobKey j, \<lparr>dr_version = v, dr_data = JobRec j\<rparr>)]"
    by (simp add: rowsOfKind_def oneJob_def jobKey_def)
  have "gatherCandidates now 1 ('''', '''') (oneJob v j) = Inr ([\<lparr>cd_tenant = jb_TenantID j, cd_id = jobID j, cd_version = v, cd_job = j\<rparr>], jobKey j)"
    using assms by (simp add: gatherCandidates_def scanJobs_def scanPage_def scanBudget_def rows afterCursor_def) (simp add: jobKey_def invalidRow_def)
  moreover have "durablePut (jb_TenantID j) ''resource_job'' (jobID j) v (JobRec (claimedJob ''w'' lease now j)) (oneJob v j)
      = Inr (oneJob (v + 1) (claimedJob ''w'' lease now j))"
    using assms(4) by (simp add: durablePut_def oneJob_def) (simp add: claimedJob_def)
  ultimately show ?thesis using assms(5) by (simp add: ClaimJobs_def claimTx_def withTx_sound sound_def [THEN arg_cong, of tx_begin] Let_def)
qed

theorem claimed_jobs_leased_witness:
  "\<exists>cursor' js s'. ClaimJobs sound ''w'' 30 1 (Inr 10) (Inr 10) ('''', '''') (oneJob 1 (sampleJob ''t'' 5 0)) = (cursor', Inr js, s')
     \<and> distinct (map jobKey js) \<and> map jb_Fence js = [1]"
proof -
  let ?j = "sampleJob ''t'' 5 0"
  have f: "jb_Fence ?j = 0" by (simp add: sampleJob_def)
  have due: "\<not> notDue 10 ?j" by (simp add: notDue_def sampleJob_def UnknownCreate_def zeroTime_def)
  have ok: "jobsOk (oneJob 1 ?j)" by (rule oneJob_ok) (simp add: f i64_def)
  have run: "ClaimJobs sound ''w'' 30 1 (Inr 10) (Inr 10) ('''', '''') (oneJob 1 ?j)
      = (jobKey ?j, Inr [claimedJob ''w'' 30 10 ?j], oneJob (1 + 1) (claimedJob ''w'' 30 10 ?j))"
    by (rule claim_one) (simp_all add: due f maxInt64_def)
  from claimed_jobs_leased [OF ok run] have "distinct (map jobKey [claimedJob ''w'' 30 10 ?j])" by blast
  moreover have "map jb_Fence [claimedJob ''w'' 30 10 ?j] = [1]" by (simp add: claimedJob_def f wrap64_id i64_def)
  moreover note run
  ultimately show ?thesis by (intro exI conjI)
qed

theorem stale_claim_refused_witness:
  "\<exists>s' past e. grant_run job_step (oneJob 1 (sampleJob ''t'' 5 0), [])
       [(jobKey (sampleJob ''t'' 5 0), 1), (jobKey (sampleJob ''t'' 5 0), 2)] (s', past)
     \<and> UpdateJob sound True (Inr 60) (sampleJob ''t'' 5 1) ''w'' 1 s' = (Inl e, s')"
proof -
  let ?j = "sampleJob ''t'' 5 0" and ?s = "oneJob 1 (sampleJob ''t'' 5 0)"
  define j1 where "j1 = claimedJob ''w'' 30 10 ?j"
  define j2 where "j2 = claimedJob ''w'' 30 50 j1"
  have f: "jb_Fence ?j = 0" "jb_Fence j1 = 1" "jb_Fence j2 = 2" by (simp_all add: j2_def j1_def sampleJob_def claimedJob_def wrap64_id i64_def)
  have due: "\<not> notDue 10 ?j" "\<not> notDue 50 j1"
    by (simp_all add: notDue_def j1_def claimedJob_def sampleJob_def UnknownCreate_def zeroTime_def)
  have k: "jobKey j1 = jobKey ?j" "jobKey j2 = jobKey ?j" "jobKey (sampleJob ''t'' 5 1) = jobKey ?j"
    by (simp_all add: j2_def j1_def) (simp add: jobKey_def jobID_def sampleJob_def)
  have c1: "ClaimJobs sound ''w'' 30 1 (Inr 10) (Inr 10) ('''', '''') ?s = (jobKey ?j, Inr [j1], oneJob (1 + 1) j1)"
    unfolding j1_def by (rule claim_one) (simp_all add: due f maxInt64_def)
  have c2: "ClaimJobs sound ''w'' 30 1 (Inr 50) (Inr 50) ('''', '''') (oneJob (1 + 1) j1) = (jobKey j1, Inr [j2], oneJob (1 + 1 + 1) j2)"
    unfolding j2_def by (rule claim_one) (simp_all add: due f maxInt64_def)
  have run: "grant_run job_step (?s, []) ([] @ (jobKey ?j, 1) # [(jobKey ?j, 2)]) (oneJob (1 + 1 + 1) j2, [oneJob (1 + 1) j1, ?s])"
    using grant_run.more [OF grant_run.more [OF grant_run.start [of job_step "(?s, [])"] job_step.claim [OF c1, of "[]"]] job_step.claim [OF c2, of "[?s]"]]
    by (simp add: f k)
  have ok: "jobsOk ?s" by (rule oneJob_ok) (simp add: f i64_def)
  from stale_claim_refused [OF ok run [folded k(3)], of 2 sound True "Inr 60" "''w''"]
  obtain e where "UpdateJob sound True (Inr 60) (sampleJob ''t'' 5 1) ''w'' 1 (oneJob (1 + 1 + 1) j2) = (Inl e, oneJob (1 + 1 + 1) j2)" by auto
  with run show ?thesis unfolding append_Nil by (intro exI conjI)
qed
















end
