(* ===== verification/Single_Use.thy ===== *)
theory Single_Use
  imports Credential_Store
begin

text \<open>
  Records that are good for one use: realtime tickets (\<open>store/realtime.go\<close>, \<open>realtime/ticket.go\<close>), pending OAuth logins
  (\<open>store/auxiliary.go\<close>) and device flows (\<open>store/device_flow.go\<close>). The locale \<open>one_shot\<close> is the contract they share: a
  record is stored under a free key, and taking it removes it. What it gives is that along every
  run a key is taken no more often than it was stored. SHA-256 is a parameter.
\<close>

section \<open>The contract\<close>

datatype 'k use = Stored 'k | Taken 'k

inductive use_run :: "('s \<Rightarrow> 'k use list \<Rightarrow> 's \<Rightarrow> bool) \<Rightarrow> 's \<Rightarrow> 'k use list \<Rightarrow> 's \<Rightarrow> bool" for step where
  idle: "use_run step s [] s"
| more_use: "use_run step s us s' \<Longrightarrow> step s' u s'' \<Longrightarrow> use_run step s (us @ u) s''"

definition timesStored :: "'k \<Rightarrow> 'k use list \<Rightarrow> nat" where
  "timesStored k us = length (filter (\<lambda>u. u = Stored k) us)"

definition timesTaken :: "'k \<Rightarrow> 'k use list \<Rightarrow> nat" where
  "timesTaken k us = length (filter (\<lambda>u. u = Taken k) us)"

lemma times_simps [simp]:
  "timesStored k [] = 0" "timesTaken k [] = 0"
  "timesStored k (us @ us') = timesStored k us + timesStored k us'" "timesTaken k (us @ us') = timesTaken k us + timesTaken k us'"
  "timesStored k [Stored k'] = of_bool (k' = k)" "timesStored k [Taken k'] = 0"
  "timesTaken k [Taken k'] = of_bool (k' = k)" "timesTaken k [Stored k'] = 0"
  by (simp_all add: timesStored_def timesTaken_def)

locale one_shot =
  fixes inv :: "'s \<Rightarrow> bool" and present :: "'s \<Rightarrow> 'k \<Rightarrow> bool" and step :: "'s \<Rightarrow> 'k use list \<Rightarrow> 's \<Rightarrow> bool"
  assumes keeps_inv: "inv s \<Longrightarrow> step s us s' \<Longrightarrow> inv s'"
    and one_use: "inv s \<Longrightarrow> step s us s' \<Longrightarrow> us = [] \<or> (\<exists>k. us = [Stored k]) \<or> (\<exists>k. us = [Taken k])"
    and nothing_new: "inv s \<Longrightarrow> step s us s' \<Longrightarrow> present s' k \<Longrightarrow> present s k \<or> us = [Stored k]"
    and stored_free: "inv s \<Longrightarrow> step s [Stored k] s' \<Longrightarrow> \<not> present s k"
    and taken_gone: "inv s \<Longrightarrow> step s [Taken k] s' \<Longrightarrow> present s k \<and> \<not> present s' k"
begin

lemma run_keeps: "use_run step s us s' \<Longrightarrow> inv s \<Longrightarrow> inv s'"
  by (induction rule: use_run.induct) (blast intro: keeps_inv)+

lemma taken_bounded:
  assumes "use_run step s us s'" "inv s"
  shows "timesTaken k us + of_bool (present s' k) \<le> timesStored k us + of_bool (present s k)"
  using assms
proof (induction rule: use_run.induct)
  case (more_use s us s1 u s2)
  note inv = run_keeps [OF more_use.hyps(1) more_use.prems]
  note IH = more_use.IH [OF more_use.prems]
  consider "u = []" | k' where "u = [Stored k']" | k' where "u = [Taken k']" using one_use [OF inv more_use.hyps(2)] by blast
  then show ?case
  proof cases
    case 1
    then show ?thesis using IH nothing_new [OF inv more_use.hyps(2), of k] by (auto split: if_splits)
  next
    case 2
    then show ?thesis using IH nothing_new [OF inv more_use.hyps(2), of k] stored_free [OF inv, of k' s2] more_use.hyps(2)
      by (auto split: if_splits)
  next
    case 3
    then show ?thesis using IH nothing_new [OF inv more_use.hyps(2), of k] taken_gone [OF inv, of k' s2] more_use.hyps(2)
      by (auto split: if_splits)
  qed
qed simp

end

section \<open>Realtime tickets\<close>

fun asTicket :: "durableData \<Rightarrow> Ticket option" where
  "asTicket (TicketRec x) = Some x"
| "asTicket _ = None"

definition hexOf :: "string \<Rightarrow> string" where
  "hexOf bytes = hexEncode (map byteOf bytes)"

text \<open>The stored form of a ticket: the principal's session and authentication source are not encoded.\<close>

definition storedTicket :: "Ticket \<Rightarrow> Ticket" where
  "storedTicket t = t\<lparr>tk_Principal := storedForm (tk_Principal t)\<rparr>"

definition PutTicket :: "txEnv \<Rightarrow> time \<Rightarrow> Ticket \<Rightarrow> Store \<Rightarrow> unit res \<times> Store" where
  "PutTicket env now t s =
     (if tk_TenantID t = '''' \<or> tk_ConnectionID t = '''' \<or> tk_ModelID t = '''' \<or> tk_IDHash t = '''' \<or> \<not> tk_ExpiresAt t > now then
        (Inl (GoErr ''invalid realtime ticket''), s)
      else withTx env (putTx (tk_TenantID t) ''realtime_ticket'' (hexOf (tk_IDHash t)) 0 (TicketRec (storedTicket t))) s)"

definition expiredTicket :: go_error where
  "expiredTicket = GoErr ''invalid or expired realtime ticket''"

definition consumeTicketTx :: "string \<Rightarrow> time \<Rightarrow> string \<Rightarrow> string \<Rightarrow> Ticket txn" where
  "consumeTicketTx hash now connection model s =
     bindR (durableGetAny asTicket ''realtime_ticket'' (hexOf hash) s) (\<lambda>(_, _, t).
       if tk_Used t \<or> \<not> tk_ExpiresAt t > now \<or> tk_ConnectionID t \<noteq> connection \<or> tk_ModelID t \<noteq> model then Inl expiredTicket
       else Inr (t, durableDelete (tk_TenantID t) ''realtime_ticket'' (hexOf hash) s))"

definition ConsumeTicketBound :: "txEnv \<Rightarrow> string \<Rightarrow> time \<Rightarrow> string \<Rightarrow> string \<Rightarrow> Store \<Rightarrow> Ticket res \<times> Store" where
  "ConsumeTicketBound env hash now connection model s = withTx env (consumeTicketTx hash now connection model) s"

text \<open>\<open>raw\<close> is what the random source delivers, \<open>putNow\<close> the clock of the store.\<close>

definition issueTicket :: "txEnv \<Rightarrow> (string \<Rightarrow> string) \<Rightarrow> string res \<Rightarrow> time \<Rightarrow> Ticket \<Rightarrow> time \<Rightarrow> Store \<Rightarrow> string res \<times> Store" where
  "issueTicket env sha256 raw putNow t now s =
     (if tk_TenantID t = '''' \<or> tk_ConnectionID t = '''' \<or> tk_ModelID t = '''' \<or> (tk_KeyID t = '''' \<and> tk_SessionID t = '''') then
        (Inl (GoErr ''ticket identity required''), s)
      else case raw of
        Inl e \<Rightarrow> (Inl e, s)
      | Inr bytes \<Rightarrow>
          (case PutTicket env putNow (t\<lparr>tk_IDHash := sha256 bytes, tk_ExpiresAt := now + 30 * second\<rparr>) s of
             (Inl e, s') \<Rightarrow> (Inl e, s')
           | (Inr _, s') \<Rightarrow> (Inr (b64encode bytes), s')))"

definition IssueBoundTicket :: "txEnv \<Rightarrow> (string \<Rightarrow> string) \<Rightarrow> string res \<Rightarrow> time \<Rightarrow> Principal \<Rightarrow> string \<Rightarrow> string \<Rightarrow> time \<Rightarrow> Store
    \<Rightarrow> string res \<times> Store" where
  "IssueBoundTicket env sha256 raw putNow p connection model now s =
     (if pr_TenantID p = '''' \<or> (pr_KeyID p = '''' \<and> pr_SessionID p = '''') \<or> \<not> pr_Realtime p then
        (Inl (GoErr ''realtime principal grant required''), s)
      else issueTicket env sha256 raw putNow
        \<lparr>tk_IDHash = '''', tk_TenantID = pr_TenantID p, tk_ConnectionID = connection, tk_ModelID = model, tk_KeyID = pr_KeyID p,
         tk_SessionID = pr_SessionID p, tk_Principal = p, tk_Grants = [''realtime''], tk_ExpiresAt = zeroTime, tk_Used = False\<rparr> now s)"

definition restoreTicketIdentity :: "Ticket \<Rightarrow> Ticket res" where
  "restoreTicketIdentity t =
     (let p = tk_Principal t in
      if pr_TenantID p \<noteq> '''' \<and> pr_TenantID p \<noteq> tk_TenantID t then Inl (GoErr ''ticket tenant identity conflict'')
      else if tk_SessionID t \<noteq> '''' \<and> pr_SessionID p \<noteq> '''' \<and> tk_SessionID t \<noteq> pr_SessionID p then Inl (GoErr ''ticket session identity conflict'')
      else if tk_KeyID t \<noteq> '''' \<and> pr_KeyID p \<noteq> '''' \<and> tk_KeyID t \<noteq> pr_KeyID p then Inl (GoErr ''ticket key identity conflict'')
      else Inr (t\<lparr>tk_Principal :=
        p\<lparr>pr_SessionID := (if tk_SessionID t \<noteq> '''' then tk_SessionID t else pr_SessionID p),
          pr_KeyID := (if tk_KeyID t \<noteq> '''' then tk_KeyID t else pr_KeyID p),
          pr_TenantID := (if pr_TenantID p = '''' then tk_TenantID t else pr_TenantID p)\<rparr>\<rparr>))"

definition ConsumeTicket :: "txEnv \<Rightarrow> (string \<Rightarrow> string) \<Rightarrow> string \<Rightarrow> time \<Rightarrow> string \<Rightarrow> string \<Rightarrow> Store \<Rightarrow> Ticket res \<times> Store" where
  "ConsumeTicket env sha256 token now connection model s =
     (case b64decode token of
        None \<Rightarrow> (Inl (GoErr ''invalid realtime ticket''), s)
      | Some raw \<Rightarrow>
          if length raw \<noteq> 32 then (Inl (GoErr ''invalid realtime ticket''), s)
          else (case ConsumeTicketBound env (sha256 raw) now connection model s of
             (Inl e, s') \<Rightarrow> (Inl e, s')
           | (Inr t, s') \<Rightarrow>
               if tk_IDHash t \<noteq> sha256 raw \<or> tk_TenantID t = '''' \<or> tk_ConnectionID t \<noteq> connection \<or> tk_ModelID t \<noteq> model
                  \<or> tk_Used t \<or> \<not> tk_ExpiresAt t > now then (Inl expiredTicket, s')
               else (restoreTicketIdentity t, s')))"

definition HasGrant :: "Ticket \<Rightarrow> string \<Rightarrow> bool" where
  "HasGrant t grant = list_ex (\<lambda>g. g = grant) (tk_Grants t)"

definition AuthorizeTicket :: "Ticket \<Rightarrow> string \<Rightarrow> string \<Rightarrow> string \<Rightarrow> string \<Rightarrow> unit res" where
  "AuthorizeTicket t tenant connection model grant =
     (if tk_TenantID t \<noteq> tenant \<or> tk_ConnectionID t \<noteq> connection \<or> tk_ModelID t \<noteq> model then Inl (GoErr ''realtime ticket scope mismatch'')
      else if grant \<noteq> '''' \<and> \<not> HasGrant t grant then Inl (GoErr ''realtime grant denied'')
      else Inr ())"

definition GrantList :: "string \<Rightarrow> string list" where
  "GrantList raw = filter (\<lambda>v. v \<noteq> []) (map trimSpace (splitByte (CHR '','') raw))"

section \<open>Device flows\<close>

fun asDeviceFlow :: "durableData \<Rightarrow> deviceFlowRecord option" where
  "asDeviceFlow (DeviceFlowRec x) = Some x"
| "asDeviceFlow _ = None"

definition PutDeviceFlow :: "txEnv \<Rightarrow> (string \<Rightarrow> string) \<Rightarrow> time \<Rightarrow> Principal \<Rightarrow> string \<Rightarrow> string \<Rightarrow> int64 \<Rightarrow> time \<Rightarrow> string \<Rightarrow> Store
    \<Rightarrow> unit res \<times> Store" where
  "PutDeviceFlow env sha256 now p rid binding version expires ciphertext s =
     (if pr_TenantID p = '''' \<or> rid = '''' \<or> binding = '''' \<or> version \<le> 0 \<or> \<not> expires > now \<or> ciphertext = '''' then
        (Inl (GoErr ''invalid device flow''), s)
      else withTx env (putTx (pr_TenantID p) ''device_flow'' rid 0
        (DeviceFlowRec \<lparr>df_TenantID = pr_TenantID p, df_BindingHash = hexOf (sha256 binding), df_Version = version, df_ExpiresAt = expires,
           df_Ciphertext = ciphertext, df_Consumed = False\<rparr>)) s)"

definition takeFlowTx :: "string \<Rightarrow> string \<Rightarrow> string \<Rightarrow> int64 \<Rightarrow> time \<Rightarrow> string txn" where
  "takeFlowTx tenant rid want version now s =
     bindR (durableGet asDeviceFlow tenant ''device_flow'' rid s) (\<lambda>(_, r).
       if df_Consumed r \<or> df_BindingHash r \<noteq> want \<or> df_Version r \<noteq> version \<or> \<not> df_ExpiresAt r > now then
         Inl (GoErr ''device flow expired or binding mismatch'')
       else Inr (df_Ciphertext r, durableDelete tenant ''device_flow'' rid s))"

definition TakeDeviceFlow :: "txEnv \<Rightarrow> (string \<Rightarrow> string) \<Rightarrow> Principal \<Rightarrow> string \<Rightarrow> string \<Rightarrow> int64 \<Rightarrow> time \<Rightarrow> Store \<Rightarrow> string res \<times> Store" where
  "TakeDeviceFlow env sha256 p rid binding version now s =
     (if pr_TenantID p = '''' \<or> rid = '''' \<or> binding = '''' \<or> version \<le> 0 then (Inl (GoErr ''invalid device flow''), s)
      else withTx env (takeFlowTx (pr_TenantID p) rid (hexOf (sha256 binding)) version now) s)"

section \<open>Each record is used once\<close>

definition kept :: "string \<Rightarrow> Store \<Rightarrow> string \<times> string \<Rightarrow> bool" where
  "kept kind s k = (map_of (st_durable s) (fst k, kind, snd k) \<noteq> None)"

lemma kept_put:
  assumes "putTx t kind i 0 d s = Inr (u, s')"
  shows "\<not> kept kind s (t, i)" "kept kind s' k \<Longrightarrow> kept kind s k \<or> k = (t, i)"
    "map_of (st_durable s') (t, kind, i) = Some \<lparr>dr_version = 1, dr_data = d\<rparr>"
    "key \<noteq> (t, kind, i) \<Longrightarrow> map_of (st_durable s') key = map_of (st_durable s) key"
  using assms by (auto simp: putTx_def bindR_Inr durablePut_def kept_def map_of_update prod_eq_iff split: option.splits if_splits)

lemma kept_delete: "kept kind (durableDelete t kind i s) k \<longleftrightarrow> kept kind s k \<and> k \<noteq> (t, i)"
  by (auto simp: kept_def durableDelete_def map_of_delete prod_eq_iff)

text \<open>Rows of tickets are filed under the ticket's own tenant and hash.\<close>

definition ticketsOk :: "Store \<Rightarrow> bool" where
  "ticketsOk s = (\<forall>t i r. map_of (st_durable s) (t, ''realtime_ticket'', i) = Some r \<longrightarrow>
     (\<exists>x. dr_data r = TicketRec x \<and> tk_TenantID x = t \<and> hexOf (tk_IDHash x) = i))"

inductive ticket_step :: "Store \<Rightarrow> (string \<times> string) use list \<Rightarrow> Store \<Rightarrow> bool" where
  issued: "PutTicket env now t s = (Inr (), s') \<Longrightarrow> ticket_step s [Stored (tk_TenantID t, hexOf (tk_IDHash t))] s'"
| not_issued: "PutTicket env now t s = (Inl e, s') \<Longrightarrow> ticket_step s [] s'"
| admitted: "ConsumeTicketBound env hash now connection model s = (Inr t, s') \<Longrightarrow> ticket_step s [Taken (tk_TenantID t, hexOf hash)] s'"
| turned_away: "ConsumeTicketBound env hash now connection model s = (Inl e, s') \<Longrightarrow> ticket_step s [] s'"
| elsewhere: "(\<And>t i. map_of (st_durable s') (t, ''realtime_ticket'', i) \<in> {None, map_of (st_durable s) (t, ''realtime_ticket'', i)})
    \<Longrightarrow> ticket_step s [] s'"

lemma PutTicket_Inr:
  assumes "PutTicket env now t s = (Inr u, s')"
  shows "putTx (tk_TenantID t) ''realtime_ticket'' (hexOf (tk_IDHash t)) 0 (TicketRec (storedTicket t)) s = Inr (u, s')"
  using assms by (auto simp: PutTicket_def split: if_splits dest: withTx_okD)

lemma ticket_found:
  assumes "durableGetAny asTicket ''realtime_ticket'' rid s = Inr (tenant, v, t)" "ticketsOk s"
  shows "kept ''realtime_ticket'' s (tk_TenantID t, rid)"
proof -
  obtain r where r: "map_of (st_durable s) (tenant, ''realtime_ticket'', rid) = Some r" "asTicket (dr_data r) = Some t"
    using assms(1) by (auto simp: durableGetAny_def split: option.splits dest: find_first)
  with assms(2) have "tk_TenantID t = tenant" by (fastforce simp: ticketsOk_def)
  with r show ?thesis by (simp add: kept_def)
qed

lemma ConsumeTicketBound_Inr:
  assumes "ConsumeTicketBound env hash now connection model s = (Inr t, s')" "ticketsOk s"
  shows "kept ''realtime_ticket'' s (tk_TenantID t, hexOf hash)" "s' = durableDelete (tk_TenantID t) ''realtime_ticket'' (hexOf hash) s"
proof -
  from withTx_okD [OF assms(1) [unfolded ConsumeTicketBound_def]]
  obtain tenant v where "durableGetAny asTicket ''realtime_ticket'' (hexOf hash) s = Inr (tenant, v, t)"
    and s': "s' = durableDelete (tk_TenantID t) ''realtime_ticket'' (hexOf hash) s"
    by (auto simp: consumeTicketTx_def bindR_Inr split: if_splits)
  then show "kept ''realtime_ticket'' s (tk_TenantID t, hexOf hash)" using ticket_found assms(2) by blast
  show "s' = durableDelete (tk_TenantID t) ''realtime_ticket'' (hexOf hash) s" by (rule s')
qed

lemma ticket_step_ok:
  assumes "ticketsOk s" "ticket_step s us s'"
  shows "ticketsOk s'"
  using assms(2)
proof cases
  case (issued env now t)
  note put = kept_put [OF PutTicket_Inr [OF issued(2)]]
  have "\<exists>x. dr_data r = TicketRec x \<and> tk_TenantID x = tn \<and> hexOf (tk_IDHash x) = i"
    if "map_of (st_durable s') (tn, ''realtime_ticket'', i) = Some r" for tn i r
    using that put(3) put(4) [of "(tn, ''realtime_ticket'', i)"] assms(1)
    by (cases "(tn, i) = (tk_TenantID t, hexOf (tk_IDHash t))") (auto simp: ticketsOk_def storedTicket_def)
  then show ?thesis by (simp add: ticketsOk_def)
next
  case (not_issued env now t e)
  then show ?thesis using assms(1) withTx_Inl by (fastforce simp: PutTicket_def split: if_splits)
next
  case (admitted env hash now connection model t)
  then show ?thesis using assms(1) ConsumeTicketBound_Inr(2) [OF admitted(2) assms(1)]
    by (auto simp: ticketsOk_def durableDelete_def map_of_delete)
next
  case (turned_away env hash now connection model e)
  then show ?thesis using assms(1) withTx_Inl by (simp add: ConsumeTicketBound_def) blast
next
  case elsewhere
  then have "map_of (st_durable s) (tn, ''realtime_ticket'', i) = Some r" if "map_of (st_durable s') (tn, ''realtime_ticket'', i) = Some r" for tn i r
    using elsewhere(2) [of tn i] that by auto
  then show ?thesis using assms(1) by (simp add: ticketsOk_def)
qed

interpretation tk: one_shot ticketsOk "kept ''realtime_ticket''" ticket_step
proof unfold_locales
  fix s us s' assume a: "ticketsOk s" "ticket_step s us s'"
  show "ticketsOk s'" by (rule ticket_step_ok [OF a])
  show "us = [] \<or> (\<exists>k. us = [Stored k]) \<or> (\<exists>k. us = [Taken k])" using a(2) by cases auto
  show "kept ''realtime_ticket'' s k \<or> us = [Stored k]" if "kept ''realtime_ticket'' s' k" for k
    using a(2)
  proof cases
    case (issued env now t)
    with that kept_put(2) [OF PutTicket_Inr [OF issued(2)]] show ?thesis by blast
  next
    case (not_issued env now t e)
    with that show ?thesis by (auto simp: PutTicket_def split: if_splits dest: withTx_Inl)
  next
    case (admitted env hash now connection model t)
    with that ConsumeTicketBound_Inr(2) [OF admitted(2) a(1)] show ?thesis by (simp add: kept_delete)
  next
    case (turned_away env hash now connection model e)
    with that withTx_Inl [OF turned_away(2) [unfolded ConsumeTicketBound_def]] show ?thesis by simp
  next
    case elsewhere
    from that elsewhere(2) [of "fst k" "snd k"] show ?thesis by (auto simp: kept_def)
  qed
next
  fix s k s' assume a: "ticketsOk s" "ticket_step s [Stored k] s'"
  from a(2) show "\<not> kept ''realtime_ticket'' s k" by cases (use kept_put(1) PutTicket_Inr in blast)+
next
  fix s k s' assume a: "ticketsOk s" "ticket_step s [Taken k] s'"
  from a(2) show "kept ''realtime_ticket'' s k \<and> \<not> kept ''realtime_ticket'' s' k"
  proof cases
    case (admitted env hash now connection model t)
    note eff = ConsumeTicketBound_Inr [OF admitted(2) a(1)]
    show ?thesis unfolding admitted(1) using eff(1) unfolding eff(2) by (simp add: kept_delete)
  qed
qed

text \<open>Logins and device flows keep the same contract, with no condition on the store.\<close>

inductive login_step :: "Store \<Rightarrow> (string \<times> string) use list \<Rightarrow> Store \<Rightarrow> bool" where
  saved: "SaveOAuthLogin env now l s = (Inr (), s') \<Longrightarrow> login_step s [Stored (lo_TenantID l, lo_StateHash l)] s'"
| consumed: "ConsumeOAuthLogin env hash tenant session connector now s = (Inr l, s') \<Longrightarrow> login_step s [Taken (tenant, hash)] s'"
| no_change: "(\<And>k. kept ''credential_login'' s' k \<Longrightarrow> kept ''credential_login'' s k) \<Longrightarrow> login_step s [] s'"

inductive flow_step :: "Store \<Rightarrow> (string \<times> string) use list \<Rightarrow> Store \<Rightarrow> bool" where
  opened: "PutDeviceFlow env sha256 now p rid binding version expires ciphertext s = (Inr (), s') \<Longrightarrow> flow_step s [Stored (pr_TenantID p, rid)] s'"
| taken: "TakeDeviceFlow env sha256 p rid binding version now s = (Inr c, s') \<Longrightarrow> flow_step s [Taken (pr_TenantID p, rid)] s'"
| flow_idle: "(\<And>k. kept ''device_flow'' s' k \<Longrightarrow> kept ''device_flow'' s k) \<Longrightarrow> flow_step s [] s'"

lemma SaveOAuthLogin_Inr:
  "SaveOAuthLogin env now l s = (Inr u, s') \<Longrightarrow> putTx (lo_TenantID l) ''credential_login'' (lo_StateHash l) 0 (OAuthLoginRec l) s = Inr (u, s')"
  by (auto simp: SaveOAuthLogin_def split: if_splits dest: withTx_okD)

lemma ConsumeOAuthLogin_Inr:
  assumes "ConsumeOAuthLogin env hash tenant session connector now s = (Inr l, s')"
  shows "kept ''credential_login'' s (tenant, hash) \<and> s' = durableDelete tenant ''credential_login'' hash s"
  using withTx_okD [OF assms [unfolded ConsumeOAuthLogin_def]]
  by (auto simp: consumeLoginTx_def bindR_Inr durableGet_def kept_def split: option.splits if_splits)

lemma PutDeviceFlow_Inr:
  "PutDeviceFlow env sha256 now p rid binding version expires ciphertext s = (Inr u, s')
   \<Longrightarrow> \<exists>d. putTx (pr_TenantID p) ''device_flow'' rid 0 d s = Inr (u, s')"
  by (auto simp: PutDeviceFlow_def split: if_splits dest: withTx_okD)

lemma TakeDeviceFlow_Inr:
  assumes "TakeDeviceFlow env sha256 p rid binding version now s = (Inr c, s')"
  shows "kept ''device_flow'' s (pr_TenantID p, rid) \<and> s' = durableDelete (pr_TenantID p) ''device_flow'' rid s"
proof -
  have "takeFlowTx (pr_TenantID p) rid (hexOf (sha256 binding)) version now s = Inr (c, s')"
    using assms by (auto simp: TakeDeviceFlow_def split: if_splits dest: withTx_okD)
  then show ?thesis by (auto simp: takeFlowTx_def bindR_Inr durableGet_def kept_def split: option.splits if_splits)
qed

interpretation ol: one_shot "\<lambda>_. True" "kept ''credential_login''" login_step
proof unfold_locales
  fix s us s' k assume a: "login_step s us s'"
  show "us = [] \<or> (\<exists>k. us = [Stored k]) \<or> (\<exists>k. us = [Taken k])" using a by cases auto
  show "kept ''credential_login'' s k \<or> us = [Stored k]" if "kept ''credential_login'' s' k"
    using a that by cases (auto dest!: SaveOAuthLogin_Inr ConsumeOAuthLogin_Inr kept_put(2) simp: kept_delete)
qed (erule login_step.cases; force dest: SaveOAuthLogin_Inr ConsumeOAuthLogin_Inr kept_put(1) simp: kept_delete)+

interpretation df: one_shot "\<lambda>_. True" "kept ''device_flow''" flow_step
proof unfold_locales
  fix s us s' k assume a: "flow_step s us s'"
  show "us = [] \<or> (\<exists>k. us = [Stored k]) \<or> (\<exists>k. us = [Taken k])" using a by cases auto
  show "kept ''device_flow'' s k \<or> us = [Stored k]" if "kept ''device_flow'' s' k"
    using a that by cases (auto dest!: PutDeviceFlow_Inr TakeDeviceFlow_Inr kept_put(2) simp: kept_delete)
qed (erule flow_step.cases; force dest: PutDeviceFlow_Inr TakeDeviceFlow_Inr kept_put(1) simp: kept_delete)+

text \<open>
  C14: A realtime ticket admits one connection: in every interleaving of issued tickets, admissions and other changes of the
  store, by any number of processes, a ticket is admitted no more often than it was issued, counting
  one that was there at the start; a key that is issued once is admitted at most once.
\<close>

theorem tickets_used_once:
  assumes "ticketsOk s" "use_run ticket_step s us s'"
  shows "timesTaken k us + of_bool (kept ''realtime_ticket'' s' k) \<le> timesStored k us + of_bool (kept ''realtime_ticket'' s k)"
  using tk.taken_bounded [OF assms(2,1)] .

lemma issued_ticket:
  assumes "IssueBoundTicket env sha256 (Inr raw) putNow p connection model now s = (Inr token, s1)"
  obtains t u where "t = \<lparr>tk_IDHash = sha256 raw, tk_TenantID = pr_TenantID p, tk_ConnectionID = connection, tk_ModelID = model,
      tk_KeyID = pr_KeyID p, tk_SessionID = pr_SessionID p, tk_Principal = p, tk_Grants = [''realtime''],
      tk_ExpiresAt = now + 30 * second, tk_Used = False\<rparr>"
    "PutTicket env putNow t s = (Inr u, s1)" "token = b64encode raw" "pr_TenantID p \<noteq> ''''"
  using assms by (auto simp: IssueBoundTicket_def issueTicket_def split: if_splits prod.splits sum.splits)

text \<open>
  C13: A ticket that was issued is worth the caller it was issued to, once: presented in time for the connection and
  model it is bound to, its token gives back the issuing principal with its key and session, with the realtime grant,
  and presented again it is refused. The hypothesis says that the hash of the fresh random bytes is not in use.
\<close>

theorem ticket_roundtrip:
  assumes issue: "IssueBoundTicket env sha256 (Inr raw) putNow p connection model now s = (Inr token, s1)"
    and raw: "length raw = 32" and fresh: "\<And>t. map_of (st_durable s) (t, ''realtime_ticket'', hexOf (sha256 raw)) = None"
    and inTime: "at < now + 30 * second"
  shows "\<exists>t s2. ConsumeTicket sound sha256 token at connection model s1 = (Inr t, s2) \<and> tk_Principal t = p\<lparr>pr_AuthSource := ''''\<rparr>
     \<and> AuthorizeTicket t (pr_TenantID p) connection model ''realtime'' = Inr ()
     \<and> ConsumeTicket sound sha256 token at connection model s2 = (Inl ErrNoRows, s2)"
proof -
  obtain t u where t: "t = \<lparr>tk_IDHash = sha256 raw, tk_TenantID = pr_TenantID p, tk_ConnectionID = connection, tk_ModelID = model,
      tk_KeyID = pr_KeyID p, tk_SessionID = pr_SessionID p, tk_Principal = p, tk_Grants = [''realtime''],
      tk_ExpiresAt = now + 30 * second, tk_Used = False\<rparr>"
    and put: "PutTicket env putNow t s = (Inr u, s1)" and token: "token = b64encode raw" "pr_TenantID p \<noteq> ''''"
    by (rule issued_ticket [OF issue])
  let ?id = "hexOf (sha256 raw)"
  note rows = kept_put [OF PutTicket_Inr [OF put]]
  have row: "map_of (st_durable s1) (pr_TenantID p, ''realtime_ticket'', ?id) = Some \<lparr>dr_version = 1, dr_data = TicketRec (storedTicket t)\<rparr>"
    using rows(3) by (simp add: t)
  have alone: "map_of (st_durable s1) (t', ''realtime_ticket'', ?id) = None" if "t' \<noteq> pr_TenantID p" for t'
    using rows(4) [of "(t', ''realtime_ticket'', ?id)"] that fresh by (simp add: t)
  define s2 where "s2 = durableDelete (pr_TenantID p) ''realtime_ticket'' ?id s1"
  have found: "durableGetAny asTicket ''realtime_ticket'' ?id s1 = Inr (pr_TenantID p, 1, storedTicket t)"
    using durableGetAny_only [OF row, of asTicket "storedTicket t"] alone by simp
  have first: "ConsumeTicketBound sound (sha256 raw) at connection model s1 = (Inr (storedTicket t), s2)"
    using inTime by (simp add: ConsumeTicketBound_def withTx_sound consumeTicketTx_def found s2_def) (simp add: t storedTicket_def)
  define out where "out = (storedTicket t)\<lparr>tk_Principal := p\<lparr>pr_AuthSource := ''''\<rparr>\<rparr>"
  have "restoreTicketIdentity (storedTicket t) = Inr out"
    by (cases p) (simp add: restoreTicketIdentity_def Let_def out_def t storedTicket_def storedForm_def)
  then have "ConsumeTicket sound sha256 token at connection model s1 = (Inr out, s2)"
    using raw inTime token(2) by (simp add: ConsumeTicket_def token(1) first) (simp add: t storedTicket_def)
  moreover have "durableGetAny asTicket ''realtime_ticket'' ?id s2 = Inl ErrNoRows"
    by (rule durableGetAny_absent) (use alone in \<open>auto simp: s2_def durableDelete_def map_of_delete\<close>)
  then have "ConsumeTicket sound sha256 token at connection model s2 = (Inl ErrNoRows, s2)"
    using raw by (simp add: ConsumeTicket_def token(1) ConsumeTicketBound_def withTx_sound consumeTicketTx_def)
  moreover have "AuthorizeTicket out (pr_TenantID p) connection model ''realtime'' = Inr ()"
    by (simp add: AuthorizeTicket_def HasGrant_def out_def t storedTicket_def)
  ultimately show ?thesis by (auto simp: out_def)
qed

section \<open>Examples\<close>

definition caller :: Principal where
  "caller = \<lparr>pr_TenantID = ''t'', pr_SubjectID = ''u'', pr_KeyID = ''k'', pr_Role = ''developer'', pr_SessionID = '''', pr_AuthSource = ''key'',
     pr_KeyRevision = 1, pr_Permissions = [], pr_Aliases = [], pr_Connections = [], pr_Operations = [], pr_Portable = True,
     pr_NativeAccount = False, pr_Realtime = True\<rparr>"

definition callerTicket :: Ticket where
  "callerTicket = \<lparr>tk_IDHash = ''h'', tk_TenantID = ''t'', tk_ConnectionID = ''c'', tk_ModelID = ''m'', tk_KeyID = ''k'', tk_SessionID = '''',
     tk_Principal = caller, tk_Grants = [''realtime''], tk_ExpiresAt = 30 * second, tk_Used = False\<rparr>"

definition ticketStore :: Store where
  "ticketStore = emptyStore\<lparr>st_durable :=
     [((''t'', ''realtime_ticket'', hexOf ''h''), \<lparr>dr_version = 1, dr_data = TicketRec (storedTicket callerTicket)\<rparr>)]\<rparr>"

lemma callerTicket_put: "PutTicket sound 0 callerTicket emptyStore = (Inr (), ticketStore)"
  by (simp add: PutTicket_def callerTicket_def second_def withTx_sound putTx_def durablePut_def emptyStore_def ticketStore_def)

lemma callerTicket_consumed: "ConsumeTicketBound sound ''h'' 1 ''c'' ''m'' ticketStore = (Inr (storedTicket callerTicket), emptyStore)"
  by (simp add: ConsumeTicketBound_def withTx_sound consumeTicketTx_def durableGetAny_def ticketStore_def)
    (simp add: callerTicket_def storedTicket_def second_def durableDelete_def emptyStore_def)

theorem tickets_used_once_witness:
  "use_run ticket_step emptyStore [Stored (''t'', hexOf ''h''), Taken (''t'', hexOf ''h'')] emptyStore
   \<and> timesTaken (''t'', hexOf ''h'') [Stored (''t'', hexOf ''h''), Taken (''t'', hexOf ''h'')]
     \<le> timesStored (''t'', hexOf ''h'') [Stored (''t'', hexOf ''h''), Taken (''t'', hexOf ''h'')]"
proof -
  have k: "tk_TenantID callerTicket = ''t''" "tk_IDHash callerTicket = ''h''" "tk_TenantID (storedTicket callerTicket) = ''t''"
    by (simp_all add: callerTicket_def storedTicket_def)
  note steps = ticket_step.issued [OF callerTicket_put, unfolded k] ticket_step.admitted [OF callerTicket_consumed, unfolded k]
  have run: "use_run ticket_step emptyStore [Stored (''t'', hexOf ''h''), Taken (''t'', hexOf ''h'')] emptyStore"
    using use_run.more_use [OF use_run.more_use [OF use_run.idle [of ticket_step emptyStore] steps(1)] steps(2)] by simp
  have "ticketsOk emptyStore" "\<not> kept ''realtime_ticket'' emptyStore (''t'', hexOf ''h'')" by (simp_all add: ticketsOk_def kept_def emptyStore_def)
  with tickets_used_once [OF _ run, of "(''t'', hexOf ''h'')"] run show ?thesis by simp
qed

theorem ticket_roundtrip_witness:
  "\<exists>t s2. ConsumeTicket sound (\<lambda>_. ''h'') (b64encode (replicate 32 (CHR ''x''))) 1 ''c'' ''m'' ticketStore = (Inr t, s2)
     \<and> tk_Principal t = caller\<lparr>pr_AuthSource := ''''\<rparr>"
proof -
  have "IssueBoundTicket sound (\<lambda>_. ''h'') (Inr (replicate 32 (CHR ''x''))) 0 caller ''c'' ''m'' 0 emptyStore
      = (Inr (b64encode (replicate 32 (CHR ''x''))), ticketStore)"
    using callerTicket_put by (simp add: IssueBoundTicket_def issueTicket_def callerTicket_def) (simp add: caller_def)
  from ticket_roundtrip [OF this, of 1] show ?thesis by (auto simp: emptyStore_def second_def)
qed

end
